theory Spec2Isabelle
  imports Complex_Main
begin

section \<open>Dense arrays\<close>

text \<open>
  A one-dimensional numpy array of floats is a list of reals, a two-dimensional one the
  list of its rows, and the four-dimensional projection tensor \<open>M[p, q, height, star]\<close>
  a list nested four deep in the order of its axes. Floating-point numbers are read as
  the reals they stand for. Where IEEE arithmetic leaves the reals (\<open>inf\<close>, \<open>nan\<close>) the
  model says so with \<open>None\<close>, and a power that Python computes as a \<open>complex\<close> is a
  complex number here. The forward model and the least-squares solve are given a second
  time with every sum and product rounded to binary64.
\<close>

type_synonym vec = "real list"
type_synonym mat = "real list list"
type_synonym tensor4 = "real list list list list"

datatype failure =
    ZeroDivisionError
  | ValueError
  | LinAlgError
  | KeyError
  | AttributeError

definition zeros :: "nat \<Rightarrow> nat \<Rightarrow> mat" where
  "zeros r c = replicate r (replicate c 0)"

definition has_shape :: "mat \<Rightarrow> nat \<Rightarrow> nat \<Rightarrow> bool" where
  "has_shape A r c = (length A = r \<and> list_all (\<lambda>row. length row = c) A)"

definition has_shape4 :: "tensor4 \<Rightarrow> nat \<Rightarrow> nat \<Rightarrow> nat \<Rightarrow> nat \<Rightarrow> bool" where
  "has_shape4 T a b c d =
     (length T = a \<and> list_all (\<lambda>P. length P = b \<and>
        list_all (\<lambda>Q. length Q = c \<and> list_all (\<lambda>R. length R = d) Q) P) T)"

text \<open>\<open>T[:, :, i, j]\<close>\<close>

definition tensor_block :: "tensor4 \<Rightarrow> nat \<Rightarrow> nat \<Rightarrow> mat" where
  "tensor_block T i j = map (map (\<lambda>cell. cell ! i ! j)) T"

text \<open>\<open>A[up:up+len(B), left:left+len(B[0])] = B\<close>, for a block that lies inside \<open>A\<close>.\<close>

definition set_block :: "mat \<Rightarrow> nat \<Rightarrow> nat \<Rightarrow> mat \<Rightarrow> mat" where
  "set_block A up left B =
     map (\<lambda>r. if up \<le> r \<and> r < up + length B
               then take left (A ! r) @ B ! (r - up) @ drop (left + length (B ! (r - up))) (A ! r)
               else A ! r) [0..<length A]"

text \<open>The inner product, a column, \<open>A @ v\<close>, \<open>A @ B\<close> for a \<open>B\<close> of \<open>p\<close> columns, \<open>A.T\<close> for
  an \<open>A\<close> of \<open>c\<close> columns, and \<open>A + B\<close>.\<close>

definition dot :: "vec \<Rightarrow> vec \<Rightarrow> real" where
  "dot u v = sum_list (map2 (*) u v)"

definition col :: "mat \<Rightarrow> nat \<Rightarrow> vec" where
  "col A j = map (\<lambda>row. row ! j) A"

definition matvec :: "mat \<Rightarrow> vec \<Rightarrow> vec" where
  "matvec A v = map (\<lambda>row. dot row v) A"

definition matmul :: "nat \<Rightarrow> mat \<Rightarrow> mat \<Rightarrow> mat" where
  "matmul p A B = map (\<lambda>row. map (\<lambda>j. dot row (col B j)) [0..<p]) A"

definition transpose_mat :: "nat \<Rightarrow> mat \<Rightarrow> mat" where
  "transpose_mat c A = map (col A) [0..<c]"

definition mat_add :: "mat \<Rightarrow> mat \<Rightarrow> mat" where
  "mat_add A B = map2 (map2 (+)) A B"

definition identity :: "nat \<Rightarrow> mat" where
  "identity n = map (\<lambda>i. map (\<lambda>j. if i = j then 1 else 0) [0..<n]) [0..<n]"

text \<open>\<open>scipy.linalg.block_diag\<close> of square blocks of size \<open>n\<close>.\<close>

fun block_diag :: "nat \<Rightarrow> mat list \<Rightarrow> mat" where
  "block_diag n [] = []"
| "block_diag n (B # Bs) =
     map (\<lambda>row. row @ replicate (n * length Bs) 0) B @
     map (\<lambda>row. replicate n 0 @ row) (block_diag n Bs)"

text \<open>\<open>x.reshape((r, c))\<close> and \<open>A.flatten()\<close> (row-major).\<close>

definition reshape :: "nat \<Rightarrow> nat \<Rightarrow> vec \<Rightarrow> mat" where
  "reshape r c x = map (\<lambda>i. take c (drop (i * c) x)) [0..<r]"

definition flatten :: "mat \<Rightarrow> vec" where
  "flatten A = concat A"

section \<open>Float operations that can fail\<close>

text \<open>
  Python's float division raises on a zero divisor. numpy's float64 division does not:
  it gives \<open>inf\<close> or \<open>nan\<close> with a warning, which is \<open>None\<close> here.
\<close>

definition py_div :: "real \<Rightarrow> real \<Rightarrow> failure + real" where
  "py_div x y = (if y = 0 then Inl ZeroDivisionError else Inr (x / y))"

definition np_div :: "real \<Rightarrow> real \<Rightarrow> real option" where
  "np_div x y = (if y = 0 then None else Some (x / y))"

text \<open>
  \<open>x ** y\<close> on Python floats. \<open>0.0\<close> to a negative power raises. A negative base to a
  power that is not an integer is the \<open>complex\<close> number \<open>|x|\<^sup>y (cos \<pi>y + i sin \<pi>y)\<close>, so
  the result is a complex number in general; a \<open>float64\<close> array keeps the real part of
  what is assigned to one of its cells.
\<close>

definition float_pow :: "real \<Rightarrow> real \<Rightarrow> failure + complex" where
  "float_pow x y =
     (if y = 0 then Inr 1
      else if x = 0 then (if y < 0 then Inl ZeroDivisionError else Inr 0)
      else if 0 < x then Inr (of_real (x powr y))
      else if y \<in> \<int> then Inr (of_real ((if even \<lfloor>y\<rfloor> then 1 else - 1) * ((- x) powr y)))
      else Inr (of_real ((- x) powr y) * cis (pi * y)))"

text \<open>The first failure of a sequence of computations, or all their results.\<close>

fun collect :: "(failure + 'a) list \<Rightarrow> failure + 'a list" where
  "collect [] = Inr []"
| "collect (x # xs) =
     (case x of Inl e \<Rightarrow> Inl e
      | Inr v \<Rightarrow> (case collect xs of Inl e \<Rightarrow> Inl e | Inr vs \<Rightarrow> Inr (v # vs)))"

section \<open>The tomography session\<close>

text \<open>
  The fields of a \<open>tomography\<close> object. An attribute that \<open>__init__\<close> does not set
  (\<open>M\<close>, \<open>MStack\<close>, \<open>covariance\<close>, \<open>mu\<close>, \<open>MStackStar\<close>) is \<open>None\<close> until a method
  assigns it. The fields \<open>t\<close>, \<open>beta\<close>, \<open>angle\<close>, \<open>M\<close> and \<open>a\<close> carry the prefix
  \<open>self_\<close>. The geometry arrays hold numpy floats, hence \<open>real option\<close>.
\<close>

record tomography =
  nHeight :: nat
  nStars :: nat
  nZernike :: nat
  fov :: real
  heights :: vec
  DTel :: real
  verbose :: bool
  MComputed :: bool
  numericalProjection :: bool
  addPiston :: bool
  noll0 :: nat
  DMetapupil :: vec
  self_t :: "real option list list"
  self_beta :: "real option list list"
  self_angle :: "real list list"
  self_M :: "tensor4 option"
  MStack :: "mat option"
  covariance :: "mat option"
  aStack :: "string \<rightharpoonup> vec"
  self_a :: "string \<rightharpoonup> mat"
  mu :: "real option"
  MStackStar :: "mat option"

text \<open>
  One file \<open>matrices/transformationMatrices_*.npz\<close>: the tensor and the configuration it
  was computed for, in the order \<open>np.savez\<close> wrote them. The directory is the list of
  its files in the order \<open>glob\<close> returns them.
\<close>

record npz =
  arr_0 :: tensor4
  arr_1 :: vec
  arr_2 :: nat
  arr_3 :: nat
  arr_4 :: real
  arr_5 :: real

text \<open>
  The module \<open>projection\<close> is not part of the sources: its two functions are taken as
  they are called, \<open>(nZernike, beta, t, angle)\<close> to a square matrix.
\<close>

record projection_module =
  zernikeProjectionMatrixNumerical :: "nat \<Rightarrow> real option \<Rightarrow> real option \<Rightarrow> real \<Rightarrow> mat"
  zernikeProjectionMatrix :: "nat \<Rightarrow> real option \<Rightarrow> real option \<Rightarrow> real \<Rightarrow> mat"

section \<open>Stacking the projection matrices\<close>

text \<open>
  \<open>stackProjection\<close>: \<open>MStack\<close> starts as zeros of shape
  \<open>(nZernike * nStars, nZernike * nHeight)\<close>; for every height \<open>i\<close> and star \<open>j\<close> the
  block \<open>M[:, :, i, j]\<close> is written to rows \<open>j * nZernike ..< (j + 1) * nZernike\<close> and
  columns \<open>i * nZernike ..< (i + 1) * nZernike\<close>.
\<close>

definition stack_star :: "nat \<Rightarrow> tensor4 \<Rightarrow> nat \<Rightarrow> mat \<Rightarrow> nat \<Rightarrow> mat" where
  "stack_star nZ T i A j = set_block A (j * nZ) (i * nZ) (tensor_block T i j)"

definition stack_height :: "nat \<Rightarrow> nat \<Rightarrow> tensor4 \<Rightarrow> mat \<Rightarrow> nat \<Rightarrow> mat" where
  "stack_height nZ nS T A i = foldl (stack_star nZ T i) A [0..<nS]"

definition stack_blocks :: "nat \<Rightarrow> nat \<Rightarrow> nat \<Rightarrow> tensor4 \<Rightarrow> mat" where
  "stack_blocks nZ nH nS T = foldl (stack_height nZ nS T) (zeros (nZ * nS) (nZ * nH)) [0..<nH]"

definition stackProjection :: "tomography \<Rightarrow> failure + tomography" where
  "stackProjection s =
     (case self_M s of
        None \<Rightarrow> Inl AttributeError
      | Some T \<Rightarrow> Inr (s\<lparr>MStack := Some (stack_blocks (nZernike s) (nHeight s) (nStars s) T)\<rparr>))"

section \<open>Looking up and computing the projection tensor\<close>

text \<open>
  \<open>projectionExists\<close> scans the files. \<open>ind\<close> are the positions of the stored heights
  that occur among the requested ones; a file is taken when there are \<open>nHeight\<close> of
  them and the star count, field of view and diameter agree and it has at least the
  requested modes. Then \<open>M\<close> is the slice \<open>arr_0[0:nZernike, 0:nZernike, ind, :]\<close>.
  \<open>MComputed\<close> is set and \<open>stackProjection\<close> is called inside \<open>if (self.verbose)\<close>.
\<close>

definition height_indices :: "vec \<Rightarrow> vec \<Rightarrow> nat list" where
  "height_indices stored wanted = filter (\<lambda>k. stored ! k \<in> set wanted) [0..<length stored]"

definition slice_tensor :: "tensor4 \<Rightarrow> nat \<Rightarrow> nat list \<Rightarrow> tensor4" where
  "slice_tensor T nZ ind = map (\<lambda>P. map (\<lambda>Q. map (\<lambda>k. Q ! k) ind) (take nZ P)) (take nZ T)"

fun projectionExists :: "tomography \<Rightarrow> npz list \<Rightarrow> failure + (bool \<times> tomography)" where
  "projectionExists s [] = Inr (False, s)"
| "projectionExists s (out # files) =
     (let ind = height_indices (arr_1 out) (heights s) in
      if length ind = nHeight s then
        (if arr_2 out = nStars s \<and> arr_3 out \<ge> nZernike s \<and> arr_4 out = fov s \<and> arr_5 out = DTel s
         then
           (let s1 = s\<lparr>self_M := Some (slice_tensor (arr_0 out) (nZernike s) ind)\<rparr> in
            if verbose s then
              (case stackProjection (s1\<lparr>MComputed := True\<rparr>) of
                 Inl e \<Rightarrow> Inl e
               | Inr s2 \<Rightarrow> Inr (True, s2))
            else Inr (True, s1))
         else projectionExists s files)
      else projectionExists s files)"

text \<open>
  \<open>computeProjection\<close>: unless \<open>MComputed\<close>, every block \<open>M[:, :, i, j]\<close> is what the
  projection module returns for the geometry of height \<open>i\<close> and star \<open>j\<close>; the tensor is
  saved as a new file and stacked.
\<close>

definition projection_block :: "projection_module \<Rightarrow> tomography \<Rightarrow> nat \<Rightarrow> nat \<Rightarrow> mat" where
  "projection_block pm s i j =
     (if numericalProjection s
      then zernikeProjectionMatrixNumerical pm (nZernike s)
             (self_beta s ! i ! j) (self_t s ! i ! j) (self_angle s ! i ! j)
      else zernikeProjectionMatrix pm (nZernike s)
             (self_beta s ! i ! j) (self_t s ! i ! j) (self_angle s ! i ! j))"

definition projection_tensor :: "projection_module \<Rightarrow> tomography \<Rightarrow> tensor4" where
  "projection_tensor pm s =
     map (\<lambda>p. map (\<lambda>q. map (\<lambda>i. map (\<lambda>j. projection_block pm s i j ! p ! q)
       [0..<nStars s]) [0..<nHeight s]) [0..<nZernike s]) [0..<nZernike s]"

definition computeProjection ::
    "projection_module \<Rightarrow> tomography \<Rightarrow> npz list \<Rightarrow> failure + (tomography \<times> npz list)" where
  "computeProjection pm s files =
     (if \<not> MComputed s then
        (let T = projection_tensor pm s;
             saved = \<lparr>arr_0 = T, arr_1 = heights s, arr_2 = nStars s, arr_3 = nZernike s,
                      arr_4 = fov s, arr_5 = DTel s\<rparr>
         in case stackProjection (s\<lparr>self_M := Some T\<rparr>) of
              Inl e \<Rightarrow> Inl e
            | Inr s' \<Rightarrow> Inr (s', files @ [saved]))
      else Inr (s, files))"

text \<open>
  \<open>__init__\<close>: the arguments are the star count, the mode count, the field of view in
  arcsec, the heights in km, the diameter and the three flags. \<open>new_session\<close> is the
  object as it stands when \<open>projectionExists\<close> is called. The new file of a computed
  tensor is put last in the directory listing.
\<close>

definition new_session ::
    "nat \<Rightarrow> nat \<Rightarrow> real \<Rightarrow> vec \<Rightarrow> real \<Rightarrow> bool \<Rightarrow> bool \<Rightarrow> bool \<Rightarrow> tomography" where
  "new_session nStars0 nZernike0 fov0 heights0 DTel0 verbose0 numericalProjection0 addPiston0 =
     (let nH = length heights0;
          fv = fov0 / 206265;
          hs = map (\<lambda>h. h * 1000) heights0;
          DM = map (\<lambda>h. DTel0 + h * fv) hs
      in \<lparr> nHeight = nH, nStars = nStars0, nZernike = nZernike0, fov = fv, heights = hs,
           DTel = DTel0, verbose = verbose0, MComputed = False,
           numericalProjection = numericalProjection0, addPiston = addPiston0,
           noll0 = (if \<not> addPiston0 then 2 else 1),
           DMetapupil = DM,
           self_t = map (\<lambda>i. map (\<lambda>j. np_div (hs ! i * fv) (DM ! i)) [0..<nStars0]) [0..<nH],
           self_beta = map (\<lambda>i. map (\<lambda>j. np_div (DM ! i) DTel0) [0..<nStars0]) [0..<nH],
           self_angle = map (\<lambda>i. map (\<lambda>j. real j * 2 * pi / real nStars0) [0..<nStars0]) [0..<nH],
           self_M = None, MStack = None, covariance = None,
           aStack = Map.empty, self_a = Map.empty, mu = None, MStackStar = None \<rparr>)"

definition init ::
    "projection_module \<Rightarrow> npz list \<Rightarrow> nat \<Rightarrow> nat \<Rightarrow> real \<Rightarrow> vec \<Rightarrow> real \<Rightarrow> bool \<Rightarrow> bool \<Rightarrow> bool
       \<Rightarrow> failure + (tomography \<times> npz list)" where
  "init pm files nStars0 nZernike0 fov0 heights0 DTel0 verbose0 numericalProjection0 addPiston0 =
     (case projectionExists
             (new_session nStars0 nZernike0 fov0 heights0 DTel0 verbose0 numericalProjection0
                addPiston0) files of
        Inl e \<Rightarrow> Inl e
      | Inr (found, s1) \<Rightarrow>
          (case (if \<not> found then computeProjection pm s1 files else Inr (s1, files)) of
             Inl e \<Rightarrow> Inl e
           | Inr (s2, files') \<Rightarrow> Inr (s2\<lparr>aStack := Map.empty, self_a := Map.empty\<rparr>, files')))"

section \<open>Turbulence statistics\<close>

text \<open>
  Three functions come from outside the sources and are parameters of the generators:
  \<open>wf.nollIndices\<close>, which gives the radial degree and the azimuthal frequency of a
  Noll index, \<open>scipy.special.gamma\<close>, and the random draw
  \<open>np.random.multivariate_normal(zeros, cov, size)\<close>, a \<open>size \<times> nZernike\<close> array.
\<close>

type_synonym noll_fn = "nat \<Rightarrow> nat \<times> int"
type_synonym gamma_fn = "real \<Rightarrow> real"
type_synonym normal_fn = "mat \<Rightarrow> nat \<Rightarrow> mat"

text \<open>
  The Gamma function on the reals, by Euler's product
  \<open>\<Gamma>(x) = 1/x \<cdot> \<Prod>n\<ge>1. (1 + 1/n)\<^sup>x / (1 + x/n)\<close> for \<open>x > 0\<close> and by
  \<open>\<Gamma>(x) = \<Gamma>(x + N) / (x (x + 1) \<cdots> (x + N - 1))\<close> below. At zero and the negative
  integers, where \<open>scipy.special.gamma\<close> returns \<open>inf\<close> or \<open>nan\<close>, the value here is
  0; the generators never ask for it there.
\<close>

definition ln_gamma_term :: "real \<Rightarrow> nat \<Rightarrow> real" where
  "ln_gamma_term x n = x * ln (1 + 1 / real (Suc n)) - ln (1 + x / real (Suc n))"

definition ln_gamma :: "real \<Rightarrow> real" where
  "ln_gamma x = - ln x + (\<Sum>n. ln_gamma_term x n)"

definition euler_gamma :: gamma_fn where
  "euler_gamma x =
     (if 0 < x then exp (ln_gamma x)
      else exp (ln_gamma (x + real (nat \<lfloor>- x\<rfloor> + 1))) / (\<Prod>i < nat \<lfloor>- x\<rfloor> + 1. x + real i))"

text \<open>
  Noll's ordering of the Zernike modes, for the places where a concrete index function
  is needed (the module \<open>wavefront\<close> is not among the sources): the degree \<open>n\<close> of index
  \<open>j\<close> is the least with \<open>j \<le> (n + 1)(n + 2)/2\<close>, the frequencies within a degree go
  up in pairs, and an odd index has the negative (sine) frequency.
\<close>

definition noll_degree :: "nat \<Rightarrow> nat" where
  "noll_degree j =
     (case find (\<lambda>n. j \<le> (n + 1) * (n + 2) div 2) [0..<Suc j] of Some n \<Rightarrow> n | None \<Rightarrow> 0)"

definition noll_standard :: noll_fn where
  "noll_standard j =
     (let n = noll_degree j;
          k = j - n * (n + 1) div 2;
          m = (if even n then 2 * (k div 2) else 1 + 2 * ((k - 1) div 2))
      in (n, if odd j then - int m else int m))"

text \<open>
  A draw: sample \<open>i\<close> is \<open>i + 1\<close> times the diagonal of the covariance. Any array of
  shape \<open>size \<times> nZernike\<close> is a possible outcome of the generator.
\<close>

definition diagonal_draw :: normal_fn where
  "diagonal_draw cov count =
     map (\<lambda>i. map (\<lambda>p. real (i + 1) * cov ! p ! p) [0..<length cov]) [0..<count]"

text \<open>A Zernike mode has a radial degree and an azimuthal frequency of the same parity.\<close>

definition noll_parity :: "noll_fn \<Rightarrow> bool" where
  "noll_parity nollIndices = (\<forall>j. even (int (fst (nollIndices j)) - snd (nollIndices j)))"

definition even_mod :: "int \<Rightarrow> bool" where
  "even_mod x = (x mod 2 = 0)"

text \<open>
  The Kolmogorov entry \<open>phase * t1 * t2 / t3\<close>. The division \<open>DTel / r0\<close> is the only
  operation that raises; it is looked at first, the two powers after it. The two powers
  are complex numbers; the cell of \<open>self.covariance\<close> receives the real part of the
  product.
\<close>

definition kolmogorov_value :: "gamma_fn \<Rightarrow> real \<Rightarrow> real \<Rightarrow> nat \<Rightarrow> nat \<Rightarrow> int \<Rightarrow> failure + real" where
  "kolmogorov_value sp_gamma D r0 ni nj mi =
     (case py_div D r0 of
        Inl e \<Rightarrow> Inl e
      | Inr q \<Rightarrow>
     (case float_pow (- 1) (0.5 * (real ni + real nj - 2 * real_of_int mi)) of
        Inl e \<Rightarrow> Inl e
      | Inr phase \<Rightarrow>
     (case float_pow q (5 / 3) of
        Inl e \<Rightarrow> Inl e
      | Inr pw \<Rightarrow>
          (let t1 = of_real (sqrt (real ((ni + 1) * (nj + 1))) * pi powr (8 / 3) * 0.0072) * pw;
               t2 = sp_gamma (14 / 3) * sp_gamma (0.5 * (real ni + real nj - 5 / 3));
               t3 = sp_gamma (0.5 * (real ni - real nj + 17 / 3))
                    * sp_gamma (0.5 * (real nj - real ni + 17 / 3))
                    * sp_gamma (0.5 * (real ni + real nj + 23 / 3))
           in Inr (Re (phase * t1 * of_real t2 / of_real t3))))))"

definition kolmogorov_cell :: "noll_fn \<Rightarrow> gamma_fn \<Rightarrow> tomography \<Rightarrow> real \<Rightarrow> nat \<Rightarrow> nat \<Rightarrow> failure + real" where
  "kolmogorov_cell nollIndices sp_gamma s r0 i j =
     (case nollIndices (i + noll0 s) of (ni, mi) \<Rightarrow>
      case nollIndices (j + noll0 s) of (nj, mj) \<Rightarrow>
        if even_mod (int i - int j) then
          (if mi = mj then kolmogorov_value sp_gamma (DTel s) r0 ni nj mi else Inr 0)
        else Inr 0)"

definition kolmogorov_covariance :: "noll_fn \<Rightarrow> gamma_fn \<Rightarrow> tomography \<Rightarrow> real \<Rightarrow> failure + mat" where
  "kolmogorov_covariance nollIndices sp_gamma s r0 =
     collect (map (\<lambda>i. collect (map (\<lambda>j. kolmogorov_cell nollIndices sp_gamma s r0 i j)
       [0..<nZernike s])) [0..<nZernike s])"

text \<open>
  The von Karman entry adds, for \<open>k\<close> in \<open>range(50)\<close>,
  \<open>phase * t1 * (phase2 * t2 / t3 + phase3 * t4 / t5)\<close> to a cell that starts at zero. The
  cell keeps the real part of every sum, so each term counts with its real part.
\<close>

definition von_karman_term ::
    "gamma_fn \<Rightarrow> real \<Rightarrow> real \<Rightarrow> nat \<Rightarrow> nat \<Rightarrow> complex \<Rightarrow> complex \<Rightarrow> nat \<Rightarrow> failure + real" where
  "von_karman_term sp_gamma D L0 ni nj phase t1 k =
     (case py_div (pi * D) L0 of
        Inl e \<Rightarrow> Inl e
      | Inr x \<Rightarrow>
     (case float_pow (- 1) (real k) of
        Inl e \<Rightarrow> Inl e
      | Inr sign_k \<Rightarrow>
     (case float_pow x (2 * real k + real ni + real nj - 5 / 3) of
        Inl e \<Rightarrow> Inl e
      | Inr pw2 \<Rightarrow>
     (case float_pow x (2 * real k) of
        Inl e \<Rightarrow> Inl e
      | Inr phase3 \<Rightarrow>
          (let phase2 = sign_k / of_real (real (fact k)) * pw2;
               t2 = sp_gamma (real k + 0.5 * (3 + real ni + real nj))
                    * sp_gamma (real k + 2 + 0.5 * (real ni + real nj))
                    * sp_gamma (real k + 1 + 0.2 * (real ni + real nj))
                    * sp_gamma (5 / 6 - real k - 0.5 * (real ni + real nj));
               t3 = sp_gamma (3 + real k + real ni + real nj)
                    * sp_gamma (2 + real k + real ni)
                    * sp_gamma (2 + real k + real nj);
               t4 = sp_gamma (0.5 * (real ni + real nj) - 5 / 6 - real k)
                    * sp_gamma (real k + 7 / 3)
                    * sp_gamma (real k + 17 / 6)
                    * sp_gamma (real k + 11 / 6);
               t5 = sp_gamma (0.5 * (real ni + real nj) + 23 / 6 + real k)
                    * sp_gamma (0.5 * (real ni - real nj) + 17 / 6 + real k)
                    * sp_gamma (0.5 * (real ni - real nj) + 17 / 6 + real k)
           in Inr (Re (phase * t1 * (phase2 * of_real t2 / of_real t3
                                       + phase3 * of_real t4 / of_real t5))))))))"

definition von_karman_value ::
    "gamma_fn \<Rightarrow> real \<Rightarrow> real \<Rightarrow> real \<Rightarrow> nat \<Rightarrow> nat \<Rightarrow> int \<Rightarrow> failure + real" where
  "von_karman_value sp_gamma D r0 L0 ni nj mi =
     (case py_div D r0 of
        Inl e \<Rightarrow> Inl e
      | Inr q \<Rightarrow>
     (case float_pow (- 1) (0.5 * (real ni + real nj - 2 * real_of_int mi)) of
        Inl e \<Rightarrow> Inl e
      | Inr phase \<Rightarrow>
     (case float_pow q (5 / 3) of
        Inl e \<Rightarrow> Inl e
      | Inr pw \<Rightarrow>
          (let t1 = of_real (sqrt (real ((ni + 1) * (nj + 1))) * pi powr (8 / 3) * 1.16) * pw
           in case collect (map (von_karman_term sp_gamma D L0 ni nj phase t1) [0..<50]) of
                Inl e \<Rightarrow> Inl e
              | Inr terms \<Rightarrow> Inr (foldl (+) 0 terms)))))"

definition von_karman_cell ::
    "noll_fn \<Rightarrow> gamma_fn \<Rightarrow> tomography \<Rightarrow> real \<Rightarrow> real \<Rightarrow> nat \<Rightarrow> nat \<Rightarrow> failure + real" where
  "von_karman_cell nollIndices sp_gamma s r0 L0 i j =
     (case nollIndices (i + noll0 s) of (ni, mi) \<Rightarrow>
      case nollIndices (j + noll0 s) of (nj, mj) \<Rightarrow>
        if even_mod (int i - int j) then
          (if mi = mj then von_karman_value sp_gamma (DTel s) r0 L0 ni nj mi else Inr 0)
        else Inr 0)"

definition von_karman_covariance ::
    "noll_fn \<Rightarrow> gamma_fn \<Rightarrow> tomography \<Rightarrow> real \<Rightarrow> real \<Rightarrow> failure + mat" where
  "von_karman_covariance nollIndices sp_gamma s r0 L0 =
     collect (map (\<lambda>i. collect (map (\<lambda>j. von_karman_cell nollIndices sp_gamma s r0 L0 i j)
       [0..<nZernike s])) [0..<nZernike s])"

text \<open>
  For the modes of degrees 1 and 3 with equal frequency, the terms of the entries
  \<open>[i, j]\<close> and \<open>[j, i]\<close> differ only in \<open>t5\<close>, which is
  \<open>\<Gamma>(35/6 + k) \<Gamma>(11/6 + k)\<^sup>2\<close> in one order and \<open>\<Gamma>(35/6 + k) \<Gamma>(23/6 + k)\<^sup>2\<close> in the
  other. \<open>von_karman_gap\<close> is \<open>phase3 * t4 * (1/t5 - 1/t5')\<close> with \<open>y = (\<pi> D / L0)\<^sup>2\<close>, and
  \<open>von_karman_ratio\<close> the factor, up to sign, from one gap to the next.
\<close>

definition von_karman_gap :: "gamma_fn \<Rightarrow> real \<Rightarrow> nat \<Rightarrow> real" where
  "von_karman_gap G y k =
     y ^ k * (G (7 / 6 - real k) * G (real k + 7 / 3) * G (real k + 17 / 6) * G (real k + 11 / 6))
       * (1 / (G (35 / 6 + real k) * G (11 / 6 + real k) * G (11 / 6 + real k))
          - 1 / (G (35 / 6 + real k) * G (23 / 6 + real k) * G (23 / 6 + real k)))"

definition von_karman_ratio :: "real \<Rightarrow> nat \<Rightarrow> real" where
  "von_karman_ratio y k =
     y * (real k + 7 / 3) * (real k + 17 / 6)
       * (1 - 1 / (((23 / 6 + real k) * (17 / 6 + real k)) * ((23 / 6 + real k) * (17 / 6 + real k))))
     / ((real k - 1 / 6) * (real k + 35 / 6) * (real k + 11 / 6)
        * (1 - 1 / (((17 / 6 + real k) * (11 / 6 + real k)) * ((17 / 6 + real k) * (11 / 6 + real k)))))"

text \<open>
  The realization: the draw transposed to \<open>nZernike \<times> nHeight\<close>; with a keep-list,
  column \<open>i\<close> is set to zero when \<open>heights[i] / 1e3\<close> is not in the list; \<open>aStack\<close> holds
  the transpose flattened.
\<close>

definition zero_layer :: "tomography \<Rightarrow> vec \<Rightarrow> mat \<Rightarrow> nat \<Rightarrow> mat" where
  "zero_layer s keepOnly A i =
     (if heights s ! i / 1000 \<notin> set keepOnly then map (\<lambda>row. row[i := 0]) A else A)"

definition keep_layers :: "tomography \<Rightarrow> vec \<Rightarrow> mat \<Rightarrow> mat" where
  "keep_layers s keepOnly A = foldl (zero_layer s keepOnly) A [0..<nHeight s]"

definition store_original :: "tomography \<Rightarrow> mat \<Rightarrow> mat \<Rightarrow> tomography" where
  "store_original s cov orig =
     s\<lparr>covariance := Some cov,
       self_a := (self_a s)(''Original'' \<mapsto> orig),
       aStack := (aStack s)(''Original'' \<mapsto> flatten (transpose_mat (nHeight s) orig))\<rparr>"

definition generateTurbulentZernikesKolmogorov ::
    "noll_fn \<Rightarrow> gamma_fn \<Rightarrow> normal_fn \<Rightarrow> tomography \<Rightarrow> real \<Rightarrow> vec option \<Rightarrow> failure + tomography" where
  "generateTurbulentZernikesKolmogorov nollIndices sp_gamma multivariate_normal s r0 keepOnly =
     (case kolmogorov_covariance nollIndices sp_gamma s r0 of
        Inl e \<Rightarrow> Inl e
      | Inr cov \<Rightarrow>
          (let drawn = transpose_mat (nZernike s) (multivariate_normal cov (nHeight s));
               orig = (case keepOnly of None \<Rightarrow> drawn | Some ks \<Rightarrow> keep_layers s ks drawn)
           in Inr (store_original s cov orig)))"

definition generateTurbulentZernikesVonKarman ::
    "noll_fn \<Rightarrow> gamma_fn \<Rightarrow> normal_fn \<Rightarrow> tomography \<Rightarrow> real \<Rightarrow> real \<Rightarrow> failure + tomography" where
  "generateTurbulentZernikesVonKarman nollIndices sp_gamma multivariate_normal s r0 L0 =
     (case von_karman_covariance nollIndices sp_gamma s r0 L0 of
        Inl e \<Rightarrow> Inl e
      | Inr cov \<Rightarrow>
          Inr (store_original s cov
                 (transpose_mat (nZernike s) (multivariate_normal cov (nHeight s)))))"

section \<open>The forward model and the two solvers\<close>

definition generateWFS :: "tomography \<Rightarrow> failure + vec" where
  "generateWFS s =
     (case MStack s of
        None \<Rightarrow> Inl AttributeError
      | Some A \<Rightarrow>
          (case aStack s ''Original'' of
             None \<Rightarrow> Inl KeyError
           | Some x \<Rightarrow>
               if list_all (\<lambda>row. length row = length x) A then Inr (matvec A x)
               else Inl ValueError))"

text \<open>
  \<open>solveSVD\<close>. \<open>np.linalg.inv\<close> is a parameter: \<open>None\<close> is its \<open>LinAlgError\<close>. The
  product \<open>AInv @ MStack.T @ b\<close> associates to the left.
\<close>

definition normal_inverse :: "(mat \<Rightarrow> mat option) \<Rightarrow> tomography \<Rightarrow> bool \<Rightarrow> failure + mat" where
  "normal_inverse linalg_inv s regularize =
     (let n = nZernike s * nHeight s in
      if regularize then
        (case covariance s of
           None \<Rightarrow> Inl AttributeError
         | Some cv \<Rightarrow>
             (case linalg_inv cv of
                None \<Rightarrow> Inl LinAlgError
              | Some invCov \<Rightarrow>
                  (let cov = block_diag (nZernike s) (replicate (nHeight s) invCov) in
                   case MStack s of
                     None \<Rightarrow> Inl AttributeError
                   | Some A \<Rightarrow>
                       (case linalg_inv (mat_add (matmul n (transpose_mat n A) A)
                                                 (matmul n (transpose_mat n cov) cov)) of
                          None \<Rightarrow> Inl LinAlgError
                        | Some AInv \<Rightarrow> Inr AInv))))
      else
        (case MStack s of
           None \<Rightarrow> Inl AttributeError
         | Some A \<Rightarrow>
             (case linalg_inv (matmul n (transpose_mat n A) A) of
                None \<Rightarrow> Inl LinAlgError
              | Some AInv \<Rightarrow> Inr AInv)))"

text \<open>What \<open>np.linalg.inv\<close> returns for an invertible \<open>n \<times> n\<close> matrix, in exact arithmetic.\<close>

definition inverse_of :: "nat \<Rightarrow> mat \<Rightarrow> mat \<Rightarrow> bool" where
  "inverse_of n B N = (has_shape B n n \<and> matmul n B N = identity n \<and> matmul n N B = identity n)"

definition store_estimate :: "tomography \<Rightarrow> string \<Rightarrow> vec \<Rightarrow> tomography" where
  "store_estimate s key x =
     s\<lparr>aStack := (aStack s)(key \<mapsto> x),
       self_a := (self_a s)(key \<mapsto>
         transpose_mat (nZernike s) (reshape (nHeight s) (nZernike s) x))\<rparr>"

definition solveSVD :: "(mat \<Rightarrow> mat option) \<Rightarrow> tomography \<Rightarrow> vec \<Rightarrow> bool \<Rightarrow> failure + tomography" where
  "solveSVD linalg_inv s b regularize =
     (case normal_inverse linalg_inv s regularize of
        Inl e \<Rightarrow> Inl e
      | Inr AInv \<Rightarrow>
          (case MStack s of
             None \<Rightarrow> Inl AttributeError
           | Some A \<Rightarrow>
               (let m = nZernike s * nStars s;
                    n = nZernike s * nHeight s
                in if length b \<noteq> m then Inl ValueError
                   else
                     (let x = matvec (matmul m AInv (transpose_mat n A)) b
                      in if length x \<noteq> nHeight s * nZernike s then Inl ValueError
                         else Inr (store_estimate s ''SVD'' x)))))"

text \<open>
  \<open>solveFASTA\<close>. The arguments of \<open>ps.sparse.fasta\<close> are a record; the solver itself
  (\<open>fasta(...).optimize()\<close>), the matrix 2-norm \<open>np.linalg.norm(MStack, 2)\<close> and
  \<open>ps.sparse.proxes.prox_l1\<close> are parameters. \<open>L\<close> is a numpy float, so \<open>1.32 / L\<close>
  does not raise.
\<close>

record fasta_call =
  fasta_A :: "vec \<Rightarrow> vec"
  fasta_At :: "vec \<Rightarrow> vec"
  fasta_f :: "vec \<Rightarrow> real"
  fasta_gradf :: "vec \<Rightarrow> vec"
  fasta_g :: "vec \<Rightarrow> real"
  fasta_proxg :: "vec \<Rightarrow> real \<Rightarrow> vec"
  fasta_x0 :: vec
  tau :: "real option"
  fasta_verbose :: bool
  tol :: real
  maxIter :: nat
  accelerate :: bool
  backtrack :: bool
  adaptive :: bool

definition norm_l2 :: "vec \<Rightarrow> real" where
  "norm_l2 v = sqrt (sum_list (map (\<lambda>z. z * z) v))"

definition norm_l1 :: "vec \<Rightarrow> real" where
  "norm_l1 v = sum_list (map abs v)"

definition fasta_arguments ::
    "(vec \<Rightarrow> real \<Rightarrow> vec) \<Rightarrow> mat \<Rightarrow> mat \<Rightarrow> vec \<Rightarrow> real \<Rightarrow> real \<Rightarrow> vec \<Rightarrow> fasta_call" where
  "fasta_arguments prox_l1 A At b L mu0 values =
     \<lparr> fasta_A = matvec A,
       fasta_At = matvec At,
       fasta_f = (\<lambda>x. 0.5 * (norm_l2 (map2 (-) x b))\<^sup>2),
       fasta_gradf = (\<lambda>x. map2 (-) x b),
       fasta_g = (\<lambda>x. mu0 * norm_l1 x),
       fasta_proxg = (\<lambda>x t. prox_l1 x (t * mu0)),
       fasta_x0 = values,
       tau = np_div 1.32 L,
       fasta_verbose = True,
       tol = 1 / 10 ^ 12,
       maxIter = 60000,
       accelerate = True,
       backtrack = False,
       adaptive = False \<rparr>"

definition fasta_sweep ::
    "(vec \<Rightarrow> real \<Rightarrow> vec) \<Rightarrow> (fasta_call \<Rightarrow> vec) \<Rightarrow> mat \<Rightarrow> mat \<Rightarrow> vec \<Rightarrow> real
       \<Rightarrow> tomography \<times> vec \<Rightarrow> real \<Rightarrow> tomography \<times> vec" where
  "fasta_sweep prox_l1 fasta A At b L sv mu0 =
     (fst sv\<lparr>mu := Some mu0\<rparr>, fasta (fasta_arguments prox_l1 A At b L mu0 (snd sv)))"

definition solveFASTA ::
    "(mat \<Rightarrow> real) \<Rightarrow> (vec \<Rightarrow> real \<Rightarrow> vec) \<Rightarrow> (fasta_call \<Rightarrow> vec) \<Rightarrow> tomography \<Rightarrow> vec
       \<Rightarrow> failure + tomography" where
  "solveFASTA norm_2 prox_l1 fasta s b =
     (case MStack s of
        None \<Rightarrow> Inl AttributeError
      | Some A \<Rightarrow>
          (let L = (norm_2 A)\<^sup>2;
               At = transpose_mat (nZernike s * nHeight s) A;
               s1 = s\<lparr>MStackStar := Some At\<rparr>;
               mus = [1 / 10 ^ 5]
           in case aStack s1 ''Original'' of
                None \<Rightarrow> Inl KeyError
              | Some orig \<Rightarrow>
                  (let sv = foldl (fasta_sweep prox_l1 fasta A At b L)
                              (s1, replicate (length orig) 0) mus
                   in if length (snd sv) \<noteq> nHeight s * nZernike s then Inl ValueError
                      else Inr (store_estimate (fst sv) ''L1'' (snd sv)))))"

text \<open>
  Instances of the three parameters of \<open>solveFASTA\<close>, for the places where concrete
  functions are needed (numpy and pyiacsun are not among the sources).
  \<open>np.linalg.norm(A, 2)\<close> is the largest singular value of \<open>A\<close>, the supremum of
  \<open>\<parallel>A x\<parallel>\<close> over the unit vectors.
\<close>

definition spectral_norm :: "mat \<Rightarrow> real" where
  "spectral_norm A =
     (case A of
        [] \<Rightarrow> 0
      | row # _ \<Rightarrow> Sup ((\<lambda>x. norm_l2 (matvec A x)) ` {x. length x = length row \<and> norm_l2 x = 1}))"

text \<open>
  Modelled from the spec: the proximal operator of the L1 norm is the element-wise soft
  threshold \<open>sign(v_i) * max(|v_i| - theta, 0)\<close> (\<open>ps.sparse.proxes.prox_l1\<close> is missing).
\<close>

definition soft_threshold :: "vec \<Rightarrow> real \<Rightarrow> vec" where
  "soft_threshold v theta = map (\<lambda>z. sgn z * max (\<bar>z\<bar> - theta) 0) v"

text \<open>
  Modelled from the spec: forward-backward splitting, a gradient step
  \<open>x - tau * At(gradf(A x))\<close> followed by the proximal step, here without the optional
  acceleration and for \<open>maxIter\<close> iterations (\<open>ps.sparse.fasta\<close> is missing). A step size
  that is not finite leaves the iterate where it is.
\<close>

fun forward_backward :: "nat \<Rightarrow> fasta_call \<Rightarrow> vec \<Rightarrow> vec" where
  "forward_backward 0 c x = x"
| "forward_backward (Suc n) c x =
     (case tau c of
        None \<Rightarrow> x
      | Some step \<Rightarrow>
          forward_backward n c
            (fasta_proxg c
               (map2 (-) x (map ((*) step) (fasta_At c (fasta_gradf c (fasta_A c x))))) step))"

definition proximal_gradient :: "fasta_call \<Rightarrow> vec" where
  "proximal_gradient c = forward_backward (maxIter c) c (fasta_x0 c)"

section \<open>The forward model and the least-squares solve in binary64\<close>

text \<open>
  numpy computes with IEEE 754 binary64 numbers: every sum and every product is the
  exact result rounded to the nearest number with a significand of 53 bits, a tie going
  to the even significand. \<open>binary64 x\<close> is that rounding of the real \<open>x\<close>. The unit in
  the last place of \<open>x\<close> is \<open>2\<^sup>e\<close> with \<open>e = \<lfloor>log\<^sub>2 |x|\<rfloor> - 52\<close>, and not below \<open>-1074\<close>
  (the subnormal numbers). The result is \<open>None\<close> when the rounded number is \<open>2\<^sup>1\<^sup>0\<^sup>2\<^sup>4\<close> or
  more in size, where binary64 has \<open>inf\<close>.
\<close>

definition pow2 :: "int \<Rightarrow> real" where
  "pow2 e = (if 0 \<le> e then 2 ^ nat e else 1 / 2 ^ nat (- e))"

definition round_half_even :: "real \<Rightarrow> int" where
  "round_half_even r =
     (let n = \<lfloor>r\<rfloor>; d = r - of_int n
      in if d < 1 / 2 then n else if 1 / 2 < d then n + 1 else if even n then n else n + 1)"

definition binary64 :: "real \<Rightarrow> real option" where
  "binary64 x =
     (if x = 0 then Some 0
      else (let e = max (\<lfloor>log 2 \<bar>x\<bar>\<rfloor> - 52) (- 1074);
                m = round_half_even (x / pow2 e)
            in if 971 < e \<or> (e = 971 \<and> 2 ^ 53 \<le> \<bar>m\<bar>) then None
               else Some (of_int m * pow2 e)))"

text \<open>
  The products \<open>@\<close> and the sum \<open>+\<close> of arrays of binary64 numbers. An entry of a
  product is a sum of rounded products. The order of the additions is the linear-algebra
  library's; here they are taken from the first index on. \<open>None\<close> is an array with an
  entry that is not finite, which the model does not follow further (\<open>inf\<close> and \<open>nan\<close>
  stay what they are under sums and products).
\<close>

definition dot_step :: "real option \<Rightarrow> real \<times> real \<Rightarrow> real option" where
  "dot_step acc ab =
     (case acc of
        None \<Rightarrow> None
      | Some t \<Rightarrow> (case binary64 (fst ab * snd ab) of None \<Rightarrow> None | Some p \<Rightarrow> binary64 (t + p)))"

definition dot_binary64 :: "vec \<Rightarrow> vec \<Rightarrow> real option" where
  "dot_binary64 u v = foldl dot_step (Some 0) (zip u v)"

definition matvec_binary64 :: "mat \<Rightarrow> vec \<Rightarrow> vec option" where
  "matvec_binary64 A v = those (map (\<lambda>row. dot_binary64 row v) A)"

definition matmul_binary64 :: "nat \<Rightarrow> mat \<Rightarrow> mat \<Rightarrow> mat option" where
  "matmul_binary64 p A B =
     those (map (\<lambda>row. those (map (\<lambda>j. dot_binary64 row (col B j)) [0..<p])) A)"

definition mat_add_binary64 :: "mat \<Rightarrow> mat \<Rightarrow> mat option" where
  "mat_add_binary64 A B =
     those (map2 (\<lambda>r1 r2. those (map2 (\<lambda>a b. binary64 (a + b)) r1 r2)) A B)"

text \<open>
  \<open>generateWFS\<close> and \<open>solveSVD\<close> with these operations. \<open>np.linalg.inv\<close> is a parameter
  as before, now a function on binary64 matrices. \<open>Inr None\<close> is a run in which a number
  that is not finite arises.
\<close>

definition generateWFS_binary64 :: "tomography \<Rightarrow> failure + vec option" where
  "generateWFS_binary64 s =
     (case MStack s of
        None \<Rightarrow> Inl AttributeError
      | Some A \<Rightarrow>
          (case aStack s ''Original'' of
             None \<Rightarrow> Inl KeyError
           | Some x \<Rightarrow>
               if list_all (\<lambda>row. length row = length x) A then Inr (matvec_binary64 A x)
               else Inl ValueError))"

definition normal_inverse_binary64 ::
    "(mat \<Rightarrow> mat option) \<Rightarrow> tomography \<Rightarrow> bool \<Rightarrow> failure + mat option" where
  "normal_inverse_binary64 linalg_inv s regularize =
     (let n = nZernike s * nHeight s in
      if regularize then
        (case covariance s of
           None \<Rightarrow> Inl AttributeError
         | Some cv \<Rightarrow>
             (case linalg_inv cv of
                None \<Rightarrow> Inl LinAlgError
              | Some invCov \<Rightarrow>
                  (let cov = block_diag (nZernike s) (replicate (nHeight s) invCov) in
                   case MStack s of
                     None \<Rightarrow> Inl AttributeError
                   | Some A \<Rightarrow>
                       (case matmul_binary64 n (transpose_mat n A) A of
                          None \<Rightarrow> Inr None
                        | Some MtM \<Rightarrow>
                            (case matmul_binary64 n (transpose_mat n cov) cov of
                               None \<Rightarrow> Inr None
                             | Some CtC \<Rightarrow>
                                 (case mat_add_binary64 MtM CtC of
                                    None \<Rightarrow> Inr None
                                  | Some N \<Rightarrow>
                                      (case linalg_inv N of
                                         None \<Rightarrow> Inl LinAlgError
                                       | Some AInv \<Rightarrow> Inr (Some AInv))))))))
      else
        (case MStack s of
           None \<Rightarrow> Inl AttributeError
         | Some A \<Rightarrow>
             (case matmul_binary64 n (transpose_mat n A) A of
                None \<Rightarrow> Inr None
              | Some MtM \<Rightarrow>
                  (case linalg_inv MtM of
                     None \<Rightarrow> Inl LinAlgError
                   | Some AInv \<Rightarrow> Inr (Some AInv)))))"

definition solveSVD_binary64 ::
    "(mat \<Rightarrow> mat option) \<Rightarrow> tomography \<Rightarrow> vec \<Rightarrow> bool \<Rightarrow> failure + tomography option" where
  "solveSVD_binary64 linalg_inv s b regularize =
     (case normal_inverse_binary64 linalg_inv s regularize of
        Inl e \<Rightarrow> Inl e
      | Inr None \<Rightarrow> Inr None
      | Inr (Some AInv) \<Rightarrow>
          (case MStack s of
             None \<Rightarrow> Inl AttributeError
           | Some A \<Rightarrow>
               (let m = nZernike s * nStars s;
                    n = nZernike s * nHeight s
                in if length b \<noteq> m then Inl ValueError
                   else
                     (case matmul_binary64 m AInv (transpose_mat n A) of
                        None \<Rightarrow> Inr None
                      | Some P \<Rightarrow>
                          (case matvec_binary64 P b of
                             None \<Rightarrow> Inr None
                           | Some x \<Rightarrow>
                               if length x \<noteq> nHeight s * nZernike s then Inl ValueError
                               else Inr (Some (store_estimate s ''SVD'' x)))))))"

section \<open>A small session\<close>

text \<open>
  One mode, two heights (0 and 4 km), two stars, a field of view of 60 arcsec and a
  telescope of 4 m: the tensor has shape \<open>(1, 1, 2, 2)\<close> and the stacked matrix is
  \<open>2 \<times> 2\<close>. The theorems below are instantiated on it.
\<close>

definition demo_M :: tensor4 where
  "demo_M = [[[[2, 0], [0, 1]]]]"

definition demo_session :: tomography where
  "demo_session =
     \<lparr> nHeight = 2, nStars = 2, nZernike = 1, fov = 60 / 206265, heights = [0, 4000],
       DTel = 4, verbose = True, MComputed = True, numericalProjection = True,
       addPiston = False, noll0 = 2,
       DMetapupil = [4, 4 + 4000 * (60 / 206265)],
       self_t = [[Some 0, Some 0],
                 [Some (4000 * (60 / 206265) / (4 + 4000 * (60 / 206265))),
                  Some (4000 * (60 / 206265) / (4 + 4000 * (60 / 206265)))]],
       self_beta = [[Some 1, Some 1],
                    [Some ((4 + 4000 * (60 / 206265)) / 4), Some ((4 + 4000 * (60 / 206265)) / 4)]],
       self_angle = [[0, pi], [0, pi]],
       self_M = Some demo_M, MStack = Some [[2, 0], [0, 1]], covariance = Some [[2]],
       aStack = [''Original'' \<mapsto> [3, 5]], self_a = [''Original'' \<mapsto> [[3, 5]]],
       mu = None, MStackStar = None \<rparr>"

text \<open>The inverse of a matrix of size 1 or 2, an instance of \<open>np.linalg.inv\<close>.\<close>

fun inv_small :: "mat \<Rightarrow> mat option" where
  "inv_small [[a]] = (if a = 0 then None else Some [[1 / a]])"
| "inv_small [[a, b], [c, d]] =
     (if a * d - b * c = 0 then None
      else Some [[d / (a * d - b * c), - b / (a * d - b * c)],
                 [- c / (a * d - b * c), a / (a * d - b * c)]])"
| "inv_small _ = None"

text \<open>
  The two solvers on the small session with the measurement \<open>[6, 5]\<close>: what they
  store.
\<close>

definition demo_svd_result :: tomography where
  "demo_svd_result = store_estimate demo_session ''SVD'' [3, 5]"

definition demo_l1 :: vec where
  "demo_l1 = proximal_gradient
     (fasta_arguments soft_threshold [[2, 0], [0, 1]] [[2, 0], [0, 1]] [6, 5]
        ((spectral_norm [[2, 0], [0, 1]])\<^sup>2) (1 / 10 ^ 5) [0, 0])"

definition demo_l1_result :: tomography where
  "demo_l1_result =
     store_estimate (demo_session\<lparr>MStackStar := Some [[2, 0], [0, 1]], mu := Some (1 / 10 ^ 5)\<rparr>)
       ''L1'' demo_l1"

text \<open>
  A stored file that covers the small session as a superset: two modes, the heights 0,
  2 and 4 km, two stars, the same field of view and diameter. Its slice
  \<open>arr_0[0:1, 0:1, [0, 2], :]\<close> is the tensor of the small session. The projection module
  next to it returns identity matrices.
\<close>

definition demo_npz :: npz where
  "demo_npz =
     \<lparr> arr_0 = [[[[2, 0], [7, 7], [0, 1]], [[3, 3], [3, 3], [3, 3]]],
                [[[4, 4], [4, 4], [4, 4]], [[5, 5], [5, 5], [5, 5]]]],
       arr_1 = [0, 2000, 4000], arr_2 = 2, arr_3 = 2, arr_4 = 60 / 206265, arr_5 = 4 \<rparr>"

definition identity_projection :: projection_module where
  "identity_projection =
     \<lparr> zernikeProjectionMatrixNumerical = (\<lambda>n b t angle. identity n),
       zernikeProjectionMatrix = (\<lambda>n b t angle. identity n) \<rparr>"

text \<open>What a call of \<open>__init__\<close> leaves in \<open>M\<close>, \<open>MStack\<close> and \<open>MComputed\<close>, and the files after it.\<close>

definition assembled :: "failure + (tomography \<times> npz list)
    \<Rightarrow> failure + (tensor4 option \<times> mat option \<times> bool \<times> npz list)" where
  "assembled r = (case r of Inl e \<Rightarrow> Inl e
                  | Inr (s, files) \<Rightarrow> Inr (self_M s, MStack s, MComputed s, files))"


text \<open>
  The small session with a stacked matrix of entries \<open>2\<^sup>2\<^sup>7\<close>, \<open>2\<^sup>2\<^sup>7\<close>, \<open>0\<close> and \<open>3\<close> and the
  realization \<open>[1, 1]\<close>. The normal matrix of this stacked matrix has the entry
  \<open>2\<^sup>5\<^sup>4 + 9\<close>, which is not a binary64 number, and the determinant \<open>9 \<cdot> 2\<^sup>5\<^sup>4\<close>.
\<close>

definition steep_session :: tomography where
  "steep_session =
     demo_session
       \<lparr> self_M := Some [[[[134217728, 0], [134217728, 3]]]],
         MStack := Some [[134217728, 134217728], [0, 3]],
         aStack := [''Original'' \<mapsto> [1, 1]],
         self_a := [''Original'' \<mapsto> [[1, 1]]] \<rparr>"
section \<open>Lemmas on blocks and stacking\<close>

lemma length_set_block [simp]: "length (set_block A up left B) = length A"
  by (simp add: set_block_def)

lemma nth_set_block:
  "r < length A \<Longrightarrow> set_block A up left B ! r =
     (if up \<le> r \<and> r < up + length B
      then take left (A ! r) @ B ! (r - up) @ drop (left + length (B ! (r - up))) (A ! r)
      else A ! r)"
  by (simp add: set_block_def)

lemma has_shape_nth: "has_shape A r c \<Longrightarrow> i < r \<Longrightarrow> length (A ! i) = c"
  by (auto simp: has_shape_def list_all_length)

lemma has_shapeI: "length A = r \<Longrightarrow> (\<And>i. i < r \<Longrightarrow> length (A ! i) = c) \<Longrightarrow> has_shape A r c"
  by (auto simp: has_shape_def list_all_length)

lemma has_shape_zeros: "has_shape (zeros r c) r c"
  by (simp add: has_shape_def zeros_def list_all_length)

lemma has_shape_set_block:
  assumes A: "has_shape A r c" and B: "has_shape B n n"
    and up: "up + n \<le> r" and left: "left + n \<le> c"
  shows "has_shape (set_block A up left B) r c"
proof (rule has_shapeI)
  show "length (set_block A up left B) = r" using A by (simp add: has_shape_def)
next
  fix i assume i: "i < r"
  then have iA: "i < length A" using A by (simp add: has_shape_def)
  show "length (set_block A up left B ! i) = c"
  proof (cases "up \<le> i \<and> i < up + length B")
    case True
    then have "i - up < n" using B by (auto simp: has_shape_def)
    then have "length (B ! (i - up)) = n" using B has_shape_nth by blast
    moreover have "length (A ! i) = c" using A i has_shape_nth by blast
    ultimately show ?thesis using True iA left by (simp add: nth_set_block)
  next
    case False
    then show ?thesis using iA by (auto simp: nth_set_block has_shape_nth[OF A i])
  qed
qed

lemma entry_set_block:
  assumes A: "has_shape A r c" and B: "has_shape B n n"
    and up: "up + n \<le> r" and left: "left + n \<le> c"
    and i: "i < r" and j: "j < c"
  shows "set_block A up left B ! i ! j =
     (if up \<le> i \<and> i < up + n \<and> left \<le> j \<and> j < left + n
      then B ! (i - up) ! (j - left) else A ! i ! j)"
proof -
  have iA: "i < length A" and lB: "length B = n" using A B i by (simp_all add: has_shape_def)
  have lA: "length (A ! i) = c" using A i has_shape_nth by blast
  show ?thesis
  proof (cases "up \<le> i \<and> i < up + n")
    case True
    then have "i - up < n" by auto
    then have lb: "length (B ! (i - up)) = n" using B has_shape_nth by blast
    show ?thesis using True iA lB lA lb j left
      by (auto simp: nth_set_block nth_append)
  next
    case False
    then show ?thesis using iA lB by (auto simp: nth_set_block)
  qed
qed

lemma has_shape_tensor_block:
  "has_shape4 T a b c d \<Longrightarrow> has_shape (tensor_block T i j) a b"
  by (auto simp: has_shape4_def has_shape_def tensor_block_def list_all_length)

lemma entry_tensor_block:
  "has_shape4 T a b c d \<Longrightarrow> p < a \<Longrightarrow> q < b \<Longrightarrow> tensor_block T i j ! p ! q = T ! p ! q ! i ! j"
  by (auto simp: has_shape4_def tensor_block_def list_all_length)

lemma in_block_iff:
  fixes n :: nat
  assumes "0 < n"
  shows "(j * n \<le> r \<and> r < j * n + n) \<longleftrightarrow> r div n = j"
proof
  assume h: "j * n \<le> r \<and> r < j * n + n"
  have "r = j * n + (r - j * n)" using h by simp
  moreover have "r - j * n < n" using h by linarith
  ultimately show "r div n = j"
    by (metis add.commute add.right_neutral div_less div_mult_self3 less_nat_zero_code)
next
  assume "r div n = j"
  then show "j * n \<le> r \<and> r < j * n + n"
    using assms by (metis add.commute div_times_less_eq_dividend dividend_less_div_times mult.commute)
qed

lemma block_fits:
  fixes n :: nat
  assumes "j < m"
  shows "j * n + n \<le> n * m"
proof -
  have "(j + 1) * n \<le> m * n" using assms by (intro mult_le_mono1) simp
  then show ?thesis by (simp add: mult.commute)
qed

lemma stack_star_shape:
  assumes T: "has_shape4 T nZ nZ nH nS" and A: "has_shape A (nZ * nS) (nZ * nH)"
    and i: "i < nH" and j: "j < nS"
  shows "has_shape (stack_star nZ T i A j) (nZ * nS) (nZ * nH)"
  unfolding stack_star_def
  using A has_shape_tensor_block[OF T] block_fits[OF j] block_fits[OF i]
  by (rule has_shape_set_block)

lemma stack_star_entry:
  assumes T: "has_shape4 T nZ nZ nH nS" and A: "has_shape A (nZ * nS) (nZ * nH)"
    and i: "i < nH" and j: "j < nS" and r: "r < nZ * nS" and c: "c < nZ * nH"
  shows "stack_star nZ T i A j ! r ! c =
      (if c div nZ = i \<and> r div nZ = j then T ! (r mod nZ) ! (c mod nZ) ! i ! j else A ! r ! c)"
proof -
  have nz: "0 < nZ" using r by (cases nZ) auto
  have e: "stack_star nZ T i A j ! r ! c =
     (if j * nZ \<le> r \<and> r < j * nZ + nZ \<and> i * nZ \<le> c \<and> c < i * nZ + nZ
      then tensor_block T i j ! (r - j * nZ) ! (c - i * nZ) else A ! r ! c)"
    unfolding stack_star_def
    using A has_shape_tensor_block[OF T] block_fits[OF j] block_fits[OF i] r c
    by (rule entry_set_block)
  show ?thesis
  proof (cases "c div nZ = i \<and> r div nZ = j")
    case True
    then have rb: "j * nZ \<le> r \<and> r < j * nZ + nZ" and cb: "i * nZ \<le> c \<and> c < i * nZ + nZ"
      using in_block_iff[OF nz] by blast+
    have rm: "r - j * nZ = r mod nZ" using True by (metis minus_div_mult_eq_mod)
    have cm: "c - i * nZ = c mod nZ" using True by (metis minus_div_mult_eq_mod)
    have "tensor_block T i j ! (r mod nZ) ! (c mod nZ) = T ! (r mod nZ) ! (c mod nZ) ! i ! j"
      using T nz by (intro entry_tensor_block) auto
    then show ?thesis using e rb cb True rm cm by simp
  next
    case False
    then have "\<not> (j * nZ \<le> r \<and> r < j * nZ + nZ \<and> i * nZ \<le> c \<and> c < i * nZ + nZ)"
      using in_block_iff[OF nz] by blast
    with e have "stack_star nZ T i A j ! r ! c = A ! r ! c" by simp
    then show ?thesis using False by auto
  qed
qed

lemma stack_height_inv:
  assumes T: "has_shape4 T nZ nZ nH nS" and A: "has_shape A (nZ * nS) (nZ * nH)"
    and i: "i < nH" and k: "k \<le> nS"
  shows "has_shape (foldl (stack_star nZ T i) A [0..<k]) (nZ * nS) (nZ * nH) \<and>
     (\<forall>r < nZ * nS. \<forall>c < nZ * nH. foldl (stack_star nZ T i) A [0..<k] ! r ! c =
        (if c div nZ = i \<and> r div nZ < k then T ! (r mod nZ) ! (c mod nZ) ! i ! (r div nZ)
         else A ! r ! c))"
  using k
proof (induction k)
  case 0
  then show ?case using A by simp
next
  case (Suc k)
  let ?P = "foldl (stack_star nZ T i) A [0..<k]"
  have IH: "has_shape ?P (nZ * nS) (nZ * nH)"
    and IHe: "\<And>r c. r < nZ * nS \<Longrightarrow> c < nZ * nH \<Longrightarrow> ?P ! r ! c =
        (if c div nZ = i \<and> r div nZ < k then T ! (r mod nZ) ! (c mod nZ) ! i ! (r div nZ)
         else A ! r ! c)"
    using Suc by auto
  have kS: "k < nS" using Suc.prems by simp
  have step: "foldl (stack_star nZ T i) A [0..<Suc k] = stack_star nZ T i ?P k" by simp
  show ?case unfolding step
  proof (intro conjI allI impI)
    show "has_shape (stack_star nZ T i ?P k) (nZ * nS) (nZ * nH)"
      using T IH i kS by (rule stack_star_shape)
  next
    fix r c assume r: "r < nZ * nS" and c: "c < nZ * nH"
    show "stack_star nZ T i ?P k ! r ! c =
        (if c div nZ = i \<and> r div nZ < Suc k then T ! (r mod nZ) ! (c mod nZ) ! i ! (r div nZ)
         else A ! r ! c)"
      using stack_star_entry[OF T IH i kS r c] IHe[OF r c] by (auto simp: less_Suc_eq)
  qed
qed

lemma stack_blocks_inv:
  assumes T: "has_shape4 T nZ nZ nH nS" and k: "k \<le> nH"
  shows "has_shape (foldl (stack_height nZ nS T) (zeros (nZ * nS) (nZ * nH)) [0..<k]) (nZ * nS) (nZ * nH) \<and>
     (\<forall>r < nZ * nS. \<forall>c < nZ * nH.
        foldl (stack_height nZ nS T) (zeros (nZ * nS) (nZ * nH)) [0..<k] ! r ! c =
        (if c div nZ < k then T ! (r mod nZ) ! (c mod nZ) ! (c div nZ) ! (r div nZ) else 0))"
  using k
proof (induction k)
  case 0
  then show ?case by (simp add: has_shape_zeros) (simp add: zeros_def)
next
  case (Suc k)
  let ?P = "foldl (stack_height nZ nS T) (zeros (nZ * nS) (nZ * nH)) [0..<k]"
  have IH: "has_shape ?P (nZ * nS) (nZ * nH)"
    and IHe: "\<And>r c. r < nZ * nS \<Longrightarrow> c < nZ * nH \<Longrightarrow> ?P ! r ! c =
        (if c div nZ < k then T ! (r mod nZ) ! (c mod nZ) ! (c div nZ) ! (r div nZ) else 0)"
    using Suc by auto
  have kH: "k < nH" using Suc.prems by simp
  have step: "foldl (stack_height nZ nS T) (zeros (nZ * nS) (nZ * nH)) [0..<Suc k]
      = foldl (stack_star nZ T k) ?P [0..<nS]"
    by (simp add: stack_height_def)
  note inv = stack_height_inv[OF T IH kH le_refl]
  show ?case unfolding step
  proof (intro conjI allI impI)
    show "has_shape (foldl (stack_star nZ T k) ?P [0..<nS]) (nZ * nS) (nZ * nH)"
      using inv by blast
  next
    fix r c assume r: "r < nZ * nS" and c: "c < nZ * nH"
    have nz: "0 < nZ" using r by (cases nZ) auto
    have "r div nZ < nS" using r nz by (simp add: less_mult_imp_div_less mult.commute)
    then show "foldl (stack_star nZ T k) ?P [0..<nS] ! r ! c =
        (if c div nZ < Suc k then T ! (r mod nZ) ! (c mod nZ) ! (c div nZ) ! (r div nZ) else 0)"
      using inv r c IHe[OF r c] by (auto simp: less_Suc_eq)
  qed
qed

lemma stack_blocks_shape:
  "has_shape4 T nZ nZ nH nS \<Longrightarrow> has_shape (stack_blocks nZ nH nS T) (nZ * nS) (nZ * nH)"
  unfolding stack_blocks_def using stack_blocks_inv[of T nZ nH nS nH] by simp

lemma stack_blocks_entry:
  assumes T: "has_shape4 T nZ nZ nH nS" and r: "r < nZ * nS" and c: "c < nZ * nH"
  shows "stack_blocks nZ nH nS T ! r ! c = T ! (r mod nZ) ! (c mod nZ) ! (c div nZ) ! (r div nZ)"
proof -
  have nz: "0 < nZ" using r by (cases nZ) auto
  have "c div nZ < nH" using c nz by (simp add: less_mult_imp_div_less mult.commute)
  then show ?thesis
    unfolding stack_blocks_def using stack_blocks_inv[OF T le_refl] r c by simp
qed

text \<open>
  C5. The stacked system matrix has \<open>nStars * nZernike\<close> rows and
  \<open>nHeight * nZernike\<close> columns, and its block at block-row \<open>i\<close> (star) and
  block-column \<open>j\<close> (layer) is the projection matrix \<open>M[:, :, j, i]\<close> of layer \<open>j\<close> and
  star \<open>i\<close>; the column of mode \<open>q\<close> of layer \<open>j\<close> is \<open>j * nZernike + q\<close> (layer-major).
\<close>

theorem stackProjection_blocks:
  assumes M: "self_M s = Some T"
    and shape: "has_shape4 T (nZernike s) (nZernike s) (nHeight s) (nStars s)"
  shows "\<exists>A. stackProjection s = Inr (s\<lparr>MStack := Some A\<rparr>)
           \<and> has_shape A (nStars s * nZernike s) (nHeight s * nZernike s)
           \<and> (\<forall>i < nStars s. \<forall>j < nHeight s. \<forall>p < nZernike s. \<forall>q < nZernike s.
                 A ! (i * nZernike s + p) ! (j * nZernike s + q) = T ! p ! q ! j ! i)"
proof -
  let ?nZ = "nZernike s" and ?nH = "nHeight s" and ?nS = "nStars s"
  let ?A = "stack_blocks ?nZ ?nH ?nS T"
  have run: "stackProjection s = Inr (s\<lparr>MStack := Some ?A\<rparr>)"
    using M by (simp add: stackProjection_def)
  have dims: "has_shape ?A (?nS * ?nZ) (?nH * ?nZ)"
    using stack_blocks_shape[OF shape] by (simp add: mult.commute)
  have blocks: "?A ! (i * ?nZ + p) ! (j * ?nZ + q) = T ! p ! q ! j ! i"
    if "i < ?nS" "j < ?nH" "p < ?nZ" "q < ?nZ" for i j p q
  proof -
    have r: "i * ?nZ + p < ?nZ * ?nS"
      using block_fits[OF that(1), of ?nZ] that(3) by linarith
    have c: "j * ?nZ + q < ?nZ * ?nH"
      using block_fits[OF that(2), of ?nZ] that(4) by linarith
    show ?thesis
      using stack_blocks_entry[OF shape r c] that(3,4) by simp
  qed
  show ?thesis using run dims blocks by blast
qed

theorem stackProjection_blocks_witness:
  "self_M demo_session = Some demo_M
   \<and> has_shape4 demo_M (nZernike demo_session) (nZernike demo_session)
        (nHeight demo_session) (nStars demo_session)
   \<and> (\<exists>A. stackProjection demo_session = Inr (demo_session\<lparr>MStack := Some A\<rparr>)
           \<and> has_shape A (nStars demo_session * nZernike demo_session)
                (nHeight demo_session * nZernike demo_session)
           \<and> (\<forall>i < nStars demo_session. \<forall>j < nHeight demo_session.
                \<forall>p < nZernike demo_session. \<forall>q < nZernike demo_session.
                 A ! (i * nZernike demo_session + p) ! (j * nZernike demo_session + q)
                   = demo_M ! p ! q ! j ! i))"
proof -
  have M: "self_M demo_session = Some demo_M" by (simp add: demo_session_def)
  have shape: "has_shape4 demo_M (nZernike demo_session) (nZernike demo_session)
        (nHeight demo_session) (nStars demo_session)"
    by (simp add: demo_session_def demo_M_def has_shape4_def)
  show ?thesis using M shape stackProjection_blocks[OF M shape] by blast
qed

section \<open>Lemmas on matrix algebra\<close>

lemma dot_sum:
  assumes "length u = n" "length v = n"
  shows "dot u v = (\<Sum>k<n. u ! k * v ! k)"
proof -
  have "dot u v = (\<Sum>k = 0..<length (map2 (*) u v). map2 (*) u v ! k)"
    unfolding dot_def by (rule sum_list_sum_nth)
  also have "\<dots> = (\<Sum>k = 0..<n. u ! k * v ! k)"
    using assms by (intro sum.cong) auto
  finally show ?thesis by (simp add: atLeast0LessThan)
qed

lemma length_col [simp]: "length (col A j) = length A"
  by (simp add: col_def)

lemma nth_col: "i < length A \<Longrightarrow> col A j ! i = A ! i ! j"
  by (simp add: col_def)

lemma length_matvec [simp]: "length (matvec A v) = length A"
  by (simp add: matvec_def)

lemma nth_matvec:
  assumes "has_shape A r c" "length v = c" "i < r"
  shows "matvec A v ! i = (\<Sum>k<c. A ! i ! k * v ! k)"
proof -
  have "matvec A v ! i = dot (A ! i) v"
    using assms by (simp add: matvec_def has_shape_def)
  then show ?thesis using dot_sum[of "A ! i" c v] has_shape_nth[OF assms(1,3)] assms(2) by simp
qed

lemma has_shape_matmul: "length A = r \<Longrightarrow> has_shape (matmul p A B) r p"
  by (simp add: matmul_def has_shape_def list_all_length)

lemma nth_matmul:
  assumes A: "has_shape A r m" and B: "has_shape B m p" and i: "i < r" and j: "j < p"
  shows "matmul p A B ! i ! j = (\<Sum>k<m. A ! i ! k * B ! k ! j)"
proof -
  have lB: "length B = m" and lA: "length A = r" using A B by (simp_all add: has_shape_def)
  have "matmul p A B ! i ! j = dot (A ! i) (col B j)"
    using i j lA by (simp add: matmul_def)
  also have "\<dots> = (\<Sum>k<m. A ! i ! k * col B j ! k)"
    using has_shape_nth[OF A i] lB by (intro dot_sum) simp_all
  also have "\<dots> = (\<Sum>k<m. A ! i ! k * B ! k ! j)"
    using lB by (intro sum.cong) (simp_all add: nth_col)
  finally show ?thesis .
qed

lemma has_shape_transpose: "has_shape (transpose_mat c A) c (length A)"
  by (simp add: transpose_mat_def has_shape_def list_all_length)

lemma length_transpose [simp]: "length (transpose_mat c A) = c"
  by (simp add: transpose_mat_def)

lemma nth_transpose:
  "j < c \<Longrightarrow> i < length A \<Longrightarrow> transpose_mat c A ! j ! i = A ! i ! j"
  by (simp add: transpose_mat_def nth_col)

lemma has_shape_mat_add:
  "has_shape A r c \<Longrightarrow> has_shape B r c \<Longrightarrow> has_shape (mat_add A B) r c"
  by (auto simp: mat_add_def has_shape_def list_all_length)

lemma nth_mat_add:
  "has_shape A r c \<Longrightarrow> has_shape B r c \<Longrightarrow> i < r \<Longrightarrow> j < c \<Longrightarrow>
     mat_add A B ! i ! j = A ! i ! j + B ! i ! j"
  by (auto simp: mat_add_def has_shape_def list_all_length)

lemma has_shape_identity: "has_shape (identity n) n n"
  by (simp add: identity_def has_shape_def list_all_length)

lemma nth_identity: "i < n \<Longrightarrow> j < n \<Longrightarrow> identity n ! i ! j = (if i = j then 1 else 0)"
  by (simp add: identity_def)

lemma matvec_identity:
  assumes "length v = n"
  shows "matvec (identity n) v = v"
proof (rule nth_equalityI)
  show "length (matvec (identity n) v) = length v"
    using assms by (simp add: identity_def)
next
  fix i assume "i < length (matvec (identity n) v)"
  then have i: "i < n" by (simp add: identity_def)
  have "matvec (identity n) v ! i = (\<Sum>k<n. identity n ! i ! k * v ! k)"
    using has_shape_identity assms i by (rule nth_matvec)
  also have "\<dots> = (\<Sum>k<n. if k = i then v ! k else 0)"
    using i by (intro sum.cong) (auto simp: nth_identity)
  also have "\<dots> = v ! i" using i by simp
  finally show "matvec (identity n) v ! i = v ! i" .
qed

lemma matvec_matmul:
  assumes A: "has_shape A r k" and B: "has_shape B k m" and v: "length v = m"
  shows "matvec (matmul m A B) v = matvec A (matvec B v)"
proof (rule nth_equalityI)
  show "length (matvec (matmul m A B) v) = length (matvec A (matvec B v))"
    by (simp add: matmul_def)
next
  fix i assume "i < length (matvec (matmul m A B) v)"
  then have i: "i < r" using A by (simp add: matmul_def has_shape_def)
  have lA: "length A = r" and lB: "length B = k" using A B by (simp_all add: has_shape_def)
  have "matvec (matmul m A B) v ! i = (\<Sum>j<m. matmul m A B ! i ! j * v ! j)"
    using has_shape_matmul[OF lA] v i by (rule nth_matvec)
  also have "\<dots> = (\<Sum>j<m. (\<Sum>l<k. A ! i ! l * B ! l ! j) * v ! j)"
    using nth_matmul[OF A B i] by (intro sum.cong) simp_all
  also have "\<dots> = (\<Sum>j<m. \<Sum>l<k. A ! i ! l * (B ! l ! j * v ! j))"
    by (simp add: sum_distrib_right mult.assoc)
  also have "\<dots> = (\<Sum>l<k. \<Sum>j<m. A ! i ! l * (B ! l ! j * v ! j))"
    by (rule sum.swap)
  also have "\<dots> = (\<Sum>l<k. A ! i ! l * (\<Sum>j<m. B ! l ! j * v ! j))"
    by (simp add: sum_distrib_left)
  also have "\<dots> = (\<Sum>l<k. A ! i ! l * matvec B v ! l)"
    using nth_matvec[OF B v] by (intro sum.cong) simp_all
  also have "\<dots> = matvec A (matvec B v) ! i"
    using nth_matvec[OF A _ i, of "matvec B v"] lB by simp
  finally show "matvec (matmul m A B) v ! i = matvec A (matvec B v) ! i" .
qed

lemma length_flatten_shape: "has_shape A r c \<Longrightarrow> length (flatten A) = r * c"
proof (induction A arbitrary: r)
  case Nil
  then show ?case by (simp add: flatten_def has_shape_def)
next
  case (Cons a A)
  then obtain r' where r: "r = Suc r'" by (cases r) (auto simp: has_shape_def)
  with Cons.prems have "has_shape A r' c" and "length a = c" by (auto simp: has_shape_def)
  with Cons.IH[of r'] r show ?case by (simp add: flatten_def)
qed

lemma reshape_flatten:
  assumes "has_shape A r c"
  shows "reshape r c (flatten A) = A"
  using assms
proof (induction A arbitrary: r)
  case Nil
  then show ?case by (simp add: reshape_def has_shape_def)
next
  case (Cons a A)
  then obtain r' where r: "r = Suc r'" by (cases r) (auto simp: has_shape_def)
  with Cons.prems have A: "has_shape A r' c" and a: "length a = c" by (auto simp: has_shape_def)
  have IH: "reshape r' c (flatten A) = A" using Cons.IH[OF A] .
  have up: "[0..<Suc r'] = 0 # map Suc [0..<r']"
    by (simp add: upt_conv_Cons map_Suc_upt del: upt_Suc)
  have "reshape (Suc r') c (flatten (a # A)) =
        take c (a @ flatten A) # map (\<lambda>i. take c (drop (Suc i * c) (a @ flatten A))) [0..<r']"
    unfolding reshape_def flatten_def up by (simp add: comp_def)
  also have "\<dots> = a # map (\<lambda>i. take c (drop (i * c) (flatten A))) [0..<r']"
    using a by simp
  also have "\<dots> = a # A" using IH by (simp add: reshape_def)
  finally show ?case using r by simp
qed

lemma transpose_transpose:
  assumes "has_shape A r c"
  shows "transpose_mat r (transpose_mat c A) = A"
proof (rule nth_equalityI)
  show "length (transpose_mat r (transpose_mat c A)) = length A"
    using assms by (simp add: transpose_mat_def has_shape_def)
next
  fix i assume "i < length (transpose_mat r (transpose_mat c A))"
  then have i: "i < r" by (simp add: transpose_mat_def)
  have lA: "length A = r" using assms by (simp add: has_shape_def)
  show "transpose_mat r (transpose_mat c A) ! i = A ! i"
  proof (rule nth_equalityI)
    show "length (transpose_mat r (transpose_mat c A) ! i) = length (A ! i)"
      using i has_shape_nth[OF assms i] by (simp add: transpose_mat_def)
  next
    fix j assume "j < length (transpose_mat r (transpose_mat c A) ! i)"
    then have j: "j < c" using i by (simp add: transpose_mat_def)
    have "transpose_mat r (transpose_mat c A) ! i ! j = transpose_mat c A ! j ! i"
      using i j by (simp add: nth_transpose)
    also have "\<dots> = A ! i ! j" using i j lA by (simp add: nth_transpose)
    finally show "transpose_mat r (transpose_mat c A) ! i ! j = A ! i ! j" .
  qed
qed

lemma block_diag_shape:
  assumes "\<And>B. B \<in> set Bs \<Longrightarrow> has_shape B n n"
  shows "has_shape (block_diag n Bs) (n * length Bs) (n * length Bs)"
  using assms
proof (induction Bs)
  case Nil
  then show ?case by (simp add: has_shape_def)
next
  case (Cons B Bs)
  have B: "has_shape B n n" using Cons.prems by simp
  have IH: "has_shape (block_diag n Bs) (n * length Bs) (n * length Bs)"
    using Cons by simp
  show ?case using B IH
    by (auto simp: has_shape_def list_all_iff)
qed

lemma block_diag_entry:
  assumes "\<And>B. B \<in> set Bs \<Longrightarrow> has_shape B n n"
    and "l < length Bs" "l' < length Bs" "p < n" "q < n"
  shows "block_diag n Bs ! (l * n + p) ! (l' * n + q) = (if l = l' then Bs ! l ! p ! q else 0)"
  using assms
proof (induction Bs arbitrary: l l')
  case Nil
  then show ?case by simp
next
  case (Cons B Bs)
  have B: "has_shape B n n" using Cons.prems(1) by simp
  have lB: "length B = n" using B by (simp add: has_shape_def)
  have rest: "has_shape (block_diag n Bs) (n * length Bs) (n * length Bs)"
    using Cons.prems(1) by (intro block_diag_shape) simp
  let ?top = "map (\<lambda>row. row @ replicate (n * length Bs) 0) B"
  let ?bot = "map (\<lambda>row. replicate n 0 @ row) (block_diag n Bs)"
  have ltop: "length ?top = n" using lB by simp
  show ?case
  proof (cases l)
    case 0
    have row: "block_diag n (B # Bs) ! (l * n + p) = B ! p @ replicate (n * length Bs) 0"
      using 0 Cons.prems(4) lB by (simp add: nth_append)
    have lp: "length (B ! p) = n" using has_shape_nth[OF B Cons.prems(4)] .
    show ?thesis
    proof (cases l')
      case 0
      then show ?thesis using row lp Cons.prems(5) \<open>l = 0\<close> by (simp add: nth_append)
    next
      case (Suc k)
      have "k < length Bs" using Suc Cons.prems(3) by simp
      then have "k * n + q < n * length Bs"
        using block_fits[of k "length Bs" n] Cons.prems(5) by linarith
      then show ?thesis using row lp Suc \<open>l = 0\<close> by (simp add: nth_append)
    qed
  next
    case (Suc k)
    have k: "k < length Bs" using Suc Cons.prems(2) by simp
    have kp: "k * n + p < n * length Bs"
      using block_fits[OF k, of n] Cons.prems(4) by linarith
    have "block_diag n (B # Bs) ! (l * n + p) = ?bot ! (k * n + p)"
      using Suc ltop by (simp add: nth_append)
    also have "\<dots> = replicate n 0 @ block_diag n Bs ! (k * n + p)"
      using kp rest by (simp add: has_shape_def)
    finally have row: "block_diag n (B # Bs) ! (l * n + p)
        = replicate n 0 @ block_diag n Bs ! (k * n + p)" .
    show ?thesis
    proof (cases l')
      case 0
      then show ?thesis using row Cons.prems(5) Suc by (simp add: nth_append)
    next
      case (Suc k')
      have k': "k' < length Bs" using Suc Cons.prems(3) by simp
      have "block_diag n (B # Bs) ! (l * n + p) ! (l' * n + q)
          = block_diag n Bs ! (k * n + p) ! (k' * n + q)"
        using row Suc by (simp add: nth_append)
      also have "\<dots> = (if k = k' then Bs ! k ! p ! q else 0)"
        using Cons.IH[OF _ k k' Cons.prems(4,5)] Cons.prems(1) by simp
      finally show ?thesis using Suc \<open>l = Suc k\<close> by simp
    qed
  qed
qed

lemma reshape_layout:
  assumes "length x = r * c" "i < r" "j < c"
  shows "transpose_mat c (reshape r c x) ! j ! i = x ! (i * c + j)"
proof -
  have "transpose_mat c (reshape r c x) ! j ! i = reshape r c x ! i ! j"
    using assms by (simp add: nth_transpose reshape_def)
  also have "\<dots> = take c (drop (i * c) x) ! j" using assms by (simp add: reshape_def)
  also have "\<dots> = x ! (i * c + j)"
  proof -
    have "i * c + c \<le> r * c" using block_fits[OF assms(2), of c] by (simp add: mult.commute)
    then show ?thesis using assms by simp
  qed
  finally show ?thesis .
qed

lemma has_shape_reshape_T: "has_shape (transpose_mat c (reshape r c x)) c r"
  using has_shape_transpose[of c "reshape r c x"] by (simp add: reshape_def)

text \<open>Unfolding the array operations on explicit lists.\<close>

lemmas array_eval = matmul_def transpose_mat_def col_def dot_def matvec_def mat_add_def
  identity_def has_shape_def flatten_def reshape_def upt_conv_Cons

section \<open>Lemmas on the covariance cells\<close>

lemma collect_map_Inr [simp]: "collect (map Inr ys) = Inr ys"
  by (induction ys) simp_all

lemma collect_Inr_iff: "collect xs = Inr ys \<longleftrightarrow> xs = map Inr ys"
proof
  show "collect xs = Inr ys \<Longrightarrow> xs = map Inr ys"
    by (induction xs arbitrary: ys) (auto split: sum.splits)
qed simp

lemma collect_upt_Inr:
  assumes "collect (map f [0..<n]) = Inr ys"
  shows "length ys = n" and "\<And>k. k < n \<Longrightarrow> f k = Inr (ys ! k)"
proof -
  have eq: "map f [0..<n] = map Inr ys" using assms by (simp add: collect_Inr_iff)
  then show len: "length ys = n" by (metis length_map length_upt minus_nat.diff_0)
  fix k assume k: "k < n"
  have "map f [0..<n] ! k = map Inr ys ! k" using eq by simp
  then show "f k = Inr (ys ! k)" using k len by simp
qed

lemma collect_upt_total:
  assumes "\<And>k. k < n \<Longrightarrow> f k = Inr (g k)"
  shows "collect (map f [0..<n]) = Inr (map g [0..<n])"
proof -
  have "map f [0..<n] = map Inr (map g [0..<n])" using assms by simp
  then show ?thesis by (simp only: collect_map_Inr)
qed

lemma collect_upt_Inl:
  assumes "f 0 = Inl e" "0 < n"
  shows "collect (map f [0..<n]) = Inl e"
  using assms by (simp add: upt_conv_Cons)

lemma float_pow_pos: "0 < x \<Longrightarrow> float_pow x y = Inr (complex_of_real (x powr y))"
  by (simp add: float_pow_def)

lemma float_pow_integer:
  assumes "y \<in> \<int>"
  shows "\<exists>v. float_pow (- 1) y = Inr (complex_of_real v)"
proof (cases "y = 0")
  case True
  have "float_pow (- 1) 0 = Inr (complex_of_real 1)" by (simp add: float_pow_def)
  then show ?thesis using True by blast
next
  case False
  then have "float_pow (- 1) y
      = Inr (complex_of_real ((if even \<lfloor>y\<rfloor> then 1 else - 1) * ((- (- 1)) powr y)))"
    using assms unfolding float_pow_def by simp
  then show ?thesis by blast
qed

lemma float_pow_sign:
  assumes "even e"
  shows "\<exists>v. float_pow (- 1) (0.5 * real_of_int e) = Inr (complex_of_real v)"
proof -
  obtain k where e: "e = 2 * k" using assms by (elim evenE)
  have y: "0.5 * real_of_int e = of_int k" using e by simp
  have "of_int k \<in> (\<int> :: real set)" by simp
  then show ?thesis unfolding y by (rule float_pow_integer)
qed

lemma float_pow_sign_nat: "\<exists>v. float_pow (- 1) (real k) = Inr (complex_of_real v)"
proof -
  have "real k \<in> \<int>" by simp
  then show ?thesis by (rule float_pow_integer)
qed

lemma float_pow_returns: "x \<noteq> 0 \<Longrightarrow> \<exists>v. float_pow x y = Inr v"
  by (simp add: float_pow_def)

lemma noll_parity_phase:
  assumes "noll_parity nollIndices" "nollIndices a = (ni, mi)" "nollIndices b = (nj, mi)"
  shows "\<exists>v. float_pow (- 1) (0.5 * (real ni + real nj - 2 * real_of_int mi))
               = Inr (complex_of_real v)"
proof -
  have "even (int ni - mi)" "even (int nj - mi)"
    using assms unfolding noll_parity_def by (metis fst_conv snd_conv)+
  then have "even (int ni + int nj - 2 * mi)" by presburger
  moreover have "real ni + real nj - 2 * real_of_int mi = real_of_int (int ni + int nj - 2 * mi)"
    by simp
  ultimately show ?thesis using float_pow_sign by presburger
qed

text \<open>
  A power returns for every base but zero, and the Kolmogorov entry for every Fried
  parameter but zero: also for a negative one, where the power is a complex number.
\<close>

lemma float_pow_nonneg_power: "0 \<le> y \<Longrightarrow> \<exists>v. float_pow x y = Inr v"
  by (simp add: float_pow_def)

lemma kolmogorov_value_returns:
  assumes "r0 \<noteq> 0"
  shows "\<exists>v. kolmogorov_value sp_gamma D r0 ni nj mi = Inr v"
proof -
  obtain phase where "float_pow (- 1) (0.5 * (real ni + real nj - 2 * real_of_int mi)) = Inr phase"
    using float_pow_returns[of "- 1"] by auto
  moreover obtain pw where "float_pow (D / r0) (5 / 3) = Inr pw"
    using float_pow_nonneg_power[of "5 / 3" "D / r0"] by auto
  ultimately show ?thesis
    using assms by (simp add: kolmogorov_value_def py_div_def Let_def)
qed

lemma kolmogorov_value_total:
  assumes "0 < r0" "0 < D"
    and "\<exists>v. float_pow (- 1) (0.5 * (real ni + real nj - 2 * real_of_int mi)) = Inr v"
  shows "\<exists>v. kolmogorov_value sp_gamma D r0 ni nj mi = Inr v"
proof -
  have "0 < D / r0" using assms by simp
  then show ?thesis using assms
    by (auto simp: kolmogorov_value_def py_div_def float_pow_pos Let_def)
qed

lemma kolmogorov_cell_total:
  assumes "0 < r0" "0 < DTel s" "noll_parity nollIndices"
  shows "\<exists>v. kolmogorov_cell nollIndices sp_gamma s r0 i j = Inr v"
proof -
  obtain ni mi where a: "nollIndices (i + noll0 s) = (ni, mi)" by (cases "nollIndices (i + noll0 s)")
  obtain nj mj where b: "nollIndices (j + noll0 s) = (nj, mj)" by (cases "nollIndices (j + noll0 s)")
  show ?thesis
  proof (cases "even_mod (int i - int j) \<and> mi = mj")
    case True
    then have "\<exists>v. float_pow (- 1) (0.5 * (real ni + real nj - 2 * real_of_int mi)) = Inr v"
      using noll_parity_phase[OF assms(3) a] b by blast
    then show ?thesis
      using kolmogorov_value_total[OF assms(1,2)] a b True by (simp add: kolmogorov_cell_def)
  next
    case False
    then show ?thesis using a b by (auto simp: kolmogorov_cell_def)
  qed
qed

lemma kolmogorov_cell_zero:
  assumes "snd (nollIndices (i + noll0 s)) \<noteq> snd (nollIndices (j + noll0 s)) \<or> odd (int i - int j)"
  shows "kolmogorov_cell nollIndices sp_gamma s r0 i j = Inr 0"
  using assms
  by (auto simp: kolmogorov_cell_def even_mod_def even_iff_mod_2_eq_zero split: prod.splits)

lemma von_karman_cell_zero:
  assumes "snd (nollIndices (i + noll0 s)) \<noteq> snd (nollIndices (j + noll0 s)) \<or> odd (int i - int j)"
  shows "von_karman_cell nollIndices sp_gamma s r0 L0 i j = Inr 0"
  using assms
  by (auto simp: von_karman_cell_def even_mod_def even_iff_mod_2_eq_zero split: prod.splits)

lemma von_karman_term_total:
  assumes "0 < L0" "0 < D"
  shows "\<exists>v. von_karman_term sp_gamma D L0 ni nj phase t1 k = Inr v"
proof -
  have "0 < pi * D / L0" using assms by simp
  moreover obtain sg where "float_pow (- 1) (real k) = Inr sg" using float_pow_sign_nat by blast
  ultimately show ?thesis using assms
    by (simp add: von_karman_term_def py_div_def float_pow_pos Let_def)
qed

lemma von_karman_value_total:
  assumes "0 < r0" "0 < L0" "0 < D"
    and "\<exists>v. float_pow (- 1) (0.5 * (real ni + real nj - 2 * real_of_int mi)) = Inr v"
  shows "\<exists>v. von_karman_value sp_gamma D r0 L0 ni nj mi = Inr v"
proof -
  have q: "0 < D / r0" using assms by simp
  obtain phase where ph: "float_pow (- 1) (0.5 * (real ni + real nj - 2 * real_of_int mi)) = Inr phase"
    using assms(4) by blast
  define t1 where "t1 = sqrt (real ((ni + 1) * (nj + 1))) * pi powr (8 / 3) * 1.16 * (D / r0) powr (5 / 3)"
  have "\<exists>g. \<forall>k. von_karman_term sp_gamma D L0 ni nj phase t1 k = Inr (g k)"
    using von_karman_term_total[OF assms(2,3)] by metis
  then obtain g where g: "\<And>k. von_karman_term sp_gamma D L0 ni nj phase t1 k = Inr (g k)" by blast
  have "collect (map (von_karman_term sp_gamma D L0 ni nj phase t1) [0..<50]) = Inr (map g [0..<50])"
    by (rule collect_upt_total) (rule g)
  then show ?thesis using assms(1) q ph
    unfolding von_karman_value_def t1_def
    by (simp add: py_div_def float_pow_pos Let_def del: upt.simps)
qed

lemma von_karman_cell_total:
  assumes "0 < r0" "0 < L0" "0 < DTel s" "noll_parity nollIndices"
  shows "\<exists>v. von_karman_cell nollIndices sp_gamma s r0 L0 i j = Inr v"
proof -
  obtain ni mi where a: "nollIndices (i + noll0 s) = (ni, mi)" by (cases "nollIndices (i + noll0 s)")
  obtain nj mj where b: "nollIndices (j + noll0 s) = (nj, mj)" by (cases "nollIndices (j + noll0 s)")
  show ?thesis
  proof (cases "even_mod (int i - int j) \<and> mi = mj")
    case True
    then have "\<exists>v. float_pow (- 1) (0.5 * (real ni + real nj - 2 * real_of_int mi)) = Inr v"
      using noll_parity_phase[OF assms(4) a] b by blast
    then show ?thesis
      using von_karman_value_total[OF assms(1,2,3)] a b True by (simp add: von_karman_cell_def)
  next
    case False
    then show ?thesis using a b by (auto simp: von_karman_cell_def)
  qed
qed

text \<open>A matrix of cells that all succeed.\<close>

lemma cells_total:
  assumes "\<And>i j. \<exists>v. cell i j = Inr v"
  shows "\<exists>cov. collect (map (\<lambda>i. collect (map (cell i) [0..<n])) [0..<n]) = Inr cov"
proof -
  obtain g where g: "\<And>i j. cell i j = Inr (g i j)" using assms by metis
  have rows: "collect (map (cell i) [0..<n]) = Inr (map (g i) [0..<n])" for i
    by (rule collect_upt_total) (rule g)
  have "collect (map (\<lambda>i. collect (map (cell i) [0..<n])) [0..<n])
      = Inr (map (\<lambda>i. map (g i) [0..<n]) [0..<n])"
    by (rule collect_upt_total) (rule rows)
  then show ?thesis by blast
qed

lemma cells_entry:
  assumes "collect (map (\<lambda>i. collect (map (cell i) [0..<n])) [0..<n]) = Inr cov"
  shows "has_shape cov n n" and "\<And>i j. i < n \<Longrightarrow> j < n \<Longrightarrow> cell i j = Inr (cov ! i ! j)"
proof -
  have len: "length cov = n"
    and rows: "\<And>i. i < n \<Longrightarrow> collect (map (cell i) [0..<n]) = Inr (cov ! i)"
    using collect_upt_Inr[OF assms] by simp_all
  show "has_shape cov n n"
    using len collect_upt_Inr(1)[OF rows] by (simp add: has_shape_def list_all_length)
  fix i j assume "i < n" "j < n"
  then show "cell i j = Inr (cov ! i ! j)"
    using collect_upt_Inr(2)[OF rows] by simp
qed

lemma noll_parity_standard: "noll_parity noll_standard"
  unfolding noll_parity_def noll_standard_def Let_def by auto

lemma store_original_covariance [simp]: "covariance (store_original s cov orig) = Some cov"
  by (simp add: store_original_def)

lemma noll_standard_values:
  "noll_standard 2 = (1, 1)" "noll_standard 3 = (1, - 1)" "noll_standard 4 = (2, 0)"
  "noll_standard 8 = (3, 1)"
  by (simp_all add: noll_standard_def noll_degree_def upt_conv_Cons Let_def)

text \<open>Without a telescope diameter, and without a Fried parameter.\<close>

lemma float_pow_zero_base: "0 < y \<Longrightarrow> float_pow 0 y = Inr 0"
  by (simp add: float_pow_def)

lemma kolmogorov_value_no_diameter:
  assumes "r0 \<noteq> 0"
    and "\<exists>v. float_pow (- 1) (0.5 * (real ni + real nj - 2 * real_of_int mi)) = Inr v"
  shows "kolmogorov_value sp_gamma 0 r0 ni nj mi = Inr 0"
  using assms by (auto simp: kolmogorov_value_def py_div_def float_pow_zero_base Let_def)

lemma kolmogorov_cell_no_diameter:
  assumes "r0 \<noteq> 0" "DTel s = 0" "noll_parity nollIndices"
  shows "kolmogorov_cell nollIndices sp_gamma s r0 i j = Inr 0"
proof -
  obtain ni mi where a: "nollIndices (i + noll0 s) = (ni, mi)" by (cases "nollIndices (i + noll0 s)")
  obtain nj mj where b: "nollIndices (j + noll0 s) = (nj, mj)" by (cases "nollIndices (j + noll0 s)")
  show ?thesis
  proof (cases "even_mod (int i - int j) \<and> mi = mj")
    case True
    then have "\<exists>v. float_pow (- 1) (0.5 * (real ni + real nj - 2 * real_of_int mi)) = Inr v"
      using noll_parity_phase[OF assms(3) a] b by blast
    then show ?thesis
      using kolmogorov_value_no_diameter[OF assms(1)] a b True assms(2)
      by (simp add: kolmogorov_cell_def)
  next
    case False
    then show ?thesis using a b by (auto simp: kolmogorov_cell_def)
  qed
qed

lemma kolmogorov_covariance_no_diameter:
  assumes "r0 \<noteq> 0" "DTel s = 0" "noll_parity nollIndices"
  shows "kolmogorov_covariance nollIndices sp_gamma s r0 = Inr (zeros (nZernike s) (nZernike s))"
proof -
  have rows: "collect (map (kolmogorov_cell nollIndices sp_gamma s r0 i) [0..<nZernike s])
      = Inr (map (\<lambda>j. 0) [0..<nZernike s])" for i
    by (rule collect_upt_total) (rule kolmogorov_cell_no_diameter[OF assms])
  have "kolmogorov_covariance nollIndices sp_gamma s r0
      = Inr (map (\<lambda>i. map (\<lambda>j. 0) [0..<nZernike s]) [0..<nZernike s])"
    unfolding kolmogorov_covariance_def by (rule collect_upt_total) (rule rows)
  moreover have "map (\<lambda>i. map (\<lambda>j. 0::real) [0..<n]) [0..<n] = zeros n n" for n
    by (simp add: zeros_def map_replicate_const)
  ultimately show ?thesis by simp
qed

lemma first_cell_raises:
  assumes "cell 0 0 = Inl e" "0 < n"
  shows "collect (map (\<lambda>i. collect (map (cell i) [0..<n])) [0..<n]) = Inl e"
proof -
  have "collect (map (cell 0) [0..<n]) = Inl e"
    using assms by (rule collect_upt_Inl)
  then show ?thesis using assms(2)
    by (rule collect_upt_Inl[where f = "\<lambda>i. collect (map (cell i) [0..<n])"])
qed

lemma kolmogorov_cell_zero_fried:
  "kolmogorov_cell nollIndices sp_gamma s 0 0 0 = Inl ZeroDivisionError"
  by (simp add: kolmogorov_cell_def kolmogorov_value_def py_div_def even_mod_def split: prod.splits)

lemma von_karman_cell_zero_fried:
  "von_karman_cell nollIndices sp_gamma s 0 L0 0 0 = Inl ZeroDivisionError"
  by (simp add: von_karman_cell_def von_karman_value_def py_div_def even_mod_def split: prod.splits)

text \<open>The Kolmogorov entry does not change when the two modes are exchanged.\<close>

lemma kolmogorov_value_commute:
  "kolmogorov_value sp_gamma D r0 ni nj m = kolmogorov_value sp_gamma D r0 nj ni m"
proof -
  have 1: "real ni + real nj - 2 * real_of_int m = real nj + real ni - 2 * real_of_int m"
    and 2: "(ni + 1) * (nj + 1) = (nj + 1) * (ni + 1)"
    and 3: "real ni + real nj - 5 / 3 = real nj + real ni - 5 / 3"
    and 4: "real ni + real nj + 23 / 3 = real nj + real ni + 23 / 3"
    and 5: "sp_gamma (0.5 * (real ni - real nj + 17 / 3)) * sp_gamma (0.5 * (real nj - real ni + 17 / 3))
         = sp_gamma (0.5 * (real nj - real ni + 17 / 3)) * sp_gamma (0.5 * (real ni - real nj + 17 / 3))"
    by simp_all
  show ?thesis unfolding kolmogorov_value_def 1 2 3 4 5 ..
qed

lemma kolmogorov_cell_commute:
  "kolmogorov_cell nollIndices sp_gamma s r0 i j = kolmogorov_cell nollIndices sp_gamma s r0 j i"
proof -
  obtain ni mi where a: "nollIndices (i + noll0 s) = (ni, mi)" by (cases "nollIndices (i + noll0 s)")
  obtain nj mj where b: "nollIndices (j + noll0 s) = (nj, mj)" by (cases "nollIndices (j + noll0 s)")
  have e: "even_mod (int i - int j) = even_mod (int j - int i)"
    unfolding even_mod_def by presburger
  show ?thesis
    unfolding kolmogorov_cell_def a b e
    using kolmogorov_value_commute[of sp_gamma "DTel s" r0 ni nj mi] by auto
qed

section \<open>Lemmas on the solvers\<close>

lemma solveFASTA_run:
  assumes "MStack s = Some A" "aStack s ''Original'' = Some orig"
  shows "solveFASTA norm_2 prox_l1 fasta s b =
     (if length (fasta (fasta_arguments prox_l1 A (transpose_mat (nZernike s * nHeight s) A) b
                          ((norm_2 A)\<^sup>2) (1 / 10 ^ 5) (replicate (length orig) 0)))
           \<noteq> nHeight s * nZernike s
      then Inl ValueError
      else Inr (store_estimate
                  (s\<lparr>MStackStar := Some (transpose_mat (nZernike s * nHeight s) A),
                     mu := Some (1 / 10 ^ 5)\<rparr>) ''L1''
                  (fasta (fasta_arguments prox_l1 A (transpose_mat (nZernike s * nHeight s) A) b
                          ((norm_2 A)\<^sup>2) (1 / 10 ^ 5) (replicate (length orig) 0)))))"
  using assms by (simp add: solveFASTA_def fasta_sweep_def Let_def)

lemma forward_backward_length:
  assumes "\<And>x. length (fasta_At c x) = n" "\<And>x t. length (fasta_proxg c x t) = length x"
    and "length x = n"
  shows "length (forward_backward k c x) = n"
  using assms(3)
proof (induction k arbitrary: x)
  case 0
  then show ?case by simp
next
  case (Suc k)
  show ?case
  proof (cases "tau c")
    case None
    then show ?thesis using Suc.prems by simp
  next
    case (Some step)
    have "length (fasta_proxg c
               (map2 (-) x (map ((*) step) (fasta_At c (fasta_gradf c (fasta_A c x))))) step) = n"
      using assms(1,2) Suc.prems by simp
    then show ?thesis using Some Suc.IH by simp
  qed
qed

lemma proximal_gradient_length:
  assumes "length At = n" "length x0 = n"
  shows "length (proximal_gradient (fasta_arguments soft_threshold A At b L mu0 x0)) = n"
  unfolding proximal_gradient_def
  by (rule forward_backward_length) (simp_all add: fasta_arguments_def soft_threshold_def assms)

lemma solveSVD_Inr:
  assumes "solveSVD linalg_inv s b regularize = Inr s'"
  shows "\<exists>x. s' = store_estimate s ''SVD'' x"
  using assms
  by (auto simp: solveSVD_def Let_def split: sum.splits option.splits if_splits)

lemma solveFASTA_Inr:
  assumes "solveFASTA norm_2 prox_l1 fasta s b = Inr s''"
  shows "\<exists>x A. MStack s = Some A \<and> s'' = store_estimate
           (s\<lparr>MStackStar := Some (transpose_mat (nZernike s * nHeight s) A),
              mu := Some (1 / 10 ^ 5)\<rparr>) ''L1'' x"
  using assms
  by (auto simp: solveFASTA_def fasta_sweep_def Let_def split: option.splits if_splits)

lemma demo_solveSVD:
  "solveSVD inv_small demo_session [6, 5] False = Inr demo_svd_result"
  by (simp add: solveSVD_def normal_inverse_def demo_session_def demo_svd_result_def array_eval
        Let_def)

lemma demo_solveFASTA:
  "solveFASTA spectral_norm soft_threshold proximal_gradient demo_session [6, 5]
     = Inr demo_l1_result"
proof -
  have M: "MStack demo_session = Some [[2, 0], [0, 1]]"
    and orig: "aStack demo_session ''Original'' = Some [3, 5]"
    and n: "nZernike demo_session * nHeight demo_session = 2"
    and n': "nHeight demo_session * nZernike demo_session = 2"
    by (simp_all add: demo_session_def)
  have T: "transpose_mat 2 [[2, 0], [0, 1 :: real]] = [[2, 0], [0, 1]]"
    by (simp add: array_eval)
  have r: "replicate (length [3, 5 :: real]) (0 :: real) = [0, 0]" by (simp add: numeral_2_eq_2)
  have len: "length demo_l1 = 2"
    unfolding demo_l1_def by (rule proximal_gradient_length) simp_all
  show ?thesis
    using solveFASTA_run[OF M orig, of spectral_norm soft_threshold proximal_gradient "[6, 5]"] len
    unfolding n n' T r demo_l1_def[symmetric] demo_l1_result_def by simp
qed

section \<open>Lemmas on the lookup of a stored tensor\<close>

lemma projectionExists_miss_same:
  "projectionExists s files = Inr (False, s') \<Longrightarrow> s' = s"
  by (induction files) (auto simp: Let_def split: if_splits sum.splits)

lemma projectionExists_hit_verbose:
  "projectionExists s files = Inr (True, s') \<Longrightarrow> verbose s \<Longrightarrow> MComputed s'"
  by (induction files)
     (auto simp: Let_def stackProjection_def split: if_splits sum.splits option.splits)

lemma projectionExists_append:
  assumes "projectionExists s fs = Inr (False, s)"
  shows "projectionExists s (fs @ gs) = projectionExists s gs"
  using assms
  by (induction fs) (auto simp: Let_def split: if_splits sum.splits)

lemma height_indices_self: "height_indices hs hs = [0..<length hs]"
  unfolding height_indices_def by (rule filter_True) simp

lemma slice_tensor_all:
  assumes "has_shape4 T nZ nZ nH nS"
  shows "slice_tensor T nZ [0..<nH] = T"
proof -
  have third: "map (\<lambda>k. Q ! k) [0..<nH] = Q" if "length Q = nH" for Q :: "real list list"
    using that by (metis map_nth)
  have second: "map (\<lambda>Q. map (\<lambda>k. Q ! k) [0..<nH]) (take nZ P) = P"
    if "P \<in> set T" for P
  proof -
    have "length P = nZ" and "\<forall>Q \<in> set P. length Q = nH"
      using assms that by (auto simp: has_shape4_def list_all_iff)
    then show ?thesis using third by (simp add: map_idI)
  qed
  have "length T = nZ" using assms by (simp add: has_shape4_def)
  then show ?thesis unfolding slice_tensor_def using second by (simp add: map_idI)
qed

lemma projection_tensor_shape:
  "has_shape4 (projection_tensor pm s) (nZernike s) (nZernike s) (nHeight s) (nStars s)"
  by (simp add: projection_tensor_def has_shape4_def list_all_length)

lemma new_session_fields:
  "nHeight (new_session nS nZ fv hs D vb np ap) = length (heights (new_session nS nZ fv hs D vb np ap))"
  "verbose (new_session nS nZ fv hs D vb np ap) = vb"
  "MComputed (new_session nS nZ fv hs D vb np ap) = False"
  "aStack (new_session nS nZ fv hs D vb np ap) = Map.empty"
  "self_a (new_session nS nZ fv hs D vb np ap) = Map.empty"
  by (simp_all add: new_session_def Let_def)

lemma computeProjection_fresh:
  assumes "\<not> MComputed s"
  shows "computeProjection pm s files =
     Inr (s\<lparr>self_M := Some (projection_tensor pm s),
            MStack := Some (stack_blocks (nZernike s) (nHeight s) (nStars s) (projection_tensor pm s))\<rparr>,
          files @ [\<lparr>arr_0 = projection_tensor pm s, arr_1 = heights s, arr_2 = nStars s,
                    arr_3 = nZernike s, arr_4 = fov s, arr_5 = DTel s\<rparr>])"
  using assms by (simp add: computeProjection_def stackProjection_def Let_def)

lemma projectionExists_own_file:
  assumes "verbose s" "nHeight s = length (heights s)"
  shows "projectionExists s [\<lparr>arr_0 = projection_tensor pm s, arr_1 = heights s, arr_2 = nStars s,
                    arr_3 = nZernike s, arr_4 = fov s, arr_5 = DTel s\<rparr>]
     = Inr (True, s\<lparr>self_M := Some (projection_tensor pm s), MComputed := True,
            MStack := Some (stack_blocks (nZernike s) (nHeight s) (nStars s) (projection_tensor pm s))\<rparr>)"
proof -
  have "slice_tensor (projection_tensor pm s) (nZernike s) [0..<length (heights s)]
      = projection_tensor pm s"
    using slice_tensor_all[OF projection_tensor_shape[of pm s]] assms(2) by simp
  then show ?thesis
    using assms by (simp add: height_indices_self stackProjection_def Let_def)
qed

section \<open>Lemmas on binary64 rounding\<close>

text \<open>
  \<open>pow2\<close> is the power of two, a number \<open>m \<cdot> 2\<^sup>e\<close> with \<open>|m| < 2\<^sup>5\<^sup>3\<close> and
  \<open>-1074 \<le> e \<le> 971\<close> is a binary64 number and is its own rounding, and a number of the
  binade \<open>[2\<^sup>e\<^sup>+\<^sup>5\<^sup>2, 2\<^sup>e\<^sup>+\<^sup>5\<^sup>3)\<close> is rounded to a multiple of \<open>2\<^sup>e\<close>.
\<close>

lemma pow2_powr: "pow2 e = 2 powr (of_int e)"
proof (cases "0 \<le> e")
  case True
  have "(2::real) powr (real (nat e)) = 2 ^ nat e" by (rule powr_realpow) simp
  moreover have "real (nat e) = real_of_int e" using True by simp
  ultimately show ?thesis using True by (simp only: pow2_def if_True)
next
  case False
  have "(2::real) powr (real (nat (- e))) = 2 ^ nat (- e)" by (rule powr_realpow) simp
  moreover have "real (nat (- e)) = - real_of_int e" using False by simp
  moreover have "(2::real) powr (real_of_int e) = 1 / 2 powr (- real_of_int e)"
    using powr_minus_divide[of 2 "- real_of_int e"] by simp
  ultimately show ?thesis using False by (simp only: pow2_def if_False)
qed

lemma pow2_pos: "0 < pow2 e" by (simp add: pow2_powr)

lemma pow2_add: "pow2 (a + b) = pow2 a * pow2 b"
  by (simp add: pow2_powr powr_add)

lemma pow2_nat: "0 \<le> e \<Longrightarrow> pow2 e = of_int (2 ^ nat e)"
  by (simp add: pow2_def)

lemma round_half_even_int: "round_half_even (of_int k) = k"
  by (simp add: round_half_even_def)

lemma ulp_exponent_normal:
  assumes "pow2 (e + 52) \<le> \<bar>x\<bar>" "\<bar>x\<bar> < pow2 (e + 53)"
  shows "\<lfloor>log 2 \<bar>x\<bar>\<rfloor> - 52 = e"
proof -
  have pos: "0 < \<bar>x\<bar>" using assms(1) pow2_pos[of "e + 52"] by linarith
  have "\<lfloor>log 2 \<bar>x\<bar>\<rfloor> = e + 52"
    using assms floor_log_eq_powr_iff[of "\<bar>x\<bar>" 2 "e + 52"] pos
    by (simp add: pow2_powr add.commute add.left_commute)
  then show ?thesis by simp
qed

lemma binary64_normal:
  assumes "pow2 (e + 52) \<le> \<bar>x\<bar>" "\<bar>x\<bar> < pow2 (e + 53)" "- 1074 \<le> e" "e < 971"
  shows "binary64 x = Some (of_int (round_half_even (x / pow2 e)) * pow2 e)"
proof -
  have "x \<noteq> 0" using assms(1) pow2_pos[of "e + 52"] by auto
  then show ?thesis
    using assms(3,4) by (simp add: binary64_def ulp_exponent_normal[OF assms(1,2)] max_def)
qed

lemma binary64_representable:
  assumes x: "x = of_int m * pow2 e" and m: "\<bar>m\<bar> < 2 ^ 53" and e: "- 1074 \<le> e" "e \<le> 971"
  shows "binary64 x = Some x"
proof (cases "x = 0")
  case True
  then show ?thesis by (simp add: binary64_def)
next
  case False
  define E where "E = max (\<lfloor>log 2 \<bar>x\<bar>\<rfloor> - 52) (- 1074)"
  have ax: "\<bar>x\<bar> = of_int \<bar>m\<bar> * pow2 e" using x pow2_pos[of e] by (simp add: abs_mult)
  have "of_int \<bar>m\<bar> < (2::real) ^ 53" using m by (metis of_int_less_numeral_power_cancel_iff)
  then have "\<bar>x\<bar> < 2 ^ 53 * pow2 e" using ax pow2_pos[of e] by simp
  also have "\<dots> = 2 powr (of_int (e + 53))"
    by (simp add: pow2_powr powr_add powr_realpow[symmetric] add.commute)
  finally have "log 2 \<bar>x\<bar> < of_int (e + 53)"
    using False by (simp add: log_less_iff)
  then have "\<lfloor>log 2 \<bar>x\<bar>\<rfloor> < e + 53" by linarith
  then have Ee: "E \<le> e" using e by (simp add: E_def)
  define d where "d = nat (e - E)"
  have ed: "e = E + int d" using Ee by (simp add: d_def)
  have pe: "pow2 e = pow2 E * of_int (2 ^ d)"
    unfolding ed pow2_add by (simp add: pow2_def)
  have q: "x / pow2 E = of_int (m * 2 ^ d)"
    using x pe pow2_pos[of E] by simp
  have r: "round_half_even (x / pow2 E) = m * 2 ^ d" unfolding q by (rule round_half_even_int)
  have bk: "of_int (m * 2 ^ d) * pow2 E = x" using q pow2_pos[of E] by (simp add: field_simps)
  have E971: "E \<le> 971" using Ee e by simp
  have no: "\<not> (971 < E \<or> (E = 971 \<and> 2 ^ 53 \<le> \<bar>m * 2 ^ d\<bar>))"
  proof -
    { assume "E = 971"
      then have "d = 0" using ed e by simp
      then have "\<bar>m * 2 ^ d\<bar> < 2 ^ 53" using m by simp }
    then show ?thesis using E971 by auto
  qed
  show ?thesis
    using False no unfolding binary64_def E_def[symmetric] Let_def r bk by simp
qed


lemma binary64_exact:
  assumes "x = of_int m * pow2 e" "\<bar>m\<bar> < 2 ^ 53" "- 1074 \<le> e" "e \<le> 971" "y = x"
  shows "binary64 x = Some y"
  using binary64_representable[OF assms(1-4)] assms(5) by simp

lemma binary64_rounds:
  assumes "pow2 (e + 52) \<le> \<bar>x\<bar>" "\<bar>x\<bar> < pow2 (e + 53)" "- 1074 \<le> e" "e < 971"
    and "of_int (round_half_even (x / pow2 e)) * pow2 e = y"
  shows "binary64 x = Some y"
  using binary64_normal[OF assms(1-4)] assms(5) by simp

lemma dot_binary64_pair:
  assumes "binary64 (a * c) = Some p" "binary64 p = Some p" "binary64 (b * d) = Some q"
    "binary64 (p + q) = Some r"
  shows "dot_binary64 [a, b] [c, d] = Some r"
  using assms by (simp add: dot_binary64_def dot_step_def)

text \<open>
  The products of the steep session, entry by entry. Every product of two entries is a
  binary64 number, so each entry is the exact sum of two binary64 numbers rounded once,
  in whichever order the library adds. The only sum that is rounded is \<open>2\<^sup>5\<^sup>4 + 9\<close>, to
  \<open>2\<^sup>5\<^sup>4 + 8\<close>.
\<close>

lemma steep_dot_1: "dot_binary64 [134217728, 134217728] [1, 1] = Some 268435456"
proof (rule dot_binary64_pair[where p = "134217728" and q = "134217728"])
  show "binary64 (134217728 * 1) = Some 134217728"
    by (rule binary64_exact[where m = "1" and e = "27"]) (simp_all add: pow2_def)
  show "binary64 134217728 = Some 134217728"
    by (rule binary64_exact[where m = "1" and e = "27"]) (simp_all add: pow2_def)
  show "binary64 (134217728 * 1) = Some 134217728"
    by (rule binary64_exact[where m = "1" and e = "27"]) (simp_all add: pow2_def)
  show "binary64 (134217728 + 134217728) = Some 268435456"
    by (rule binary64_exact[where m = "1" and e = "28"]) (simp_all add: pow2_def)
qed

lemma steep_dot_2: "dot_binary64 [0, 3] [1, 1] = Some 3"
proof (rule dot_binary64_pair[where p = "0" and q = "3"])
  show "binary64 (0 * 1) = Some 0"
    by (rule binary64_exact[where m = "0" and e = "0"]) (simp_all add: pow2_def)
  show "binary64 0 = Some 0"
    by (rule binary64_exact[where m = "0" and e = "0"]) (simp_all add: pow2_def)
  show "binary64 (3 * 1) = Some 3"
    by (rule binary64_exact[where m = "3" and e = "0"]) (simp_all add: pow2_def)
  show "binary64 (0 + 3) = Some 3"
    by (rule binary64_exact[where m = "3" and e = "0"]) (simp_all add: pow2_def)
qed

lemma steep_dot_3: "dot_binary64 [134217728, 0] [134217728, 0] = Some 18014398509481984"
proof (rule dot_binary64_pair[where p = "18014398509481984" and q = "0"])
  show "binary64 (134217728 * 134217728) = Some 18014398509481984"
    by (rule binary64_exact[where m = "1" and e = "54"]) (simp_all add: pow2_def)
  show "binary64 18014398509481984 = Some 18014398509481984"
    by (rule binary64_exact[where m = "1" and e = "54"]) (simp_all add: pow2_def)
  show "binary64 (0 * 0) = Some 0"
    by (rule binary64_exact[where m = "0" and e = "0"]) (simp_all add: pow2_def)
  show "binary64 (18014398509481984 + 0) = Some 18014398509481984"
    by (rule binary64_exact[where m = "1" and e = "54"]) (simp_all add: pow2_def)
qed

lemma steep_dot_4: "dot_binary64 [134217728, 0] [134217728, 3] = Some 18014398509481984"
proof (rule dot_binary64_pair[where p = "18014398509481984" and q = "0"])
  show "binary64 (134217728 * 134217728) = Some 18014398509481984"
    by (rule binary64_exact[where m = "1" and e = "54"]) (simp_all add: pow2_def)
  show "binary64 18014398509481984 = Some 18014398509481984"
    by (rule binary64_exact[where m = "1" and e = "54"]) (simp_all add: pow2_def)
  show "binary64 (0 * 3) = Some 0"
    by (rule binary64_exact[where m = "0" and e = "0"]) (simp_all add: pow2_def)
  show "binary64 (18014398509481984 + 0) = Some 18014398509481984"
    by (rule binary64_exact[where m = "1" and e = "54"]) (simp_all add: pow2_def)
qed

lemma steep_dot_5: "dot_binary64 [134217728, 3] [134217728, 0] = Some 18014398509481984"
proof (rule dot_binary64_pair[where p = "18014398509481984" and q = "0"])
  show "binary64 (134217728 * 134217728) = Some 18014398509481984"
    by (rule binary64_exact[where m = "1" and e = "54"]) (simp_all add: pow2_def)
  show "binary64 18014398509481984 = Some 18014398509481984"
    by (rule binary64_exact[where m = "1" and e = "54"]) (simp_all add: pow2_def)
  show "binary64 (3 * 0) = Some 0"
    by (rule binary64_exact[where m = "0" and e = "0"]) (simp_all add: pow2_def)
  show "binary64 (18014398509481984 + 0) = Some 18014398509481984"
    by (rule binary64_exact[where m = "1" and e = "54"]) (simp_all add: pow2_def)
qed

lemma steep_dot_6: "dot_binary64 [134217728, 3] [134217728, 3] = Some 18014398509481992"
proof (rule dot_binary64_pair[where p = "18014398509481984" and q = "9"])
  show "binary64 (134217728 * 134217728) = Some 18014398509481984"
    by (rule binary64_exact[where m = "1" and e = "54"]) (simp_all add: pow2_def)
  show "binary64 18014398509481984 = Some 18014398509481984"
    by (rule binary64_exact[where m = "1" and e = "54"]) (simp_all add: pow2_def)
  show "binary64 (3 * 3) = Some 9"
    by (rule binary64_exact[where m = "9" and e = "0"]) (simp_all add: pow2_def)
  show "binary64 (18014398509481984 + 9) = Some 18014398509481992"
    by (rule binary64_rounds[where e = "2"]) (simp_all add: pow2_def round_half_even_def)
qed

lemma steep_dot_7: "dot_binary64 [2251799813685249 / 18014398509481984, - (1 / 8)]
    [134217728, 134217728] = Some (1 / 134217728)"
proof (rule dot_binary64_pair[where p = "2251799813685249 / 134217728" and q = "- 16777216"])
  show "binary64 ((2251799813685249 / 18014398509481984) * 134217728) = Some (2251799813685249 / 134217728)"
    by (rule binary64_exact[where m = "2251799813685249" and e = "-27"]) (simp_all add: pow2_def)
  show "binary64 (2251799813685249 / 134217728) = Some (2251799813685249 / 134217728)"
    by (rule binary64_exact[where m = "2251799813685249" and e = "-27"]) (simp_all add: pow2_def)
  show "binary64 ((- (1 / 8)) * 134217728) = Some (- 16777216)"
    by (rule binary64_exact[where m = "-1" and e = "24"]) (simp_all add: pow2_def)
  show "binary64 ((2251799813685249 / 134217728) + (- 16777216)) = Some (1 / 134217728)"
    by (rule binary64_exact[where m = "1" and e = "-27"]) (simp_all add: pow2_def)
qed

lemma steep_dot_8: "dot_binary64 [2251799813685249 / 18014398509481984, - (1 / 8)] [0, 3]
    = Some (- (3 / 8))"
proof (rule dot_binary64_pair[where p = "0" and q = "- (3 / 8)"])
  show "binary64 ((2251799813685249 / 18014398509481984) * 0) = Some 0"
    by (rule binary64_exact[where m = "0" and e = "0"]) (simp_all add: pow2_def)
  show "binary64 0 = Some 0"
    by (rule binary64_exact[where m = "0" and e = "0"]) (simp_all add: pow2_def)
  show "binary64 ((- (1 / 8)) * 3) = Some (- (3 / 8))"
    by (rule binary64_exact[where m = "-3" and e = "-3"]) (simp_all add: pow2_def)
  show "binary64 (0 + (- (3 / 8))) = Some (- (3 / 8))"
    by (rule binary64_exact[where m = "-3" and e = "-3"]) (simp_all add: pow2_def)
qed

lemma steep_dot_9: "dot_binary64 [- (1 / 8), 1 / 8] [134217728, 134217728] = Some 0"
proof (rule dot_binary64_pair[where p = "- 16777216" and q = "16777216"])
  show "binary64 ((- (1 / 8)) * 134217728) = Some (- 16777216)"
    by (rule binary64_exact[where m = "-1" and e = "24"]) (simp_all add: pow2_def)
  show "binary64 (- 16777216) = Some (- 16777216)"
    by (rule binary64_exact[where m = "-1" and e = "24"]) (simp_all add: pow2_def)
  show "binary64 ((1 / 8) * 134217728) = Some 16777216"
    by (rule binary64_exact[where m = "1" and e = "24"]) (simp_all add: pow2_def)
  show "binary64 ((- 16777216) + 16777216) = Some 0"
    by (rule binary64_exact[where m = "0" and e = "0"]) (simp_all add: pow2_def)
qed

lemma steep_dot_10: "dot_binary64 [- (1 / 8), 1 / 8] [0, 3] = Some (3 / 8)"
proof (rule dot_binary64_pair[where p = "0" and q = "3 / 8"])
  show "binary64 ((- (1 / 8)) * 0) = Some 0"
    by (rule binary64_exact[where m = "0" and e = "0"]) (simp_all add: pow2_def)
  show "binary64 0 = Some 0"
    by (rule binary64_exact[where m = "0" and e = "0"]) (simp_all add: pow2_def)
  show "binary64 ((1 / 8) * 3) = Some (3 / 8)"
    by (rule binary64_exact[where m = "3" and e = "-3"]) (simp_all add: pow2_def)
  show "binary64 (0 + (3 / 8)) = Some (3 / 8)"
    by (rule binary64_exact[where m = "3" and e = "-3"]) (simp_all add: pow2_def)
qed

lemma steep_dot_11: "dot_binary64 [1 / 134217728, - (3 / 8)] [268435456, 3] = Some (7 / 8)"
proof (rule dot_binary64_pair[where p = "2" and q = "- (9 / 8)"])
  show "binary64 ((1 / 134217728) * 268435456) = Some 2"
    by (rule binary64_exact[where m = "1" and e = "1"]) (simp_all add: pow2_def)
  show "binary64 2 = Some 2"
    by (rule binary64_exact[where m = "1" and e = "1"]) (simp_all add: pow2_def)
  show "binary64 ((- (3 / 8)) * 3) = Some (- (9 / 8))"
    by (rule binary64_exact[where m = "-9" and e = "-3"]) (simp_all add: pow2_def)
  show "binary64 (2 + (- (9 / 8))) = Some (7 / 8)"
    by (rule binary64_exact[where m = "7" and e = "-3"]) (simp_all add: pow2_def)
qed

lemma steep_dot_12: "dot_binary64 [0, 3 / 8] [268435456, 3] = Some (9 / 8)"
proof (rule dot_binary64_pair[where p = "0" and q = "9 / 8"])
  show "binary64 (0 * 268435456) = Some 0"
    by (rule binary64_exact[where m = "0" and e = "0"]) (simp_all add: pow2_def)
  show "binary64 0 = Some 0"
    by (rule binary64_exact[where m = "0" and e = "0"]) (simp_all add: pow2_def)
  show "binary64 ((3 / 8) * 3) = Some (9 / 8)"
    by (rule binary64_exact[where m = "9" and e = "-3"]) (simp_all add: pow2_def)
  show "binary64 (0 + (9 / 8)) = Some (9 / 8)"
    by (rule binary64_exact[where m = "9" and e = "-3"]) (simp_all add: pow2_def)
qed

lemmas steep_dots =
  steep_dot_1 steep_dot_2 steep_dot_3 steep_dot_4 steep_dot_5 steep_dot_6
  steep_dot_7 steep_dot_8 steep_dot_9 steep_dot_10 steep_dot_11 steep_dot_12


lemma steep_fields:
  "MStack steep_session = Some [[134217728, 134217728], [0, 3]]"
  "aStack steep_session ''Original'' = Some [1, 1]"
  "nZernike steep_session = 1" "nHeight steep_session = 2" "nStars steep_session = 2"
  by (simp_all add: steep_session_def demo_session_def)

lemma steep_transpose:
  "transpose_mat 2 [[134217728, 134217728], [0, 3 :: real]] = [[134217728, 0], [134217728, 3]]"
  by (simp add: array_eval)

lemma steep_measurement:
  "matvec_binary64 [[134217728, 134217728], [0, 3]] [1, 1] = Some [268435456, 3]"
  by (simp add: matvec_binary64_def steep_dots)

lemma steep_normal:
  "matmul_binary64 2 [[134217728, 0], [134217728, 3]] [[134217728, 134217728], [0, 3]]
     = Some [[18014398509481984, 18014398509481984], [18014398509481984, 18014398509481992]]"
  by (simp add: matmul_binary64_def col_def upt_conv_Cons steep_dots)

lemma steep_inverse:
  "inv_small [[18014398509481984, 18014398509481984], [18014398509481984, 18014398509481992]]
     = Some [[2251799813685249 / 18014398509481984, - (1 / 8)], [- (1 / 8), 1 / 8]]"
  by simp

text \<open>
  The inverse of the computed normal matrix is its inverse in exact arithmetic, and its
  four entries are binary64 numbers: the elimination steps on this matrix are exact.
\<close>

lemma steep_inverse_exact:
  "inverse_of 2 [[2251799813685249 / 18014398509481984, - (1 / 8)], [- (1 / 8), 1 / 8]]
     [[18014398509481984, 18014398509481984], [18014398509481984, 18014398509481992]]"
  by (simp add: inverse_of_def has_shape_def identity_def array_eval upt_conv_Cons)

lemma steep_inverse_binary64:
  "binary64 (2251799813685249 / 18014398509481984) = Some (2251799813685249 / 18014398509481984)"
  "binary64 (- (1 / 8)) = Some (- (1 / 8))" "binary64 (1 / 8) = Some (1 / 8)"
  by (rule binary64_exact[where m = "2251799813685249" and e = "- 54"], simp_all add: pow2_def,
      rule binary64_exact[where m = "- 1" and e = "- 3"], simp_all add: pow2_def,
      rule binary64_exact[where m = "1" and e = "- 3"], simp_all add: pow2_def)

lemma steep_pseudo:
  "matmul_binary64 2 [[2251799813685249 / 18014398509481984, - (1 / 8)], [- (1 / 8), 1 / 8]]
       [[134217728, 0], [134217728, 3]]
     = Some [[1 / 134217728, - (3 / 8)], [0, 3 / 8]]"
  by (simp add: matmul_binary64_def col_def upt_conv_Cons steep_dots)

lemma steep_estimate:
  "matvec_binary64 [[1 / 134217728, - (3 / 8)], [0, 3 / 8]] [268435456, 3] = Some [7 / 8, 9 / 8]"
  by (simp add: matvec_binary64_def steep_dots)

lemma steep_generateWFS: "generateWFS_binary64 steep_session = Inr (Some [268435456, 3])"
  by (simp add: generateWFS_binary64_def steep_fields steep_measurement)

lemma steep_solveSVD:
  "solveSVD_binary64 inv_small steep_session [268435456, 3] False
     = Inr (Some (store_estimate steep_session ''SVD'' [7 / 8, 9 / 8]))"
  by (simp add: solveSVD_binary64_def normal_inverse_binary64_def steep_fields steep_transpose
      steep_normal steep_inverse steep_pseudo steep_estimate del: inv_small.simps)

lemma steep_exact:
  "solveSVD inv_small steep_session [268435456, 3] False
     = Inr (store_estimate steep_session ''SVD'' [1, 1])"
  by (simp add: solveSVD_def normal_inverse_def steep_fields array_eval Let_def)

lemma steep_stack: "stackProjection steep_session = Inr steep_session"
  by (simp add: stackProjection_def steep_session_def demo_session_def stack_blocks_def
      stack_height_def stack_star_def set_block_def tensor_block_def zeros_def upt_conv_Cons)

section \<open>The Gamma function\<close>

text \<open>
  The series of \<open>ln_gamma\<close> converges for every positive argument, and telescoping gives
  \<open>\<Gamma>(x + 1) = x \<Gamma>(x)\<close> away from the poles.
\<close>

lemma ln_one_plus_div:
  fixes m y :: real
  assumes "0 < m" "0 \<le> y"
  shows "ln (1 + y / m) = ln (m + y) - ln m"
proof -
  have "1 + y / m = (m + y) / m" using assms by (simp add: field_simps)
  then show ?thesis using assms by (simp add: ln_div)
qed

lemma inverse_square_le:
  fixes m :: real
  assumes "1 \<le> m"
  shows "1 / m\<^sup>2 \<le> 2 / m - 2 / (m + 1)"
proof -
  have m: "m \<noteq> 0" "m + 1 \<noteq> 0" "0 < m * (m + 1)" using assms by auto
  have "2 / m - 2 / (m + 1) = 2 / (m * (m + 1))"
    using m(1,2) by (simp add: field_simps)
  moreover have "1 / m\<^sup>2 = 2 / (2 * m\<^sup>2)" by simp
  moreover have "2 / (2 * m\<^sup>2) \<le> 2 / (m * (m + 1))"
  proof (rule frac_le)
    have "m * 1 \<le> m * m" using assms by (intro mult_left_mono) simp_all
    then show "m * (m + 1) \<le> 2 * m\<^sup>2" by (simp add: power2_eq_square algebra_simps)
  qed (use m in simp_all)
  ultimately show ?thesis by simp
qed

lemma summable_inverse_square: "summable (\<lambda>n. 1 / (real (Suc n))\<^sup>2)"
proof -
  have lim: "(\<lambda>n. 2 / real (Suc n)) \<longlonglongrightarrow> 0"
    using tendsto_mult_right_zero[OF LIMSEQ_inverse_real_of_nat, of 2]
    by (simp add: divide_inverse)
  have tel: "summable (\<lambda>n. 2 / real (Suc n) - 2 / real (Suc (Suc n)))"
    using telescope_summable'[OF lim] .
  show ?thesis
  proof (rule summable_comparison_test[OF _ tel], intro exI allI impI)
    fix n :: nat
    have "1 / (real (Suc n))\<^sup>2 \<le> 2 / real (Suc n) - 2 / (real (Suc n) + 1)"
      by (rule inverse_square_le) simp
    then have "1 / (real (Suc n))\<^sup>2 \<le> 2 / real (Suc n) - 2 / real (Suc (Suc n))"
      by (simp add: add.commute)
    then show "norm (1 / (real (Suc n))\<^sup>2) \<le> 2 / real (Suc n) - 2 / real (Suc (Suc n))"
      by simp
  qed
qed

lemma ln_gamma_term_bound:
  assumes "0 \<le> x" "x \<le> real (Suc n)"
  shows "\<bar>ln_gamma_term x n\<bar> \<le> (x + x\<^sup>2) * (1 / (real (Suc n))\<^sup>2)"
proof -
  let ?m = "real (Suc n)"
  have m: "0 < ?m" by simp
  have a: "\<bar>ln (1 + 1 / ?m) - 1 / ?m\<bar> \<le> (1 / ?m)\<^sup>2"
    by (rule abs_ln_one_plus_x_minus_x_bound_nonneg) simp_all
  have b: "\<bar>ln (1 + x / ?m) - x / ?m\<bar> \<le> (x / ?m)\<^sup>2"
    using assms by (intro abs_ln_one_plus_x_minus_x_bound_nonneg) simp_all
  have "ln_gamma_term x n = x * (ln (1 + 1 / ?m) - 1 / ?m) - (ln (1 + x / ?m) - x / ?m)"
    by (simp add: ln_gamma_term_def algebra_simps)
  then have "\<bar>ln_gamma_term x n\<bar> \<le> \<bar>x * (ln (1 + 1 / ?m) - 1 / ?m)\<bar> + \<bar>ln (1 + x / ?m) - x / ?m\<bar>"
    by linarith
  also have "\<bar>x * (ln (1 + 1 / ?m) - 1 / ?m)\<bar> = x * \<bar>ln (1 + 1 / ?m) - 1 / ?m\<bar>"
    using assms(1) by (simp add: abs_mult)
  also have "x * \<bar>ln (1 + 1 / ?m) - 1 / ?m\<bar> + \<bar>ln (1 + x / ?m) - x / ?m\<bar>
      \<le> x * (1 / ?m)\<^sup>2 + (x / ?m)\<^sup>2"
    using a b assms(1) by (intro add_mono mult_left_mono) simp_all
  also have "\<dots> = (x + x\<^sup>2) * (1 / ?m\<^sup>2)"
    by (simp add: power_divide add_divide_distrib distrib_right)
  finally show ?thesis .
qed

lemma summable_ln_gamma_term:
  assumes "0 \<le> x"
  shows "summable (ln_gamma_term x)"
proof (rule summable_comparison_test_ev)
  show "summable (\<lambda>n. (x + x\<^sup>2) * (1 / (real (Suc n))\<^sup>2))"
    by (rule summable_mult) (rule summable_inverse_square)
  have "\<forall>\<^sub>F n in sequentially. x \<le> real n"
    by (rule eventually_ge_at_top[THEN eventually_mono, of "nat \<lceil>x\<rceil>"]) linarith
  then show "\<forall>\<^sub>F n in sequentially. norm (ln_gamma_term x n) \<le> (x + x\<^sup>2) * (1 / (real (Suc n))\<^sup>2)"
  proof (rule eventually_mono)
    fix n assume "x \<le> real n"
    then have "x \<le> real (Suc n)" by simp
    then show "norm (ln_gamma_term x n) \<le> (x + x\<^sup>2) * (1 / (real (Suc n))\<^sup>2)"
      using ln_gamma_term_bound[OF assms] by simp
  qed
qed

lemma ln_gamma_term_shift:
  assumes "0 < x"
  shows "ln_gamma_term (x + 1) n - ln_gamma_term x n
     = (ln (real (Suc (Suc n))) - ln (real (Suc (Suc n)) + x))
       - (ln (real (Suc n)) - ln (real (Suc n) + x))"
proof -
  let ?m = "real (Suc n)"
  have m: "0 < ?m" by simp
  have 1: "ln (1 + 1 / ?m) = ln (?m + 1) - ln ?m"
    using ln_one_plus_div[OF m, of 1] by simp
  have 2: "ln (1 + (x + 1) / ?m) = ln (?m + 1 + x) - ln ?m"
    using ln_one_plus_div[OF m, of "x + 1"] assms by (simp add: add.commute add.left_commute)
  have 3: "ln (1 + x / ?m) = ln (?m + x) - ln ?m"
    using ln_one_plus_div[OF m, of x] assms by simp
  have "ln_gamma_term (x + 1) n - ln_gamma_term x n
      = ln (1 + 1 / ?m) - ln (1 + (x + 1) / ?m) + ln (1 + x / ?m)"
    by (simp add: ln_gamma_term_def algebra_simps)
  also have "\<dots> = (ln (?m + 1) - ln (?m + 1 + x)) - (ln ?m - ln (?m + x))"
    unfolding 1 2 3 by simp
  finally show ?thesis by (simp add: add.commute)
qed

lemma ln_ratio_tendsto:
  assumes "0 < x"
  shows "(\<lambda>n. ln (real (Suc n)) - ln (real (Suc n) + x)) \<longlonglongrightarrow> 0"
proof -
  have up: "(\<lambda>n. x * inverse (real (Suc n))) \<longlonglongrightarrow> 0"
    using tendsto_mult_right_zero[OF LIMSEQ_inverse_real_of_nat, of x] .
  have eq: "ln (real (Suc n)) - ln (real (Suc n) + x) = - ln (1 + x * inverse (real (Suc n)))" for n
    using ln_one_plus_div[of "real (Suc n)" x] assms by (simp add: divide_inverse)
  have "(\<lambda>n. ln (1 + x * inverse (real (Suc n)))) \<longlonglongrightarrow> 0"
  proof (rule tendsto_sandwich[OF _ _ tendsto_const up])
    show "\<forall>\<^sub>F n in sequentially. 0 \<le> ln (1 + x * inverse (real (Suc n)))"
      using assms by (intro always_eventually allI ln_ge_zero) simp
    show "\<forall>\<^sub>F n in sequentially. ln (1 + x * inverse (real (Suc n))) \<le> x * inverse (real (Suc n))"
      using assms by (intro always_eventually allI ln_add_one_self_le_self) simp
  qed
  then have "(\<lambda>n. - ln (1 + x * inverse (real (Suc n)))) \<longlonglongrightarrow> - 0"
    by (rule tendsto_minus)
  then show ?thesis unfolding eq by simp
qed

lemma ln_gamma_shift:
  assumes "0 < x"
  shows "ln_gamma (x + 1) = ln_gamma x + ln x"
proof -
  let ?f = "\<lambda>n. ln (real (Suc n)) - ln (real (Suc n) + x)"
  have "(\<lambda>n. ?f (Suc n) - ?f n) sums (0 - ?f 0)"
    using telescope_sums[OF ln_ratio_tendsto[OF assms]] .
  then have "(\<lambda>n. ln_gamma_term (x + 1) n - ln_gamma_term x n) sums (ln (1 + x))"
    using ln_gamma_term_shift[OF assms] by simp
  then have "(\<Sum>n. ln_gamma_term (x + 1) n - ln_gamma_term x n) = ln (1 + x)"
    by (simp add: sums_iff)
  moreover have "(\<Sum>n. ln_gamma_term (x + 1) n) - (\<Sum>n. ln_gamma_term x n)
      = (\<Sum>n. ln_gamma_term (x + 1) n - ln_gamma_term x n)"
    using assms by (intro suminf_diff summable_ln_gamma_term) simp_all
  ultimately show ?thesis
    by (simp add: ln_gamma_def add.commute)
qed

lemma euler_gamma_pos: "0 < x \<Longrightarrow> 0 < euler_gamma x"
  by (simp add: euler_gamma_def)

lemma euler_gamma_shift_pos:
  assumes "0 < x"
  shows "euler_gamma (x + 1) = x * euler_gamma x"
  using assms by (simp add: euler_gamma_def ln_gamma_shift exp_add)

lemma euler_gamma_shift_neg:
  assumes "x < 0" "x \<notin> \<int>"
  shows "euler_gamma (x + 1) = x * euler_gamma x"
proof (cases "0 < x + 1")
  case True
  then have "\<lfloor>- x\<rfloor> = 0" using assms(1) by (intro floor_unique) simp_all
  then have "euler_gamma x = exp (ln_gamma (x + 1)) / x"
    using assms(1) by (simp add: euler_gamma_def)
  moreover have "euler_gamma (x + 1) = exp (ln_gamma (x + 1))"
    using True by (simp add: euler_gamma_def)
  ultimately show ?thesis using assms(1) by simp
next
  case False
  have "x + 1 \<noteq> 0"
  proof
    assume "x + 1 = 0"
    then have "x = of_int (- 1)" by simp
    then show False using assms(2) by (metis Ints_of_int)
  qed
  then have neg: "x + 1 < 0" using False by simp
  define N' where "N' = nat \<lfloor>- (x + 1)\<rfloor> + 1"
  have fl: "\<lfloor>- (x + 1)\<rfloor> = \<lfloor>- x\<rfloor> - 1"
  proof -
    have "- (x + 1) = - x - 1" by simp
    then show ?thesis by (metis floor_diff_one)
  qed
  have ge: "0 \<le> \<lfloor>- (x + 1)\<rfloor>" using neg by simp
  have "1 \<le> \<lfloor>- x\<rfloor>" using fl ge by linarith
  then have "nat \<lfloor>- x\<rfloor> = Suc (nat (\<lfloor>- x\<rfloor> - 1))" by linarith
  then have N: "nat \<lfloor>- x\<rfloor> + 1 = Suc N'"
    unfolding N'_def fl by simp
  have arg: "x + real (Suc N') = x + 1 + real N'" by simp
  have prod: "(\<Prod>i<Suc N'. x + real i) = x * (\<Prod>i<N'. x + 1 + real i)"
  proof -
    have "(\<Prod>i<Suc N'. x + real i) = (x + real 0) * (\<Prod>i<N'. x + real (Suc i))"
      by (rule prod.lessThan_Suc_shift)
    also have "(\<Prod>i<N'. x + real (Suc i)) = (\<Prod>i<N'. x + 1 + real i)"
      by (intro prod.cong) simp_all
    finally show ?thesis by simp
  qed
  have "euler_gamma x = exp (ln_gamma (x + 1 + real N')) / (x * (\<Prod>i<N'. x + 1 + real i))"
    using assms(1) unfolding euler_gamma_def N arg prod by simp
  moreover have "euler_gamma (x + 1) = exp (ln_gamma (x + 1 + real N')) / (\<Prod>i<N'. x + 1 + real i)"
    using neg unfolding euler_gamma_def N'_def by simp
  ultimately show ?thesis using assms(1) by simp
qed

lemma euler_gamma_shift:
  assumes "x \<notin> \<int>"
  shows "euler_gamma (x + 1) = x * euler_gamma x"
proof -
  have "x \<noteq> 0" using assms by auto
  then consider "0 < x" | "x < 0" by linarith
  then show ?thesis
    using euler_gamma_shift_pos euler_gamma_shift_neg[OF _ assms] by cases simp_all
qed

lemma euler_gamma_one: "euler_gamma 1 = 1"
proof -
  have "ln_gamma_term 1 n = 0" for n by (simp add: ln_gamma_term_def)
  then show ?thesis by (simp add: euler_gamma_def ln_gamma_def)
qed

text \<open>Alternating sums of terms that shrink.\<close>

lemma alternating_sum_nonneg:
  fixes f :: "nat \<Rightarrow> real"
  assumes "0 \<le> f 0"
    and "\<And>k. \<exists>c. 0 \<le> c \<and> c \<le> 1 \<and> f (Suc k) = - c * f k"
  shows "0 \<le> (\<Sum>k<n. f k) \<and> 0 \<le> (\<Sum>k<n. f k) + f n"
proof (induction n)
  case 0
  then show ?case using assms(1) by simp
next
  case (Suc n)
  obtain c where c: "0 \<le> c" "c \<le> 1" "f (Suc n) = - c * f n" using assms(2) by blast
  have 1: "0 \<le> (\<Sum>k<Suc n. f k)" using Suc by simp
  have "(\<Sum>k<Suc n. f k) + f (Suc n) = (\<Sum>k<n. f k) + (1 - c) * f n"
    using c(3) by (simp add: algebra_simps)
  moreover have "0 \<le> (\<Sum>k<n. f k) + (1 - c) * f n"
  proof (cases "0 \<le> f n")
    case True
    then have "0 \<le> (1 - c) * f n" using c by simp
    then show ?thesis using Suc by linarith
  next
    case False
    then have "0 \<le> c * (- f n)" using c(1) by (intro mult_nonneg_nonneg) simp_all
    moreover have "(1 - c) * f n = f n + c * (- f n)" by (simp add: algebra_simps)
    ultimately show ?thesis using Suc by linarith
  qed
  ultimately show ?case using 1 by simp
qed

section \<open>The von Karman series for the degrees 1 and 3\<close>

lemma non_integer_sixths:
  fixes k :: nat
  shows "1 / 6 - real k \<notin> \<int>"
proof
  assume "1 / 6 - real k \<in> \<int>"
  then obtain z :: int where z: "1 / 6 - real k = of_int z" by (auto elim: Ints_cases)
  then have "(1::real) = of_int (6 * (z + int k))" by (simp add: algebra_simps)
  then have "(1::int) = 6 * (z + int k)" by (metis of_int_1 of_int_eq_iff)
  then show False by presburger
qed

lemma gap_normal:
  fixes a p1 p2 p3 q c yk :: real
  assumes "p3 \<noteq> 0" "q \<noteq> 0" "c \<noteq> 0"
  shows "yk * (a * p1 * p2 * p3) * (1 / (q * p3 * p3) - 1 / (q * (c * p3) * (c * p3)))
       = (yk * a * p1 * p2 / (q * p3)) * (1 - 1 / (c * c))"
  using assms by (simp add: field_simps)

lemma gamma_23_6:
  fixes k :: nat
  shows "euler_gamma (23 / 6 + real k)
       = ((17 / 6 + real k) * (11 / 6 + real k)) * euler_gamma (11 / 6 + real k)"
proof -
  have "euler_gamma ((17 / 6 + real k) + 1) = (17 / 6 + real k) * euler_gamma (17 / 6 + real k)"
    by (rule euler_gamma_shift_pos) (simp add: add_pos_nonneg)
  moreover have "euler_gamma ((11 / 6 + real k) + 1) = (11 / 6 + real k) * euler_gamma (11 / 6 + real k)"
    by (rule euler_gamma_shift_pos) (simp add: add_pos_nonneg)
  moreover have "(17 / 6 + real k) + 1 = 23 / 6 + real k" "(11 / 6 + real k) + 1 = 17 / 6 + real k"
    by simp_all
  ultimately show ?thesis by simp
qed

lemma von_karman_gap_head:
  fixes k :: nat
  defines "c \<equiv> (17 / 6 + real k) * (11 / 6 + real k)"
  shows "von_karman_gap euler_gamma y k
       = (y ^ k * euler_gamma (7 / 6 - real k) * euler_gamma (real k + 7 / 3)
            * euler_gamma (real k + 17 / 6)
          / (euler_gamma (35 / 6 + real k) * euler_gamma (11 / 6 + real k)))
         * (1 - 1 / (c * c))"
proof -
  have p3: "euler_gamma (11 / 6 + real k) \<noteq> 0"
    using euler_gamma_pos[of "11 / 6 + real k"] by (simp add: add_pos_nonneg)
  have q: "euler_gamma (35 / 6 + real k) \<noteq> 0"
    using euler_gamma_pos[of "35 / 6 + real k"] by (simp add: add_pos_nonneg)
  have c: "c \<noteq> 0" unfolding c_def by (simp add: add_pos_nonneg less_imp_neq[THEN not_sym])
  have comm: "real k + 11 / 6 = 11 / 6 + real k" by simp
  show ?thesis
    unfolding von_karman_gap_def gamma_23_6 comm c_def[symmetric]
    using gap_normal[OF p3 q c] .
qed

lemma gap_step_algebra:
  fixes a p1 p2 p3 q y yk e1 e2 e3 e4 e5 W W' :: real
  assumes "e3 \<noteq> 0" "e4 \<noteq> 0" "e5 \<noteq> 0" "q \<noteq> 0" "p3 \<noteq> 0" "W \<noteq> 0"
  shows "(yk * y * (a / e5) * (e1 * p1) * (e2 * p2) / ((e3 * q) * (e4 * p3))) * W'
      = - (y * e1 * e2 * W' / ((- e5) * e3 * e4 * W)) * ((yk * a * p1 * p2 / (q * p3)) * W)"
  using assms by (simp add: field_simps)

lemma von_karman_gap_step:
  fixes k :: nat
  shows "von_karman_gap euler_gamma y (Suc k)
       = - von_karman_ratio y k * von_karman_gap euler_gamma y k"
proof -
  define r where "r = real k"
  define a p1 p2 p3 q where "a = euler_gamma (7 / 6 - r)" and "p1 = euler_gamma (r + 7 / 3)"
    and "p2 = euler_gamma (r + 17 / 6)" and "p3 = euler_gamma (11 / 6 + r)"
    and "q = euler_gamma (35 / 6 + r)"
  define c c' where "c = (17 / 6 + r) * (11 / 6 + r)" and "c' = (23 / 6 + r) * (17 / 6 + r)"
  have r: "0 \<le> r" by (simp add: r_def)
  have pos: "0 < p1" "0 < p2" "0 < p3" "0 < q"
    unfolding p1_def p2_def p3_def q_def using r by (simp_all add: euler_gamma_pos)
  have sixth: "1 / 6 - r \<noteq> 0"
    using non_integer_sixths[of k] unfolding r_def by (metis Ints_0)
  have a': "euler_gamma (7 / 6 - real (Suc k)) = a / (1 / 6 - r)"
  proof -
    have "euler_gamma ((1 / 6 - r) + 1) = (1 / 6 - r) * euler_gamma (1 / 6 - r)"
      unfolding r_def by (rule euler_gamma_shift) (rule non_integer_sixths)
    moreover have "(1 / 6 - r) + 1 = 7 / 6 - r" "7 / 6 - real (Suc k) = 1 / 6 - r"
      by (simp_all add: r_def)
    ultimately show ?thesis using sixth by (simp add: a_def)
  qed
  have p1': "euler_gamma (real (Suc k) + 7 / 3) = (r + 7 / 3) * p1"
    using euler_gamma_shift_pos[of "r + 7 / 3"] r by (simp add: p1_def r_def add.commute add.left_commute)
  have p2': "euler_gamma (real (Suc k) + 17 / 6) = (r + 17 / 6) * p2"
    using euler_gamma_shift_pos[of "r + 17 / 6"] r by (simp add: p2_def r_def add.commute add.left_commute)
  have p3': "euler_gamma (11 / 6 + real (Suc k)) = (11 / 6 + r) * p3"
    using euler_gamma_shift_pos[of "11 / 6 + r"] r by (simp add: p3_def r_def add.commute add.left_commute)
  have q': "euler_gamma (35 / 6 + real (Suc k)) = (35 / 6 + r) * q"
    using euler_gamma_shift_pos[of "35 / 6 + r"] r by (simp add: q_def r_def add.commute add.left_commute)
  have cs: "(17 / 6 + real (Suc k)) * (11 / 6 + real (Suc k)) = c'"
    by (simp add: c'_def r_def algebra_simps)
  have gk: "von_karman_gap euler_gamma y k = (y ^ k * a * p1 * p2 / (q * p3)) * (1 - 1 / (c * c))"
    using von_karman_gap_head[of y k] by (simp add: a_def p1_def p2_def p3_def q_def c_def r_def)
  have gk1: "von_karman_gap euler_gamma y (Suc k)
      = (y ^ Suc k * (a / (1 / 6 - r)) * ((r + 7 / 3) * p1) * ((r + 17 / 6) * p2)
          / (((35 / 6 + r) * q) * ((11 / 6 + r) * p3))) * (1 - 1 / (c' * c'))"
    using von_karman_gap_head[of y "Suc k"] unfolding cs a' p1' p2' p3' q' .
  have c1: "1 < c" unfolding c_def using r
  proof -
    have "1 * 1 < (17 / 6 + r) * (11 / 6 + r)" using r by (intro mult_strict_mono) simp_all
    then show "1 < (17 / 6 + r) * (11 / 6 + r)" by simp
  qed
  have "1 < c * c" using c1 by (metis less_1_mult)
  then have nz: "1 - 1 / (c * c) \<noteq> 0" by simp
  have rat: "von_karman_ratio y k
      = y * (r + 7 / 3) * (r + 17 / 6) * (1 - 1 / (c' * c'))
        / ((r - 1 / 6) * (r + 35 / 6) * (r + 11 / 6) * (1 - 1 / (c * c)))"
    by (simp add: von_karman_ratio_def r_def c_def c'_def)
  define W where "W = 1 - 1 / (c * c)"
  define W' where "W' = 1 - 1 / (c' * c')"
  have d: "r + 35 / 6 \<noteq> 0" "r + 11 / 6 \<noteq> 0" "r - 1 / 6 \<noteq> 0" "q \<noteq> 0" "p3 \<noteq> 0" "W \<noteq> 0"
    using r pos sixth nz by (auto simp: W_def)
  have e: "r - 1 / 6 = - (1 / 6 - r)" "r + 35 / 6 = 35 / 6 + r" "r + 11 / 6 = 11 / 6 + r"
    "y ^ Suc k = y ^ k * y"
    by simp_all
  have "(y ^ Suc k * (a / (1 / 6 - r)) * ((r + 7 / 3) * p1) * ((r + 17 / 6) * p2)
          / (((35 / 6 + r) * q) * ((11 / 6 + r) * p3))) * W'
      = - (y * (r + 7 / 3) * (r + 17 / 6) * W' / ((r - 1 / 6) * (r + 35 / 6) * (r + 11 / 6) * W))
        * ((y ^ k * a * p1 * p2 / (q * p3)) * W)"
    unfolding e by (rule gap_step_algebra) (use d sixth in \<open>simp_all add: add.commute\<close>)
  then show ?thesis unfolding gk gk1 rat W_def W'_def .
qed

lemma gap_weight_bounds:
  fixes u v :: real
  assumes "1 < u * v"
  shows "0 < 1 - 1 / ((u * v) * (u * v))" "1 - 1 / ((u * v) * (u * v)) < 1"
proof -
  have "1 < (u * v) * (u * v)" using assms by (metis less_1_mult)
  then show "0 < 1 - 1 / ((u * v) * (u * v))" "1 - 1 / ((u * v) * (u * v)) < 1" by simp_all
qed

lemma von_karman_ratio_first:
  assumes "0 \<le> y"
  shows "von_karman_ratio y 0 \<le> 0"
proof -
  have W': "0 < 1 - 1 / (((23 / 6) * (17 / 6)) * ((23 / 6) * (17 / 6)) :: real)"
    and W: "0 < 1 - 1 / (((17 / 6) * (11 / 6)) * ((17 / 6) * (11 / 6)) :: real)"
    by simp_all
  show ?thesis
    unfolding von_karman_ratio_def using assms
    by (simp add: divide_nonneg_neg mult_nonneg_nonneg zero_le_mult_iff divide_le_0_iff)
qed

lemma von_karman_ratio_bounds:
  fixes k :: nat
  assumes y: "0 \<le> y" "y \<le> 41 / 100" and k: "1 \<le> k"
  shows "0 \<le> von_karman_ratio y k" "von_karman_ratio y k \<le> 1"
proof -
  define r where "r = real k"
  define e1 e2 e3 e4 where "e1 = r + 7 / 3" and "e2 = r + 17 / 6" and "e3 = r + 35 / 6"
    and "e4 = r + 11 / 6"
  define W where "W = 1 - 1 / (((17 / 6 + r) * (11 / 6 + r)) * ((17 / 6 + r) * (11 / 6 + r)))"
  define W' where "W' = 1 - 1 / (((23 / 6 + r) * (17 / 6 + r)) * ((23 / 6 + r) * (17 / 6 + r)))"
  have r: "1 \<le> r" using k by (simp add: r_def)
  have e: "0 < e1" "0 < e2" "0 < e3" "0 < e4" "e1 \<le> e3" "e2 \<le> 2 * e4"
    using r by (simp_all add: e1_def e2_def e3_def e4_def)
  have c: "10 \<le> (17 / 6 + r) * (11 / 6 + r)"
  proof -
    have "(23 / 6) * (17 / 6) \<le> (17 / 6 + r) * (11 / 6 + r)"
      using r by (intro mult_mono) simp_all
    then show ?thesis by simp
  qed
  have W: "99 / 100 \<le> W"
  proof -
    have "10 * 10 \<le> ((17 / 6 + r) * (11 / 6 + r)) * ((17 / 6 + r) * (11 / 6 + r))"
      using c by (intro mult_mono) simp_all
    then have "1 / (((17 / 6 + r) * (11 / 6 + r)) * ((17 / 6 + r) * (11 / 6 + r))) \<le> 1 / 100"
      by (intro divide_left_mono) simp_all
    then show ?thesis by (simp add: W_def)
  qed
  have c': "1 < (23 / 6 + r) * (17 / 6 + r)"
  proof -
    have "1 * 1 < (23 / 6 + r) * (17 / 6 + r)" using r by (intro mult_strict_mono) simp_all
    then show ?thesis by simp
  qed
  have W': "0 < W'" "W' < 1" unfolding W'_def using gap_weight_bounds[OF c'] by simp_all
  have rat: "von_karman_ratio y k = (y * e1 * e2 * W') / ((r - 1 / 6) * e3 * e4 * W)"
    by (simp add: von_karman_ratio_def r_def e1_def e2_def e3_def e4_def W_def W'_def)
  have num: "0 \<le> y * e1 * e2 * W'" using y(1) e W' by simp
  have den: "0 < (r - 1 / 6) * e3 * e4 * W" using r e W by simp
  show "0 \<le> von_karman_ratio y k" unfolding rat using num den by simp
  have "y * e1 * e2 * W' \<le> (41 / 100) * e3 * (2 * e4) * 1"
    using y e W' by (intro mult_mono) simp_all
  also have "\<dots> = (82 / 100) * (e3 * e4)" by simp
  also have "\<dots> \<le> ((5 / 6) * (99 / 100)) * (e3 * e4)"
    using e by (intro mult_right_mono) simp_all
  also have "\<dots> = (5 / 6) * e3 * e4 * (99 / 100)" by simp
  also have "\<dots> \<le> (r - 1 / 6) * e3 * e4 * W"
    using r e W by (intro mult_mono) simp_all
  finally show "von_karman_ratio y k \<le> 1" unfolding rat using den by simp
qed

lemma von_karman_gap_first:
  "0 < von_karman_gap euler_gamma y 0"
proof -
  have g: "0 < euler_gamma (7 / 6)" "0 < euler_gamma (7 / 3)" "0 < euler_gamma (17 / 6)"
    "0 < euler_gamma (35 / 6)" "0 < euler_gamma (11 / 6)"
    by (simp_all add: euler_gamma_pos)
  show ?thesis
    using von_karman_gap_head[of y 0] g by simp
qed

lemma von_karman_gap_sum:
  assumes "0 \<le> y" "y \<le> 41 / 100"
  shows "0 < (\<Sum>k<Suc n. von_karman_gap euler_gamma y k)"
proof -
  let ?g = "von_karman_gap euler_gamma y"
  have first: "0 \<le> ?g (Suc 0)"
  proof -
    have "?g (Suc 0) = (- von_karman_ratio y 0) * ?g 0" by (rule von_karman_gap_step)
    moreover have "0 \<le> - von_karman_ratio y 0" using von_karman_ratio_first[OF assms(1)] by simp
    ultimately show ?thesis
      using von_karman_gap_first[of y] by (simp add: mult_nonpos_nonneg less_imp_le)
  qed
  have step: "\<exists>c. 0 \<le> c \<and> c \<le> 1 \<and> ?g (Suc (Suc k)) = - c * ?g (Suc k)" for k
    using von_karman_ratio_bounds[OF assms, of "Suc k"] von_karman_gap_step[of y "Suc k"]
    by auto
  have "0 \<le> (\<Sum>k<n. ?g (Suc k))"
    using alternating_sum_nonneg[of "\<lambda>k. ?g (Suc k)", OF first step] by blast
  moreover have "(\<Sum>k<Suc n. ?g k) = ?g 0 + (\<Sum>k<n. ?g (Suc k))"
    by (rule sum.lessThan_Suc_shift)
  ultimately show ?thesis using von_karman_gap_first[of y] by linarith
qed

lemma float_pow_even_power:
  assumes "0 < x"
  shows "float_pow x (2 * real k) = Inr (complex_of_real ((x\<^sup>2) ^ k))"
proof -
  have "x powr (2 * real k) = x powr real (2 * k)" by simp
  also have "\<dots> = x ^ (2 * k)" using assms by (rule powr_realpow)
  also have "\<dots> = (x\<^sup>2) ^ k" by (simp add: power_mult)
  finally show ?thesis using assms by (simp add: float_pow_pos)
qed

lemma foldl_add_sum:
  fixes f :: "nat \<Rightarrow> real"
  shows "foldl (+) a (map f [0..<n]) = a + (\<Sum>k<n. f k)"
  by (induction n) simp_all

lemma von_karman_term_eval:
  fixes sp_gamma :: gamma_fn
  assumes "0 < L0" "0 < D" and sg: "float_pow (- 1) (real k) = Inr (complex_of_real sg)"
  shows "von_karman_term sp_gamma D L0 ni nj (complex_of_real phase) (complex_of_real t1) k
     = Inr (phase * t1 *
          (sg / real (fact k) * (pi * D / L0) powr (2 * real k + real ni + real nj - 5 / 3)
             * (sp_gamma (real k + 0.5 * (3 + real ni + real nj))
                * sp_gamma (real k + 2 + 0.5 * (real ni + real nj))
                * sp_gamma (real k + 1 + 0.2 * (real ni + real nj))
                * sp_gamma (5 / 6 - real k - 0.5 * (real ni + real nj)))
             / (sp_gamma (3 + real k + real ni + real nj) * sp_gamma (2 + real k + real ni)
                * sp_gamma (2 + real k + real nj))
           + ((pi * D / L0)\<^sup>2) ^ k
             * (sp_gamma (0.5 * (real ni + real nj) - 5 / 6 - real k) * sp_gamma (real k + 7 / 3)
                * sp_gamma (real k + 17 / 6) * sp_gamma (real k + 11 / 6))
             / (sp_gamma (0.5 * (real ni + real nj) + 23 / 6 + real k)
                * sp_gamma (0.5 * (real ni - real nj) + 17 / 6 + real k)
                * sp_gamma (0.5 * (real ni - real nj) + 17 / 6 + real k))))"
proof -
  let ?x = "pi * D / L0"
  have x: "0 < ?x" using assms by simp
  have q: "py_div (pi * D) L0 = Inr ?x" using assms by (simp add: py_div_def)
  have p2: "float_pow ?x (2 * real k + real ni + real nj - 5 / 3)
      = Inr (complex_of_real (?x powr (2 * real k + real ni + real nj - 5 / 3)))"
    using x by (rule float_pow_pos)
  have p3: "float_pow ?x (2 * real k) = Inr (complex_of_real (((?x)\<^sup>2) ^ k))"
    using x by (rule float_pow_even_power)
  show ?thesis
    unfolding von_karman_term_def q sg p2 p3 Let_def sum.case
    by (simp only: of_real_mult [symmetric] of_real_divide [symmetric] of_real_add [symmetric]
        Re_complex_of_real)
qed

lemma von_karman_term_gap:
  fixes sp_gamma :: gamma_fn
  assumes "0 < L0" "0 < D"
  shows "\<exists>a b. von_karman_term sp_gamma D L0 1 3 (complex_of_real phase) (complex_of_real t1) k = Inr a
           \<and> von_karman_term sp_gamma D L0 3 1 (complex_of_real phase) (complex_of_real t1) k = Inr b
           \<and> a - b = phase * t1 * von_karman_gap sp_gamma ((pi * D / L0)\<^sup>2) k"
proof -
  let ?y = "(pi * D / L0)\<^sup>2"
  obtain sg where sg: "float_pow (- 1) (real k) = Inr (complex_of_real sg)"
    using float_pow_sign_nat by blast
  define S where "S = sg / real (fact k) * (pi * D / L0) powr (2 * real k + real 1 + real 3 - 5 / 3)
             * (sp_gamma (real k + 0.5 * (3 + real 1 + real 3))
                * sp_gamma (real k + 2 + 0.5 * (real 1 + real 3))
                * sp_gamma (real k + 1 + 0.2 * (real 1 + real 3))
                * sp_gamma (5 / 6 - real k - 0.5 * (real 1 + real 3)))
             / (sp_gamma (3 + real k + real 1 + real 3) * sp_gamma (2 + real k + real 1)
                * sp_gamma (2 + real k + real 3))"
  have S': "sg / real (fact k) * (pi * D / L0) powr (2 * real k + real 3 + real 1 - 5 / 3)
             * (sp_gamma (real k + 0.5 * (3 + real 3 + real 1))
                * sp_gamma (real k + 2 + 0.5 * (real 3 + real 1))
                * sp_gamma (real k + 1 + 0.2 * (real 3 + real 1))
                * sp_gamma (5 / 6 - real k - 0.5 * (real 3 + real 1)))
             / (sp_gamma (3 + real k + real 3 + real 1) * sp_gamma (2 + real k + real 3)
                * sp_gamma (2 + real k + real 1)) = S"
    unfolding S_def by (simp add: mult.commute)
  define t4 where "t4 = sp_gamma (7 / 6 - real k) * sp_gamma (real k + 7 / 3)
      * sp_gamma (real k + 17 / 6) * sp_gamma (real k + 11 / 6)"
  define t5 where "t5 = sp_gamma (35 / 6 + real k) * sp_gamma (11 / 6 + real k)
      * sp_gamma (11 / 6 + real k)"
  define t5' where "t5' = sp_gamma (35 / 6 + real k) * sp_gamma (23 / 6 + real k)
      * sp_gamma (23 / 6 + real k)"
  have args: "0.5 * (real 1 + real 3) - 5 / 6 - real k = 7 / 6 - real k"
    "0.5 * (real 3 + real 1) - 5 / 6 - real k = 7 / 6 - real k"
    "0.5 * (real 1 + real 3) + 23 / 6 + real k = 35 / 6 + real k"
    "0.5 * (real 3 + real 1) + 23 / 6 + real k = 35 / 6 + real k"
    "0.5 * (real 1 - real 3) + 17 / 6 + real k = 11 / 6 + real k"
    "0.5 * (real 3 - real 1) + 17 / 6 + real k = 23 / 6 + real k"
    by simp_all
  have a: "von_karman_term sp_gamma D L0 1 3 (complex_of_real phase) (complex_of_real t1) k
      = Inr (phase * t1 * (S + ?y ^ k * t4 / t5))"
    unfolding von_karman_term_eval[OF assms sg] S_def[symmetric] args t4_def t5_def ..
  have b: "von_karman_term sp_gamma D L0 3 1 (complex_of_real phase) (complex_of_real t1) k
      = Inr (phase * t1 * (S + ?y ^ k * t4 / t5'))"
    unfolding von_karman_term_eval[OF assms sg] S' args t4_def t5'_def ..
  have "phase * t1 * (S + ?y ^ k * t4 / t5) - phase * t1 * (S + ?y ^ k * t4 / t5')
      = phase * t1 * (?y ^ k * t4 * (1 / t5 - 1 / t5'))"
    by (simp add: algebra_simps)
  also have "?y ^ k * t4 * (1 / t5 - 1 / t5') = von_karman_gap sp_gamma ?y k"
    by (simp add: von_karman_gap_def t4_def t5_def t5'_def)
  finally show ?thesis using a b by blast
qed

lemma von_karman_value_gap:
  fixes sp_gamma :: gamma_fn
  assumes "0 < r0" "0 < L0" "0 < D"
  shows "\<exists>a b. von_karman_value sp_gamma D r0 L0 1 3 1 = Inr a
           \<and> von_karman_value sp_gamma D r0 L0 3 1 1 = Inr b
           \<and> a - b = - (sqrt 8 * pi powr (8 / 3) * 1.16 * (D / r0) powr (5 / 3))
                        * (\<Sum>k<50. von_karman_gap sp_gamma ((pi * D / L0)\<^sup>2) k)"
proof -
  let ?y = "(pi * D / L0)\<^sup>2"
  define t1 where "t1 = sqrt 8 * pi powr (8 / 3) * 1.16 * (D / r0) powr (5 / 3)"
  have q: "py_div D r0 = Inr (D / r0)" "0 < D / r0" using assms by (simp_all add: py_div_def)
  have one: "(1::real) \<in> \<int>" by simp
  define ph1 :: complex where "ph1 = complex_of_real (- 1)"
  define ct1 :: complex where "ct1 = complex_of_real t1"
  have ph: "float_pow (- 1) (0.5 * (real 1 + real 3 - 2 * real_of_int 1)) = Inr ph1"
    "float_pow (- 1) (0.5 * (real 3 + real 1 - 2 * real_of_int 1)) = Inr ph1"
    using one by (simp_all add: float_pow_def ph1_def)
  have pw: "float_pow (D / r0) (5 / 3) = Inr (complex_of_real ((D / r0) powr (5 / 3)))"
    using q(2) by (rule float_pow_pos)
  have t: "complex_of_real (sqrt (real ((1 + 1) * (3 + 1))) * pi powr (8 / 3) * 1.16)
             * complex_of_real ((D / r0) powr (5 / 3)) = ct1"
    "complex_of_real (sqrt (real ((3 + 1) * (1 + 1))) * pi powr (8 / 3) * 1.16)
             * complex_of_real ((D / r0) powr (5 / 3)) = ct1"
    by (simp_all add: t1_def ct1_def)
  have "\<forall>k. \<exists>a b. von_karman_term sp_gamma D L0 1 3 ph1 ct1 k = Inr a
           \<and> von_karman_term sp_gamma D L0 3 1 ph1 ct1 k = Inr b
           \<and> a - b = (- 1) * t1 * von_karman_gap sp_gamma ?y k"
    unfolding ph1_def ct1_def using von_karman_term_gap[OF assms(2,3)] by blast
  then obtain fa fb where
    fa: "\<And>k. von_karman_term sp_gamma D L0 1 3 ph1 ct1 k = Inr (fa k)" and
    fb: "\<And>k. von_karman_term sp_gamma D L0 3 1 ph1 ct1 k = Inr (fb k)" and
    d: "\<And>k. fa k - fb k = (- 1) * t1 * von_karman_gap sp_gamma ?y k"
    by metis
  have ca: "collect (map (von_karman_term sp_gamma D L0 1 3 ph1 ct1) [0..<50]) = Inr (map fa [0..<50])"
    by (rule collect_upt_total) (rule fa)
  have cb: "collect (map (von_karman_term sp_gamma D L0 3 1 ph1 ct1) [0..<50]) = Inr (map fb [0..<50])"
    by (rule collect_upt_total) (rule fb)
  have a: "von_karman_value sp_gamma D r0 L0 1 3 1 = Inr (\<Sum>k<50. fa k)"
    unfolding von_karman_value_def q(1) ph pw t Let_def sum.case ca
    by (simp only: foldl_add_sum) simp
  have b: "von_karman_value sp_gamma D r0 L0 3 1 1 = Inr (\<Sum>k<50. fb k)"
    unfolding von_karman_value_def q(1) ph pw t Let_def sum.case cb
    by (simp only: foldl_add_sum) simp
  have "(\<Sum>k<50. fa k) - (\<Sum>k<50. fb k) = (\<Sum>k<50. fa k - fb k)"
    by (simp add: sum_subtractf)
  also have "\<dots> = (\<Sum>k<50. (- 1) * t1 * von_karman_gap sp_gamma ?y k)"
    by (simp only: d)
  also have "\<dots> = - t1 * (\<Sum>k<50. von_karman_gap sp_gamma ?y k)"
    by (simp add: sum_distrib_left)
  finally show ?thesis using a b unfolding t1_def by blast
qed

lemma outer_scale_small:
  "0 \<le> (pi * 4 / 25)\<^sup>2" "(pi * 4 / 25)\<^sup>2 \<le> 41 / 100"
proof -
  have "pi * 4 / 25 \<le> 16 / 25" using pi_less_4 by simp
  moreover have "0 \<le> pi * 4 / 25" by simp
  ultimately have "(pi * 4 / 25)\<^sup>2 \<le> (16 / 25)\<^sup>2" by (rule power_mono)
  then show "(pi * 4 / 25)\<^sup>2 \<le> 41 / 100" by (simp add: power2_eq_square)
qed simp

section \<open>The least-squares solver\<close>

text \<open>
  C3, as the claim states it, fails in binary64. The steep session holds the realization
  \<open>[1, 1]\<close> and measures \<open>[2\<^sup>2\<^sup>8, 3]\<close> without noise. Its normal matrix is invertible and
  the solve in exact arithmetic returns \<open>[1, 1]\<close>. In binary64 the entry \<open>2\<^sup>5\<^sup>4 + 9\<close> of the
  normal matrix is stored as \<open>2\<^sup>5\<^sup>4 + 8\<close>; every other step of the solve is exact, and the
  estimate is \<open>[7/8, 9/8]\<close>, a relative error of \<open>1/8\<close> and not of \<open>10\<^sup>-\<^sup>8\<close>.
\<close>

theorem solveSVD_binary64_misses_realization:
  "aStack steep_session ''Original'' = Some [1, 1]
   \<and> generateWFS_binary64 steep_session = Inr (Some [268435456, 3])
   \<and> solveSVD_binary64 inv_small steep_session [268435456, 3] False
        = Inr (Some (store_estimate steep_session ''SVD'' [7 / 8, 9 / 8]))
   \<and> solveSVD inv_small steep_session [268435456, 3] False
        = Inr (store_estimate steep_session ''SVD'' [1, 1])"
  by (simp only: steep_fields steep_generateWFS steep_solveSVD steep_exact simp_thms)

text \<open>
  C3, amended. With no noise, the unregularized least-squares solve of the measurement
  \<open>MStack \<cdot> flatten(x)\<close> returns the realization \<open>x\<close> itself, whenever \<open>np.linalg.inv\<close>
  returns the inverse of the normal matrix: both the flat vector \<open>aStack['SVD']\<close> and the
  reshaped \<open>a['SVD']\<close> equal the forward session's \<open>Original\<close> entries. The forward
  session \<open>f\<close> and the inverting session \<open>s\<close> share the stacked matrix. This is the
  statement in exact arithmetic; it promises no error bound for the solve in binary64.
\<close>

theorem solveSVD_recovers_noiseless:
  assumes dims: "nZernike s = nZernike f" "nHeight s = nHeight f" "nStars s = nStars f"
    and Mf: "MStack f = Some A" and Ms: "MStack s = Some A"
    and shape: "has_shape A (nZernike f * nStars f) (nZernike f * nHeight f)"
    and orig: "self_a f ''Original'' = Some orig" "has_shape orig (nZernike f) (nHeight f)"
    and stacked: "aStack f ''Original'' = Some (flatten (transpose_mat (nHeight f) orig))"
    and inv: "linalg_inv (matmul (nZernike f * nHeight f) (transpose_mat (nZernike f * nHeight f) A) A)
                = Some AInv"
      "inverse_of (nZernike f * nHeight f) AInv
         (matmul (nZernike f * nHeight f) (transpose_mat (nZernike f * nHeight f) A) A)"
  shows "\<exists>b s'. generateWFS f = Inr b \<and> solveSVD linalg_inv s b False = Inr s'
           \<and> aStack s' ''SVD'' = aStack f ''Original''
           \<and> self_a s' ''SVD'' = self_a f ''Original''"
proof -
  let ?nZ = "nZernike f" and ?nH = "nHeight f" and ?nS = "nStars f"
  let ?n = "?nZ * ?nH" and ?m = "?nZ * ?nS"
  let ?At = "transpose_mat ?n A"
  let ?N = "matmul ?n ?At A"
  let ?x0 = "flatten (transpose_mat ?nH orig)"
  let ?b = "matvec A ?x0"
  have lA: "length A = ?m" using shape by (simp add: has_shape_def)
  have lorig: "length orig = ?nZ" using orig(2) by (simp add: has_shape_def)
  have oT: "has_shape (transpose_mat ?nH orig) ?nH ?nZ"
    using has_shape_transpose[of ?nH orig] lorig by simp
  have lx0: "length ?x0 = ?n" using length_flatten_shape[OF oT] by (simp add: mult.commute)
  have At: "has_shape ?At ?n ?m" using has_shape_transpose[of ?n A] lA by simp
  have N: "has_shape ?N ?n ?n" by (rule has_shape_matmul) simp
  have AInv: "has_shape AInv ?n ?n" and left: "matmul ?n AInv ?N = identity ?n"
    using inv(2) by (simp_all add: inverse_of_def)
  have wfs: "generateWFS f = Inr ?b"
    using Mf stacked shape lx0 by (simp add: generateWFS_def has_shape_def)
  have ninv: "normal_inverse linalg_inv s False = Inr AInv"
    using Ms inv(1) dims by (simp add: normal_inverse_def)
  have "matvec (matmul ?m AInv ?At) ?b = matvec AInv (matvec ?At ?b)"
    using AInv At by (rule matvec_matmul) (simp add: lA)
  also have "matvec ?At ?b = matvec ?N ?x0"
    using matvec_matmul[OF At shape lx0] by simp
  also have "matvec AInv (matvec ?N ?x0) = matvec (matmul ?n AInv ?N) ?x0"
    using matvec_matmul[OF AInv N lx0] by simp
  also have "\<dots> = ?x0" using left matvec_identity[OF lx0] by simp
  finally have x: "matvec (matmul ?m AInv ?At) ?b = ?x0" .
  have est: "transpose_mat ?nZ (reshape ?nH ?nZ ?x0) = orig"
    using reshape_flatten[OF oT] transpose_transpose[OF orig(2)] by simp
  have "solveSVD linalg_inv s ?b False = Inr (store_estimate s ''SVD'' ?x0)"
    using ninv Ms dims lA x lx0 by (simp add: solveSVD_def mult.commute)
  moreover have "aStack (store_estimate s ''SVD'' ?x0) ''SVD'' = aStack f ''Original''"
    using stacked by (simp add: store_estimate_def)
  moreover have "self_a (store_estimate s ''SVD'' ?x0) ''SVD'' = self_a f ''Original''"
    using orig(1) est dims by (simp add: store_estimate_def)
  ultimately show ?thesis using wfs by blast
qed

lemma demo_normal: "matmul 2 (transpose_mat 2 [[2, 0], [0, 1]]) [[2, 0], [0, 1::real]] = [[4, 0], [0, 1]]"
  by (simp add: array_eval)

theorem solveSVD_recovers_noiseless_witness:
  "MStack demo_session = Some [[2, 0], [0, 1]]
   \<and> has_shape [[2, 0], [0, 1]] (nZernike demo_session * nStars demo_session)
        (nZernike demo_session * nHeight demo_session)
   \<and> self_a demo_session ''Original'' = Some [[3, 5]]
   \<and> has_shape [[3, 5]] (nZernike demo_session) (nHeight demo_session)
   \<and> aStack demo_session ''Original'' = Some (flatten (transpose_mat (nHeight demo_session) [[3, 5]]))
   \<and> inverse_of 2 [[1 / 4, 0], [0, 1]] [[4, 0], [0, 1]]
   \<and> (\<exists>b s'. generateWFS demo_session = Inr b
         \<and> solveSVD inv_small demo_session b False = Inr s'
         \<and> aStack s' ''SVD'' = Some [3, 5]
         \<and> self_a s' ''SVD'' = Some [[3, 5]])"
proof -
  have n: "nZernike demo_session * nHeight demo_session = 2"
    and m: "nZernike demo_session * nStars demo_session = 2"
    by (simp_all add: demo_session_def)
  have M: "MStack demo_session = Some [[2, 0], [0, 1]]" by (simp add: demo_session_def)
  have shape: "has_shape [[2, 0], [0, 1]] (nZernike demo_session * nStars demo_session)
        (nZernike demo_session * nHeight demo_session)"
    unfolding n m by (simp add: has_shape_def)
  have orig: "self_a demo_session ''Original'' = Some [[3, 5]]"
    "has_shape [[3, 5]] (nZernike demo_session) (nHeight demo_session)"
    by (simp_all add: demo_session_def has_shape_def)
  have stacked: "aStack demo_session ''Original''
      = Some (flatten (transpose_mat (nHeight demo_session) [[3, 5]]))"
    by (simp add: demo_session_def array_eval)
  have inv1: "inv_small (matmul (nZernike demo_session * nHeight demo_session)
       (transpose_mat (nZernike demo_session * nHeight demo_session) [[2, 0], [0, 1]])
       [[2, 0], [0, 1]]) = Some [[1 / 4, 0], [0, 1]]"
    unfolding n demo_normal by simp
  have io: "inverse_of 2 [[1 / 4, 0], [0, 1]] [[4, 0], [0, 1]]"
    by (simp add: inverse_of_def array_eval)
  have inv2: "inverse_of (nZernike demo_session * nHeight demo_session) [[1 / 4, 0], [0, 1]]
       (matmul (nZernike demo_session * nHeight demo_session)
         (transpose_mat (nZernike demo_session * nHeight demo_session) [[2, 0], [0, 1]])
         [[2, 0], [0, 1]])"
    unfolding n demo_normal by (rule io)
  have "\<exists>b s'. generateWFS demo_session = Inr b
         \<and> solveSVD inv_small demo_session b False = Inr s'
         \<and> aStack s' ''SVD'' = aStack demo_session ''Original''
         \<and> self_a s' ''SVD'' = self_a demo_session ''Original''"
    using solveSVD_recovers_noiseless[where s = demo_session and f = demo_session
        and linalg_inv = inv_small, OF refl refl refl M M shape orig stacked inv1 inv2] .
  moreover have "aStack demo_session ''Original'' = Some [3, 5]" by (simp add: demo_session_def)
  ultimately show ?thesis using M shape orig stacked io by simp
qed

text \<open>
  C4. With \<open>regularize=True\<close> the solver stores the vector \<open>x\<close> with
  \<open>(M\<^sup>T M + C\<^sup>T C) x = M\<^sup>T b\<close>, where \<open>C\<close> is block diagonal with \<open>nHeight\<close> copies of
  the inverse of the covariance matrix, and the estimate is \<open>x\<close> reshaped to
  \<open>nZernike \<times> nHeight\<close> with the coefficient of mode \<open>p\<close> in layer \<open>l\<close> taken from
  position \<open>l * nZernike + p\<close>.
\<close>

theorem solveSVD_regularized:
  assumes M: "MStack s = Some A"
    and shape: "has_shape A (nZernike s * nStars s) (nZernike s * nHeight s)"
    and cv: "covariance s = Some cv"
    and ic: "linalg_inv cv = Some invCov" "inverse_of (nZernike s) invCov cv"
    and C: "C = block_diag (nZernike s) (replicate (nHeight s) invCov)"
    and N: "N = mat_add (matmul (nZernike s * nHeight s) (transpose_mat (nZernike s * nHeight s) A) A)
                        (matmul (nZernike s * nHeight s) (transpose_mat (nZernike s * nHeight s) C) C)"
    and inv: "linalg_inv N = Some AInv" "inverse_of (nZernike s * nHeight s) AInv N"
    and b: "length b = nZernike s * nStars s"
  shows "\<exists>x est. solveSVD linalg_inv s b True
             = Inr (s\<lparr>aStack := (aStack s)(''SVD'' \<mapsto> x), self_a := (self_a s)(''SVD'' \<mapsto> est)\<rparr>)
           \<and> matvec N x = matvec (transpose_mat (nZernike s * nHeight s) A) b
           \<and> (\<forall>l < nHeight s. \<forall>l' < nHeight s. \<forall>p < nZernike s. \<forall>q < nZernike s.
                 C ! (l * nZernike s + p) ! (l' * nZernike s + q)
                   = (if l = l' then invCov ! p ! q else 0))
           \<and> has_shape est (nZernike s) (nHeight s)
           \<and> (\<forall>p < nZernike s. \<forall>l < nHeight s. est ! p ! l = x ! (l * nZernike s + p))"
proof -
  let ?nZ = "nZernike s" and ?nH = "nHeight s" and ?nS = "nStars s"
  let ?n = "?nZ * ?nH" and ?m = "?nZ * ?nS"
  let ?At = "transpose_mat ?n A"
  let ?w = "matvec ?At b"
  let ?x = "matvec (matmul ?m AInv ?At) b"
  let ?est = "transpose_mat ?nZ (reshape ?nH ?nZ ?x)"
  have lA: "length A = ?m" using shape by (simp add: has_shape_def)
  have At: "has_shape ?At ?n ?m" using has_shape_transpose[of ?n A] lA by simp
  have blocks: "has_shape B ?nZ ?nZ" if "B \<in> set (replicate ?nH invCov)" for B
    using ic(2) that by (simp add: inverse_of_def)
  have Cs: "has_shape C ?n ?n"
    unfolding C using block_diag_shape[of "replicate ?nH invCov" ?nZ] blocks by simp
  have CtC: "has_shape (matmul ?n (transpose_mat ?n C) C) ?n ?n"
    by (rule has_shape_matmul) simp
  have AtA: "has_shape (matmul ?n ?At A) ?n ?n"
    by (rule has_shape_matmul) simp
  have Ns: "has_shape N ?n ?n" unfolding N using AtA CtC by (rule has_shape_mat_add)
  have AInv: "has_shape AInv ?n ?n" and right: "matmul ?n N AInv = identity ?n"
    using inv(2) by (simp_all add: inverse_of_def)
  have lAInv: "length AInv = ?n" using AInv by (simp add: has_shape_def)
  have lw: "length ?w = ?n" by simp
  have x: "?x = matvec AInv ?w"
    using AInv At b by (rule matvec_matmul)
  have "matvec N ?x = matvec (matmul ?n N AInv) ?w"
    unfolding x using matvec_matmul[OF Ns AInv lw] by simp
  also have "\<dots> = ?w" using right matvec_identity[OF lw] by simp
  finally have solves: "matvec N ?x = ?w" .
  have lx: "length ?x = ?nH * ?nZ" by (simp add: matmul_def lAInv mult.commute)
  have ninv: "normal_inverse linalg_inv s True = Inr AInv"
    using M cv ic(1) inv(1) C N by (simp add: normal_inverse_def Let_def)
  have run: "solveSVD linalg_inv s b True
     = Inr (s\<lparr>aStack := (aStack s)(''SVD'' \<mapsto> ?x), self_a := (self_a s)(''SVD'' \<mapsto> ?est)\<rparr>)"
    using ninv M b lx by (simp add: solveSVD_def store_estimate_def Let_def)
  have Centry: "C ! (l * ?nZ + p) ! (l' * ?nZ + q) = (if l = l' then invCov ! p ! q else 0)"
    if "l < ?nH" "l' < ?nH" "p < ?nZ" "q < ?nZ" for l l' p q
    unfolding C using block_diag_entry[of "replicate ?nH invCov" ?nZ l l' p q] blocks that by simp
  have layout: "?est ! p ! l = ?x ! (l * ?nZ + p)" if "p < ?nZ" "l < ?nH" for p l
    using reshape_layout[OF lx that(2,1)] .
  have est: "has_shape ?est ?nZ ?nH" by (rule has_shape_reshape_T)
  show ?thesis using run solves Centry layout est by blast
qed

lemma demo_block_diag: "block_diag 1 (replicate 2 [[1 / 2]]) = [[1 / 2, 0], [0, 1 / 2 :: real]]"
  by (simp add: numeral_2_eq_2)

lemma demo_regularized:
  "mat_add (matmul 2 (transpose_mat 2 [[2, 0], [0, 1]]) [[2, 0], [0, 1]])
           (matmul 2 (transpose_mat 2 [[1 / 2, 0], [0, 1 / 2]]) [[1 / 2, 0], [0, 1 / 2]])
     = [[17 / 4, 0], [0, 5 / 4 :: real]]"
  by (simp add: array_eval)

theorem solveSVD_regularized_witness:
  "MStack demo_session = Some [[2, 0], [0, 1]]
   \<and> has_shape [[2, 0], [0, 1]] (nZernike demo_session * nStars demo_session)
        (nZernike demo_session * nHeight demo_session)
   \<and> covariance demo_session = Some [[2]]
   \<and> inv_small [[2]] = Some [[1 / 2]]
   \<and> inverse_of (nZernike demo_session) [[1 / 2]] [[2]]
   \<and> inv_small [[17 / 4, 0], [0, 5 / 4]] = Some [[4 / 17, 0], [0, 4 / 5]]
   \<and> inverse_of (nZernike demo_session * nHeight demo_session)
        [[4 / 17, 0], [0, 4 / 5]] [[17 / 4, 0], [0, 5 / 4]]
   \<and> (\<exists>x est. solveSVD inv_small demo_session [6, 5] True
             = Inr (demo_session\<lparr>aStack := (aStack demo_session)(''SVD'' \<mapsto> x),
                                  self_a := (self_a demo_session)(''SVD'' \<mapsto> est)\<rparr>)
           \<and> matvec [[17 / 4, 0], [0, 5 / 4]] x = [12, 5]
           \<and> has_shape est 1 2
           \<and> est ! 0 ! 0 = x ! 0 \<and> est ! 0 ! 1 = x ! 1)"
proof -
  have nZ: "nZernike demo_session = 1" and nH: "nHeight demo_session = 2"
    and nS: "nStars demo_session = 2"
    by (simp_all add: demo_session_def)
  have M: "MStack demo_session = Some [[2, 0], [0, 1]]" by (simp add: demo_session_def)
  have shape: "has_shape [[2, 0], [0, 1]] (nZernike demo_session * nStars demo_session)
        (nZernike demo_session * nHeight demo_session)"
    unfolding nZ nH nS by (simp add: has_shape_def)
  have cv: "covariance demo_session = Some [[2]]" by (simp add: demo_session_def)
  have ic: "inv_small [[2]] = Some [[1 / 2]]" "inverse_of (nZernike demo_session) [[1 / 2]] [[2]]"
    unfolding nZ by (simp_all add: inverse_of_def array_eval)
  have C: "[[1 / 2, 0], [0, 1 / 2]]
      = block_diag (nZernike demo_session) (replicate (nHeight demo_session) [[1 / 2]])"
    unfolding nZ nH demo_block_diag ..
  have N: "[[17 / 4, 0], [0, 5 / 4]] =
     mat_add (matmul (nZernike demo_session * nHeight demo_session)
                (transpose_mat (nZernike demo_session * nHeight demo_session) [[2, 0], [0, 1]])
                [[2, 0], [0, 1]])
             (matmul (nZernike demo_session * nHeight demo_session)
                (transpose_mat (nZernike demo_session * nHeight demo_session)
                   [[1 / 2, 0], [0, 1 / 2]])
                [[1 / 2, 0], [0, 1 / 2]])"
    unfolding nZ nH by (simp add: demo_regularized)
  have inv: "inv_small [[17 / 4, 0], [0, 5 / 4]] = Some [[4 / 17, 0], [0, 4 / 5]]"
    "inverse_of (nZernike demo_session * nHeight demo_session)
        [[4 / 17, 0], [0, 4 / 5]] [[17 / 4, 0], [0, 5 / 4]]"
    unfolding nZ nH by (simp_all add: inverse_of_def array_eval)
  have b: "length [6, 5 :: real] = nZernike demo_session * nStars demo_session"
    unfolding nZ nS by simp
  have At: "matvec (transpose_mat (nZernike demo_session * nHeight demo_session) [[2, 0], [0, 1]])
      [6, 5] = [12, 5]"
    unfolding nZ nH by (simp add: array_eval)
  obtain x est where run: "solveSVD inv_small demo_session [6, 5] True
             = Inr (demo_session\<lparr>aStack := (aStack demo_session)(''SVD'' \<mapsto> x),
                                  self_a := (self_a demo_session)(''SVD'' \<mapsto> est)\<rparr>)"
    and solves: "matvec [[17 / 4, 0], [0, 5 / 4]] x
       = matvec (transpose_mat (nZernike demo_session * nHeight demo_session) [[2, 0], [0, 1]]) [6, 5]"
    and est: "has_shape est (nZernike demo_session) (nHeight demo_session)"
    and layout: "\<forall>p < nZernike demo_session. \<forall>l < nHeight demo_session.
        est ! p ! l = x ! (l * nZernike demo_session + p)"
    using solveSVD_regularized[where s = demo_session and linalg_inv = inv_small,
        OF M shape cv ic C N inv b] by blast
  have l: "est ! 0 ! 0 = x ! 0" "est ! 0 ! 1 = x ! 1"
    using layout unfolding nZ nH by simp_all
  have e: "matvec [[17 / 4, 0], [0, 5 / 4]] x = [12, 5]"
    using solves unfolding At .
  have est': "has_shape est 1 2" using est unfolding nZ nH .
  have ex: "\<exists>x est. solveSVD inv_small demo_session [6, 5] True
             = Inr (demo_session\<lparr>aStack := (aStack demo_session)(''SVD'' \<mapsto> x),
                                  self_a := (self_a demo_session)(''SVD'' \<mapsto> est)\<rparr>)
           \<and> matvec [[17 / 4, 0], [0, 5 / 4]] x = [12, 5]
           \<and> has_shape est 1 2
           \<and> est ! 0 ! 0 = x ! 0 \<and> est ! 0 ! 1 = x ! 1"
    using run e est' l by blast
  show ?thesis by (intro conjI; fact)
qed

section \<open>The covariance matrix\<close>

text \<open>
  C1. For a valid configuration (positive Fried parameter, outer scale and telescope
  diameter, modes whose degree and frequency have the same parity) both generators
  return a covariance matrix of shape \<open>nZernike \<times> nZernike\<close> whose entry \<open>[i, j]\<close> is
  exactly zero whenever the azimuthal frequencies of the two modes differ or \<open>i - j\<close> is
  odd.
\<close>

theorem covariance_selection_rule:
  assumes "0 < r0" "0 < L0" "0 < DTel s" "noll_parity nollIndices"
  shows "(\<exists>s' cov. generateTurbulentZernikesKolmogorov nollIndices sp_gamma multivariate_normal
                     s r0 keepOnly = Inr s'
            \<and> covariance s' = Some cov \<and> has_shape cov (nZernike s) (nZernike s)
            \<and> (\<forall>i < nZernike s. \<forall>j < nZernike s.
                  snd (nollIndices (i + noll0 s)) \<noteq> snd (nollIndices (j + noll0 s))
                    \<or> odd (int i - int j) \<longrightarrow> cov ! i ! j = 0))
       \<and> (\<exists>s' cov. generateTurbulentZernikesVonKarman nollIndices sp_gamma multivariate_normal
                     s r0 L0 = Inr s'
            \<and> covariance s' = Some cov \<and> has_shape cov (nZernike s) (nZernike s)
            \<and> (\<forall>i < nZernike s. \<forall>j < nZernike s.
                  snd (nollIndices (i + noll0 s)) \<noteq> snd (nollIndices (j + noll0 s))
                    \<or> odd (int i - int j) \<longrightarrow> cov ! i ! j = 0))"
proof (intro conjI)
  let ?n = "nZernike s"
  obtain cov where cov: "kolmogorov_covariance nollIndices sp_gamma s r0 = Inr cov"
    unfolding kolmogorov_covariance_def
    using cells_total[of "kolmogorov_cell nollIndices sp_gamma s r0" ?n]
      kolmogorov_cell_total[OF assms(1,3,4)] by blast
  note e = cells_entry[OF cov[unfolded kolmogorov_covariance_def]]
  have zero: "cov ! i ! j = 0"
    if "i < ?n" "j < ?n"
      "snd (nollIndices (i + noll0 s)) \<noteq> snd (nollIndices (j + noll0 s)) \<or> odd (int i - int j)"
    for i j
    using e(2)[OF that(1,2)] kolmogorov_cell_zero[OF that(3), of sp_gamma r0] by simp
  obtain s' where "generateTurbulentZernikesKolmogorov nollIndices sp_gamma multivariate_normal
       s r0 keepOnly = Inr s'" "covariance s' = Some cov"
    using cov by (simp add: generateTurbulentZernikesKolmogorov_def Let_def)
  then show "\<exists>s' cov. generateTurbulentZernikesKolmogorov nollIndices sp_gamma multivariate_normal
                     s r0 keepOnly = Inr s'
            \<and> covariance s' = Some cov \<and> has_shape cov ?n ?n
            \<and> (\<forall>i < ?n. \<forall>j < ?n.
                  snd (nollIndices (i + noll0 s)) \<noteq> snd (nollIndices (j + noll0 s))
                    \<or> odd (int i - int j) \<longrightarrow> cov ! i ! j = 0)"
    using e(1) zero by blast
next
  let ?n = "nZernike s"
  obtain cov where cov: "von_karman_covariance nollIndices sp_gamma s r0 L0 = Inr cov"
    unfolding von_karman_covariance_def
    using cells_total[of "von_karman_cell nollIndices sp_gamma s r0 L0" ?n]
      von_karman_cell_total[OF assms] by blast
  note e = cells_entry[OF cov[unfolded von_karman_covariance_def]]
  have zero: "cov ! i ! j = 0"
    if "i < ?n" "j < ?n"
      "snd (nollIndices (i + noll0 s)) \<noteq> snd (nollIndices (j + noll0 s)) \<or> odd (int i - int j)"
    for i j
    using e(2)[OF that(1,2)] von_karman_cell_zero[OF that(3), of sp_gamma r0 L0] by simp
  obtain s' where "generateTurbulentZernikesVonKarman nollIndices sp_gamma multivariate_normal
       s r0 L0 = Inr s'" "covariance s' = Some cov"
    using cov by (simp add: generateTurbulentZernikesVonKarman_def)
  then show "\<exists>s' cov. generateTurbulentZernikesVonKarman nollIndices sp_gamma multivariate_normal
                     s r0 L0 = Inr s'
            \<and> covariance s' = Some cov \<and> has_shape cov ?n ?n
            \<and> (\<forall>i < ?n. \<forall>j < ?n.
                  snd (nollIndices (i + noll0 s)) \<noteq> snd (nollIndices (j + noll0 s))
                    \<or> odd (int i - int j) \<longrightarrow> cov ! i ! j = 0)"
    using e(1) zero by blast
qed

theorem covariance_selection_rule_witness:
  "(0::real) < 15 / 100 \<and> (0::real) < 25 \<and> 0 < DTel (demo_session\<lparr>nZernike := 3\<rparr>)
   \<and> noll_parity noll_standard
   \<and> (\<exists>s' cov. generateTurbulentZernikesKolmogorov noll_standard euler_gamma diagonal_draw
                   (demo_session\<lparr>nZernike := 3\<rparr>) (15 / 100) None = Inr s'
          \<and> covariance s' = Some cov \<and> has_shape cov 3 3
          \<and> cov ! 0 ! 1 = 0 \<and> cov ! 1 ! 0 = 0 \<and> cov ! 0 ! 2 = 0 \<and> cov ! 2 ! 0 = 0
          \<and> cov ! 1 ! 2 = 0 \<and> cov ! 2 ! 1 = 0)
   \<and> (\<exists>s' cov. generateTurbulentZernikesVonKarman noll_standard euler_gamma diagonal_draw
                   (demo_session\<lparr>nZernike := 3\<rparr>) (15 / 100) 25 = Inr s'
          \<and> covariance s' = Some cov \<and> has_shape cov 3 3
          \<and> cov ! 0 ! 1 = 0 \<and> cov ! 1 ! 0 = 0 \<and> cov ! 0 ! 2 = 0 \<and> cov ! 2 ! 0 = 0
          \<and> cov ! 1 ! 2 = 0 \<and> cov ! 2 ! 1 = 0)"
proof -
  let ?s = "demo_session\<lparr>nZernike := 3\<rparr>"
  have r0: "(0::real) < 15 / 100" and L0: "(0::real) < 25" by simp_all
  have D: "0 < DTel ?s" by (simp add: demo_session_def)
  have nZ: "nZernike ?s = 3" and n0: "noll0 ?s = 2" by (simp_all add: demo_session_def)
  note rule = covariance_selection_rule[OF r0 L0 D noll_parity_standard,
      of euler_gamma diagonal_draw None, unfolded nZ n0]
  have m: "snd (noll_standard 2) = 1" "snd (noll_standard 3) = - 1" "snd (noll_standard 4) = 0"
    "snd (noll_standard (Suc (Suc 0))) = 1" "snd (noll_standard (Suc (Suc (Suc 0)))) = - 1"
    using noll_standard_values
    by (simp_all add: numeral_2_eq_2[symmetric] numeral_3_eq_3[symmetric])
  obtain s1 c1 where k: "generateTurbulentZernikesKolmogorov noll_standard euler_gamma diagonal_draw
        ?s (15 / 100) None = Inr s1" "covariance s1 = Some c1" "has_shape c1 3 3"
    and kz: "\<forall>i<3. \<forall>j<3. snd (noll_standard (i + 2)) \<noteq> snd (noll_standard (j + 2))
                 \<or> odd (int i - int j) \<longrightarrow> c1 ! i ! j = 0"
    using rule by blast
  obtain s2 c2 where v: "generateTurbulentZernikesVonKarman noll_standard euler_gamma diagonal_draw
        ?s (15 / 100) 25 = Inr s2" "covariance s2 = Some c2" "has_shape c2 3 3"
    and vz: "\<forall>i<3. \<forall>j<3. snd (noll_standard (i + 2)) \<noteq> snd (noll_standard (j + 2))
                 \<or> odd (int i - int j) \<longrightarrow> c2 ! i ! j = 0"
    using rule by blast
  have z1: "c1 ! 0 ! 1 = 0" "c1 ! 1 ! 0 = 0" "c1 ! 0 ! 2 = 0" "c1 ! 2 ! 0 = 0"
      "c1 ! 1 ! 2 = 0" "c1 ! 2 ! 1 = 0"
    using kz[rule_format, of 0 1] kz[rule_format, of 1 0] kz[rule_format, of 0 2]
      kz[rule_format, of 2 0] kz[rule_format, of 1 2] kz[rule_format, of 2 1] m
    by simp_all
  have z2: "c2 ! 0 ! 1 = 0" "c2 ! 1 ! 0 = 0" "c2 ! 0 ! 2 = 0" "c2 ! 2 ! 0 = 0"
      "c2 ! 1 ! 2 = 0" "c2 ! 2 ! 1 = 0"
    using vz[rule_format, of 0 1] vz[rule_format, of 1 0] vz[rule_format, of 0 2]
      vz[rule_format, of 2 0] vz[rule_format, of 1 2] vz[rule_format, of 2 1] m
    by simp_all
  have K: "\<exists>s' cov. generateTurbulentZernikesKolmogorov noll_standard euler_gamma diagonal_draw
                   ?s (15 / 100) None = Inr s'
          \<and> covariance s' = Some cov \<and> has_shape cov 3 3
          \<and> cov ! 0 ! 1 = 0 \<and> cov ! 1 ! 0 = 0 \<and> cov ! 0 ! 2 = 0 \<and> cov ! 2 ! 0 = 0
          \<and> cov ! 1 ! 2 = 0 \<and> cov ! 2 ! 1 = 0"
    using k z1 by blast
  have V: "\<exists>s' cov. generateTurbulentZernikesVonKarman noll_standard euler_gamma diagonal_draw
                   ?s (15 / 100) 25 = Inr s'
          \<and> covariance s' = Some cov \<and> has_shape cov 3 3
          \<and> cov ! 0 ! 1 = 0 \<and> cov ! 1 ! 0 = 0 \<and> cov ! 0 ! 2 = 0 \<and> cov ! 2 ! 0 = 0
          \<and> cov ! 1 ! 2 = 0 \<and> cov ! 2 ! 1 = 0"
    using v z2 by blast
  show ?thesis using r0 L0 D noll_parity_standard K V by (intro conjI)
qed

section \<open>The keep-list\<close>

lemma keep_layers_inv:
  assumes A: "has_shape A r c" and k: "k \<le> c"
  shows "has_shape (foldl (zero_layer s keepOnly) A [0..<k]) r c \<and>
     (\<forall>p < r. \<forall>i < c. foldl (zero_layer s keepOnly) A [0..<k] ! p ! i =
        (if i < k \<and> heights s ! i / 1000 \<notin> set keepOnly then 0 else A ! p ! i))"
  using k
proof (induction k)
  case 0
  then show ?case using A by simp
next
  case (Suc k)
  let ?P = "foldl (zero_layer s keepOnly) A [0..<k]"
  have IH: "has_shape ?P r c"
    and IHe: "\<And>p i. p < r \<Longrightarrow> i < c \<Longrightarrow> ?P ! p ! i =
        (if i < k \<and> heights s ! i / 1000 \<notin> set keepOnly then 0 else A ! p ! i)"
    using Suc by auto
  have step: "foldl (zero_layer s keepOnly) A [0..<Suc k] = zero_layer s keepOnly ?P k" by simp
  have lP: "length ?P = r" and rows: "\<And>p. p < r \<Longrightarrow> length (?P ! p) = c"
    using IH by (auto simp: has_shape_def list_all_length)
  show ?case unfolding step
  proof (intro conjI allI impI)
    show "has_shape (zero_layer s keepOnly ?P k) r c"
      using IH by (auto simp: zero_layer_def has_shape_def list_all_length)
  next
    fix p i assume p: "p < r" and i: "i < c"
    show "zero_layer s keepOnly ?P k ! p ! i =
        (if i < Suc k \<and> heights s ! i / 1000 \<notin> set keepOnly then 0 else A ! p ! i)"
      using IHe[OF p i] lP rows[OF p] p i
      by (auto simp: zero_layer_def nth_list_update less_Suc_eq)
  qed
qed

lemma keep_layers_entry:
  assumes "has_shape A r (nHeight s)" "p < r" "i < nHeight s"
  shows "keep_layers s keepOnly A ! p ! i = (if heights s ! i / 1000 \<notin> set keepOnly then 0 else A ! p ! i)"
  using keep_layers_inv[OF assms(1) le_refl, of s keepOnly] assms(2,3)
  by (simp add: keep_layers_def)

lemma keep_layers_shape:
  assumes "has_shape A r (nHeight s)"
  shows "has_shape (keep_layers s keepOnly A) r (nHeight s)"
  using keep_layers_inv[OF assms le_refl, of s keepOnly] by (simp add: keep_layers_def)

text \<open>
  C6. With a keep-list, the Kolmogorov generator stores a realization whose column of
  every layer with \<open>heights[i] / 1e3\<close> outside the list is zero, and whose column of
  every layer in the list is that layer's drawn sample. The draw is the array that
  \<open>multivariate_normal\<close> returns, of shape \<open>nHeight \<times> nZernike\<close>.
\<close>

theorem keep_list_zeroes_layers:
  assumes "0 < r0" "0 < DTel s" "noll_parity nollIndices"
    and hs: "length (heights s) = nHeight s"
    and draw: "\<forall>cov. has_shape cov (nZernike s) (nZernike s)
                 \<longrightarrow> has_shape (multivariate_normal cov (nHeight s)) (nHeight s) (nZernike s)"
  shows "\<exists>s' cov orig.
           generateTurbulentZernikesKolmogorov nollIndices sp_gamma multivariate_normal
             s r0 (Some keepOnly) = Inr s'
         \<and> covariance s' = Some cov
         \<and> self_a s' ''Original'' = Some orig
         \<and> has_shape orig (nZernike s) (nHeight s)
         \<and> (\<forall>i < nHeight s. \<forall>p < nZernike s.
               orig ! p ! i = (if heights s ! i / 1000 \<in> set keepOnly
                               then multivariate_normal cov (nHeight s) ! i ! p else 0))"
proof -
  let ?nZ = "nZernike s" and ?nH = "nHeight s"
  obtain cov where cov: "kolmogorov_covariance nollIndices sp_gamma s r0 = Inr cov"
    unfolding kolmogorov_covariance_def
    using cells_total[of "kolmogorov_cell nollIndices sp_gamma s r0" ?nZ]
      kolmogorov_cell_total[OF assms(1,2,3)] by blast
  let ?sample = "multivariate_normal cov ?nH"
  let ?drawn = "transpose_mat ?nZ ?sample"
  let ?orig = "keep_layers s keepOnly ?drawn"
  have "has_shape cov ?nZ ?nZ"
    using cells_entry(1)[OF cov[unfolded kolmogorov_covariance_def]] .
  then have sample: "has_shape ?sample ?nH ?nZ" using draw by blast
  have ls: "length ?sample = ?nH" using sample by (simp add: has_shape_def)
  have drawn: "has_shape ?drawn ?nZ ?nH" using has_shape_transpose[of ?nZ ?sample] ls by simp
  have run: "generateTurbulentZernikesKolmogorov nollIndices sp_gamma multivariate_normal
             s r0 (Some keepOnly) = Inr (store_original s cov ?orig)"
    using cov by (simp add: generateTurbulentZernikesKolmogorov_def)
  have entry: "?orig ! p ! i = (if heights s ! i / 1000 \<in> set keepOnly then ?sample ! i ! p else 0)"
    if "i < ?nH" "p < ?nZ" for i p
    using keep_layers_entry[OF drawn that(2,1), of keepOnly] that ls
    by (simp add: nth_transpose)
  have "self_a (store_original s cov ?orig) ''Original'' = Some ?orig"
    by (simp add: store_original_def)
  then show ?thesis
    using run keep_layers_shape[OF drawn] entry store_original_covariance by blast
qed

lemma diagonal_draw_shape: "length cov = n \<Longrightarrow> has_shape (diagonal_draw cov k) k n"
  by (simp add: diagonal_draw_def has_shape_def list_all_length)


theorem keep_list_zeroes_layers_witness:
  "(0::real) < 15 / 100 \<and> 0 < DTel demo_session \<and> noll_parity noll_standard
   \<and> length (heights demo_session) = nHeight demo_session
   \<and> (\<exists>s' cov orig.
           generateTurbulentZernikesKolmogorov noll_standard euler_gamma diagonal_draw
             demo_session (15 / 100) (Some [4]) = Inr s'
         \<and> covariance s' = Some cov
         \<and> self_a s' ''Original'' = Some orig
         \<and> has_shape orig 1 2
         \<and> orig ! 0 ! 0 = 0
         \<and> orig ! 0 ! 1 = diagonal_draw cov 2 ! 1 ! 0)"
proof -
  have r0: "(0::real) < 15 / 100" by simp
  have D: "0 < DTel demo_session" by (simp add: demo_session_def)
  have hs: "length (heights demo_session) = nHeight demo_session" by (simp add: demo_session_def)
  have nZ: "nZernike demo_session = 1" and nH: "nHeight demo_session = 2"
    and h: "heights demo_session = [0, 4000]"
    by (simp_all add: demo_session_def)
  have draw: "\<forall>cov. has_shape cov (nZernike demo_session) (nZernike demo_session)
      \<longrightarrow> has_shape (diagonal_draw cov (nHeight demo_session))
            (nHeight demo_session) (nZernike demo_session)"
  proof (intro allI impI)
    fix cov assume "has_shape cov (nZernike demo_session) (nZernike demo_session)"
    then have "length cov = nZernike demo_session" by (simp add: has_shape_def)
    then show "has_shape (diagonal_draw cov (nHeight demo_session))
            (nHeight demo_session) (nZernike demo_session)"
      by (rule diagonal_draw_shape)
  qed
  note th = keep_list_zeroes_layers[where multivariate_normal = diagonal_draw
        and sp_gamma = euler_gamma and keepOnly = "[4]", OF r0 D noll_parity_standard hs draw,
        unfolded nZ nH h]
  obtain s' cov orig where run: "generateTurbulentZernikesKolmogorov noll_standard euler_gamma
        diagonal_draw demo_session (15 / 100) (Some [4]) = Inr s'"
      "covariance s' = Some cov" "self_a s' ''Original'' = Some orig" "has_shape orig 1 2"
    and e: "\<forall>i<2. \<forall>p<1. orig ! p ! i =
        (if [0, 4000::real] ! i / 1000 \<in> set [4] then diagonal_draw cov 2 ! i ! p else 0)"
    using th by blast
  have "orig ! 0 ! 0 = 0" "orig ! 0 ! 1 = diagonal_draw cov 2 ! 1 ! 0"
    using e[rule_format, of 0 0] e[rule_format, of 1 0] by simp_all
  then have "\<exists>s' cov orig.
           generateTurbulentZernikesKolmogorov noll_standard euler_gamma diagonal_draw
             demo_session (15 / 100) (Some [4]) = Inr s'
         \<and> covariance s' = Some cov
         \<and> self_a s' ''Original'' = Some orig
         \<and> has_shape orig 1 2
         \<and> orig ! 0 ! 0 = 0
         \<and> orig ! 0 ! 1 = diagonal_draw cov 2 ! 1 ! 0"
    using run by blast
  then show ?thesis using r0 D noll_parity_standard hs by (intro conjI)
qed

section \<open>The sparse solver\<close>

text \<open>
  C8. \<open>solveFASTA\<close> hands \<open>fasta\<close> the step size \<open>tau = 1.32 / L\<close> with
  \<open>L = np.linalg.norm(MStack, 2)\<^sup>2\<close>, the squared matrix 2-norm of the stacked matrix
  (not a real number when \<open>L = 0\<close>), and stores what \<open>fasta\<close> returns for these arguments.
\<close>

theorem sparse_solver_step_size:
  assumes "MStack s = Some A" "aStack s ''Original'' = Some orig"
    and "call = fasta_arguments prox_l1 A (transpose_mat (nZernike s * nHeight s) A) b
                  ((norm_2 A)\<^sup>2) (1 / 10 ^ 5) (replicate (length orig) 0)"
  shows "tau call = (if norm_2 A = 0 then None else Some (1.32 / (norm_2 A)\<^sup>2))
       \<and> solveFASTA norm_2 prox_l1 fasta s b =
           (if length (fasta call) \<noteq> nHeight s * nZernike s then Inl ValueError
            else Inr (store_estimate
                  (s\<lparr>MStackStar := Some (transpose_mat (nZernike s * nHeight s) A),
                     mu := Some (1 / 10 ^ 5)\<rparr>) ''L1'' (fasta call)))"
proof
  show "tau call = (if norm_2 A = 0 then None else Some (1.32 / (norm_2 A)\<^sup>2))"
    unfolding assms(3) by (simp add: fasta_arguments_def np_div_def)
  show "solveFASTA norm_2 prox_l1 fasta s b =
           (if length (fasta call) \<noteq> nHeight s * nZernike s then Inl ValueError
            else Inr (store_estimate
                  (s\<lparr>MStackStar := Some (transpose_mat (nZernike s * nHeight s) A),
                     mu := Some (1 / 10 ^ 5)\<rparr>) ''L1'' (fasta call)))"
    unfolding assms(3) using solveFASTA_run[OF assms(1,2)] .
qed

theorem sparse_solver_step_size_witness:
  "MStack demo_session = Some [[2, 0], [0, 1]]
   \<and> aStack demo_session ''Original'' = Some [3, 5]
   \<and> tau (fasta_arguments soft_threshold [[2, 0], [0, 1]]
            (transpose_mat (nZernike demo_session * nHeight demo_session) [[2, 0], [0, 1]]) [6, 5]
            ((spectral_norm [[2, 0], [0, 1]])\<^sup>2) (1 / 10 ^ 5) (replicate (length [3, 5 :: real]) 0))
       = (if spectral_norm [[2, 0], [0, 1]] = 0 then None
          else Some (1.32 / (spectral_norm [[2, 0], [0, 1]])\<^sup>2))"
proof -
  have M: "MStack demo_session = Some [[2, 0], [0, 1]]"
    and orig: "aStack demo_session ''Original'' = Some [3, 5]"
    by (simp_all add: demo_session_def)
  show ?thesis
    using M orig sparse_solver_step_size[OF M orig refl, of soft_threshold "[6, 5]" spectral_norm]
    by blast
qed

section \<open>What a solve call writes\<close>

text \<open>
  C10, as the claim states it, fails for \<open>solveFASTA\<close>: on the small session it also
  sets the fields \<open>mu\<close> and \<open>MStackStar\<close>, which were unset before.
\<close>

theorem solveFASTA_writes_mu:
  "solveFASTA spectral_norm soft_threshold proximal_gradient demo_session [6, 5]
     = Inr demo_l1_result
   \<and> mu demo_session = None \<and> mu demo_l1_result = Some (1 / 10 ^ 5)
   \<and> MStackStar demo_session = None \<and> MStackStar demo_l1_result = Some [[2, 0], [0, 1]]"
  using demo_solveFASTA
  by (simp add: demo_l1_result_def store_estimate_def demo_session_def)

text \<open>
  C10, amended. \<open>solveSVD\<close> changes nothing but the entries \<open>aStack['SVD']\<close> and
  \<open>a['SVD']\<close>. \<open>solveFASTA\<close> changes the entries \<open>aStack['L1']\<close> and \<open>a['L1']\<close> and the
  two fields \<open>mu\<close> (set to \<open>1e-5\<close>) and \<open>MStackStar\<close> (set to the transpose of \<open>MStack\<close>),
  and nothing else. Either way the stacked matrix, the covariance and the \<open>Original\<close>
  realization stay as they were.
\<close>

theorem solve_frame:
  "(solveSVD linalg_inv s b regularize = Inr s' \<longrightarrow>
      (\<exists>x est. s' = s\<lparr>aStack := (aStack s)(''SVD'' \<mapsto> x),
                       self_a := (self_a s)(''SVD'' \<mapsto> est)\<rparr>)
      \<and> MStack s' = MStack s \<and> covariance s' = covariance s
      \<and> aStack s' ''Original'' = aStack s ''Original''
      \<and> self_a s' ''Original'' = self_a s ''Original'')
   \<and> (solveFASTA norm_2 prox_l1 fasta s b = Inr s'' \<longrightarrow>
      (\<exists>x est A. MStack s = Some A \<and>
          s'' = s\<lparr>aStack := (aStack s)(''L1'' \<mapsto> x),
                  self_a := (self_a s)(''L1'' \<mapsto> est),
                  mu := Some (1 / 10 ^ 5),
                  MStackStar := Some (transpose_mat (nZernike s * nHeight s) A)\<rparr>)
      \<and> MStack s'' = MStack s \<and> covariance s'' = covariance s
      \<and> aStack s'' ''Original'' = aStack s ''Original''
      \<and> self_a s'' ''Original'' = self_a s ''Original'')"
proof (intro conjI impI)
  assume "solveSVD linalg_inv s b regularize = Inr s'"
  then obtain x where s': "s' = store_estimate s ''SVD'' x" using solveSVD_Inr by blast
  show "\<exists>x est. s' = s\<lparr>aStack := (aStack s)(''SVD'' \<mapsto> x),
                       self_a := (self_a s)(''SVD'' \<mapsto> est)\<rparr>"
    unfolding s' store_estimate_def by blast
  show "MStack s' = MStack s" "covariance s' = covariance s"
    "aStack s' ''Original'' = aStack s ''Original''"
    "self_a s' ''Original'' = self_a s ''Original''"
    unfolding s' by (simp_all add: store_estimate_def)
next
  assume "solveFASTA norm_2 prox_l1 fasta s b = Inr s''"
  then obtain x A where A: "MStack s = Some A" and s'': "s'' = store_estimate
           (s\<lparr>MStackStar := Some (transpose_mat (nZernike s * nHeight s) A),
              mu := Some (1 / 10 ^ 5)\<rparr>) ''L1'' x"
    using solveFASTA_Inr by blast
  have "s'' = s\<lparr>aStack := (aStack s)(''L1'' \<mapsto> x),
                  self_a := (self_a s)(''L1'' \<mapsto>
                     transpose_mat (nZernike s) (reshape (nHeight s) (nZernike s) x)),
                  mu := Some (1 / 10 ^ 5),
                  MStackStar := Some (transpose_mat (nZernike s * nHeight s) A)\<rparr>"
    unfolding s'' by (simp add: store_estimate_def)
  then show "\<exists>x est A. MStack s = Some A \<and>
          s'' = s\<lparr>aStack := (aStack s)(''L1'' \<mapsto> x),
                  self_a := (self_a s)(''L1'' \<mapsto> est),
                  mu := Some (1 / 10 ^ 5),
                  MStackStar := Some (transpose_mat (nZernike s * nHeight s) A)\<rparr>"
    using A by blast
  show "MStack s'' = MStack s" "covariance s'' = covariance s"
    "aStack s'' ''Original'' = aStack s ''Original''"
    "self_a s'' ''Original'' = self_a s ''Original''"
    unfolding s'' by (simp_all add: store_estimate_def)
qed

theorem solve_frame_witness:
  "solveSVD inv_small demo_session [6, 5] False = Inr demo_svd_result
   \<and> solveFASTA spectral_norm soft_threshold proximal_gradient demo_session [6, 5]
       = Inr demo_l1_result
   \<and> MStack demo_svd_result = MStack demo_session
   \<and> covariance demo_svd_result = covariance demo_session
   \<and> aStack demo_svd_result ''Original'' = aStack demo_session ''Original''
   \<and> self_a demo_svd_result ''Original'' = self_a demo_session ''Original''
   \<and> MStack demo_l1_result = MStack demo_session
   \<and> covariance demo_l1_result = covariance demo_session
   \<and> aStack demo_l1_result ''Original'' = aStack demo_session ''Original''
   \<and> self_a demo_l1_result ''Original'' = self_a demo_session ''Original''"
  using demo_solveSVD demo_solveFASTA
    solve_frame[of inv_small demo_session "[6, 5]" False demo_svd_result
      spectral_norm soft_threshold proximal_gradient demo_l1_result]
  by blast

section \<open>Parameters that are not positive\<close>

text \<open>
  C7, as the claim states it, fails: with a telescope diameter of zero the Kolmogorov
  generator returns a covariance matrix, all zeros, and stores a realization.
\<close>

theorem zero_diameter_returns_covariance:
  "generateTurbulentZernikesKolmogorov noll_standard euler_gamma diagonal_draw
     (demo_session\<lparr>DTel := 0\<rparr>) (15 / 100) None
     = Inr (store_original (demo_session\<lparr>DTel := 0\<rparr>) [[0]] [[0, 0]])"
proof -
  have "kolmogorov_covariance noll_standard euler_gamma (demo_session\<lparr>DTel := 0\<rparr>) (15 / 100)
      = Inr (zeros (nZernike (demo_session\<lparr>DTel := 0\<rparr>)) (nZernike (demo_session\<lparr>DTel := 0\<rparr>)))"
    by (rule kolmogorov_covariance_no_diameter) (simp_all add: noll_parity_standard)
  then have "kolmogorov_covariance noll_standard euler_gamma (demo_session\<lparr>DTel := 0\<rparr>) (15 / 100)
      = Inr [[0]]"
    by (simp add: demo_session_def zeros_def)
  moreover have "transpose_mat (nZernike (demo_session\<lparr>DTel := 0\<rparr>))
      (diagonal_draw [[0]] (nHeight (demo_session\<lparr>DTel := 0\<rparr>))) = [[0, 0]]"
    by (simp add: demo_session_def diagonal_draw_def transpose_mat_def col_def upt_conv_Cons)
  ultimately show ?thesis
    by (simp add: generateTurbulentZernikesKolmogorov_def)
qed

text \<open>
  C7, amended. The generators check no parameter. With a Fried parameter of zero and at
  least one mode both raise \<open>ZeroDivisionError\<close>, from \<open>DTel / r0\<close> in the first cell.
  With a telescope diameter of zero and a Fried parameter other than zero the
  Kolmogorov generator returns the all-zero covariance matrix.
\<close>

theorem covariance_without_validation:
  "(0 < nZernike s \<longrightarrow>
      generateTurbulentZernikesKolmogorov nollIndices sp_gamma multivariate_normal s 0 keepOnly
        = Inl ZeroDivisionError
      \<and> generateTurbulentZernikesVonKarman nollIndices sp_gamma multivariate_normal s 0 L0
        = Inl ZeroDivisionError)
   \<and> (DTel s = 0 \<and> r0 \<noteq> 0 \<and> noll_parity nollIndices \<longrightarrow>
      (\<exists>s'. generateTurbulentZernikesKolmogorov nollIndices sp_gamma multivariate_normal s r0 keepOnly
               = Inr s'
            \<and> covariance s' = Some (zeros (nZernike s) (nZernike s))))"
proof (intro conjI impI)
  assume n: "0 < nZernike s"
  have "kolmogorov_covariance nollIndices sp_gamma s 0 = Inl ZeroDivisionError"
    unfolding kolmogorov_covariance_def
    using kolmogorov_cell_zero_fried n by (rule first_cell_raises)
  then show "generateTurbulentZernikesKolmogorov nollIndices sp_gamma multivariate_normal s 0 keepOnly
        = Inl ZeroDivisionError"
    by (simp add: generateTurbulentZernikesKolmogorov_def)
  have "von_karman_covariance nollIndices sp_gamma s 0 L0 = Inl ZeroDivisionError"
    unfolding von_karman_covariance_def
    using von_karman_cell_zero_fried n by (rule first_cell_raises)
  then show "generateTurbulentZernikesVonKarman nollIndices sp_gamma multivariate_normal s 0 L0
        = Inl ZeroDivisionError"
    by (simp add: generateTurbulentZernikesVonKarman_def)
next
  assume "DTel s = 0 \<and> r0 \<noteq> 0 \<and> noll_parity nollIndices"
  then have "kolmogorov_covariance nollIndices sp_gamma s r0
      = Inr (zeros (nZernike s) (nZernike s))"
    using kolmogorov_covariance_no_diameter by blast
  then show "\<exists>s'. generateTurbulentZernikesKolmogorov nollIndices sp_gamma multivariate_normal s r0 keepOnly
               = Inr s'
            \<and> covariance s' = Some (zeros (nZernike s) (nZernike s))"
    by (simp add: generateTurbulentZernikesKolmogorov_def Let_def)
qed

theorem covariance_without_validation_witness:
  "0 < nZernike demo_session
   \<and> generateTurbulentZernikesKolmogorov noll_standard euler_gamma diagonal_draw demo_session 0 None
        = Inl ZeroDivisionError
   \<and> generateTurbulentZernikesVonKarman noll_standard euler_gamma diagonal_draw demo_session 0 25
        = Inl ZeroDivisionError
   \<and> DTel (demo_session\<lparr>DTel := 0\<rparr>) = 0 \<and> (15 / 100 :: real) \<noteq> 0 \<and> noll_parity noll_standard
   \<and> (\<exists>s'. generateTurbulentZernikesKolmogorov noll_standard euler_gamma diagonal_draw
               (demo_session\<lparr>DTel := 0\<rparr>) (15 / 100) None = Inr s'
            \<and> covariance s' = Some [[0]])"
proof -
  have n: "0 < nZernike demo_session" by (simp add: demo_session_def)
  have D: "DTel (demo_session\<lparr>DTel := 0\<rparr>) = 0" by simp
  have r: "(15 / 100 :: real) \<noteq> 0" by simp
  have z: "zeros (nZernike (demo_session\<lparr>DTel := 0\<rparr>)) (nZernike (demo_session\<lparr>DTel := 0\<rparr>)) = [[0]]"
    by (simp add: demo_session_def zeros_def)
  have a: "generateTurbulentZernikesKolmogorov noll_standard euler_gamma diagonal_draw demo_session 0 None
        = Inl ZeroDivisionError
    \<and> generateTurbulentZernikesVonKarman noll_standard euler_gamma diagonal_draw demo_session 0 25
        = Inl ZeroDivisionError"
    using covariance_without_validation[of demo_session noll_standard euler_gamma diagonal_draw
        None 25 0] n by blast
  have b: "\<exists>s'. generateTurbulentZernikesKolmogorov noll_standard euler_gamma diagonal_draw
               (demo_session\<lparr>DTel := 0\<rparr>) (15 / 100) None = Inr s'
            \<and> covariance s' = Some [[0]]"
    using covariance_without_validation[of "demo_session\<lparr>DTel := 0\<rparr>" noll_standard euler_gamma
        diagonal_draw None 25 "15 / 100"] D r noll_parity_standard unfolding z by blast
  show ?thesis using n a D r noll_parity_standard b by (intro conjI) blast+
qed

section \<open>Reusing a stored tensor\<close>

lemma demo_indices: "height_indices [0, 2000, 4000] [0, 4000] = [0, 2]"
  by (simp add: height_indices_def upt_conv_Cons)

lemma demo_slice: "slice_tensor (arr_0 demo_npz) 1 [0, 2] = demo_M"
  by (simp add: slice_tensor_def demo_npz_def demo_M_def)

lemma demo_stack: "stack_blocks 1 2 2 demo_M = [[2, 0], [0, 1]]"
  by (simp add: stack_blocks_def stack_height_def stack_star_def set_block_def tensor_block_def
      zeros_def demo_M_def upt_conv_Cons numeral_2_eq_2)

text \<open>
  C9. A stored file covers the request as a superset, so \<open>projectionExists\<close> takes the
  slice and \<open>computeProjection\<close> is not called. With \<open>verbose=False\<close> the session is left
  with the sliced \<open>M\<close> and no stacked matrix, since \<open>stackProjection\<close> is called inside
  \<open>if (self.verbose)\<close>; with \<open>verbose=True\<close> the same request gets its stacked matrix.
\<close>

theorem cache_hit_without_verbose:
  "assembled (init identity_projection [demo_npz] 2 1 60 [0, 4] 4 False True False)
     = Inr (Some demo_M, None, False, [demo_npz])
   \<and> assembled (init identity_projection [demo_npz] 2 1 60 [0, 4] 4 True True False)
     = Inr (Some demo_M, Some [[2, 0], [0, 1]], True, [demo_npz])"
proof -
  have f: "arr_1 demo_npz = [0, 2000, 4000]" "arr_2 demo_npz = 2" "arr_3 demo_npz = 2"
    "arr_4 demo_npz = 60 / 206265" "arr_5 demo_npz = 4"
    by (simp_all add: demo_npz_def)
  have s1: "slice_tensor (arr_0 demo_npz) (Suc 0) [0, 2] = demo_M"
    using demo_slice by simp
  have s2: "stack_blocks (Suc 0) (Suc (Suc 0)) 2 demo_M = [[2, 0], [0, 1]]"
    using demo_stack by (simp add: numeral_2_eq_2)
  show ?thesis
    by (simp add: assembled_def init_def new_session_def Let_def f demo_indices s1 s2
        stackProjection_def)
qed

section \<open>Symmetry of the covariance matrix\<close>

text \<open>
  C2. The von Karman generator returns a matrix that is not symmetric: with seven modes
  (Noll indices 2 to 8), a telescope of 4 m, \<open>r0 = 0.15\<close> and \<open>L0 = 25\<close> the entries
  \<open>[0, 6]\<close> and \<open>[6, 0]\<close> differ. Both belong to the modes of degrees 1 and 3 with
  frequency 1; \<open>t5\<close> takes \<open>gamma(0.5*(ni-nj)+17/6+k)\<close> twice, where the Kolmogorov entry
  has one factor in \<open>ni - nj\<close> and one in \<open>nj - ni\<close>. The gamma function is the Gamma
  function itself.
\<close>

theorem von_karman_not_symmetric:
  "\<exists>s' cov. generateTurbulentZernikesVonKarman noll_standard euler_gamma diagonal_draw
               (demo_session\<lparr>nZernike := 7\<rparr>) (15 / 100) 25 = Inr s'
           \<and> covariance s' = Some cov \<and> cov ! 0 ! 6 \<noteq> cov ! 6 ! 0"
proof -
  let ?s = "demo_session\<lparr>nZernike := 7\<rparr>"
  have r0: "(0::real) < 15 / 100" and L0: "(0::real) < 25" by simp_all
  have D: "DTel ?s = 4" and n0: "noll0 ?s = 2" and nZ: "nZernike ?s = 7"
    by (simp_all add: demo_session_def)
  have Dpos: "0 < DTel ?s" by (simp add: D)
  obtain cov where cov: "von_karman_covariance noll_standard euler_gamma ?s (15 / 100) 25 = Inr cov"
    unfolding von_karman_covariance_def
    using cells_total[of "von_karman_cell noll_standard euler_gamma ?s (15 / 100) 25" "nZernike ?s"]
      von_karman_cell_total[OF r0 L0 Dpos noll_parity_standard] by blast
  note e = cells_entry(2)[OF cov[unfolded von_karman_covariance_def], unfolded nZ]
  have c06: "von_karman_cell noll_standard euler_gamma ?s (15 / 100) 25 0 6 = Inr (cov ! 0 ! 6)"
    and c60: "von_karman_cell noll_standard euler_gamma ?s (15 / 100) 25 6 0 = Inr (cov ! 6 ! 0)"
    using e[of 0 6] e[of 6 0] by simp_all
  have sums: "(0::nat) + 2 = 2" "(6::nat) + 2 = 8" by simp_all
  have n2: "noll_standard (0 + 2) = (1, 1)" "noll_standard (6 + 2) = (3, 1)"
    unfolding sums by (rule noll_standard_values)+
  have v06: "von_karman_cell noll_standard euler_gamma ?s (15 / 100) 25 0 6
      = von_karman_value euler_gamma 4 (15 / 100) 25 1 3 1"
    unfolding von_karman_cell_def n0 D n2
    by (simp add: even_mod_def)
  have v60: "von_karman_cell noll_standard euler_gamma ?s (15 / 100) 25 6 0
      = von_karman_value euler_gamma 4 (15 / 100) 25 3 1 1"
    unfolding von_karman_cell_def n0 D n2
    by (simp add: even_mod_def)
  obtain a b where a: "von_karman_value euler_gamma 4 (15 / 100) 25 1 3 1 = Inr a"
    and b: "von_karman_value euler_gamma 4 (15 / 100) 25 3 1 1 = Inr b"
    and d: "a - b = - (sqrt 8 * pi powr (8 / 3) * 1.16 * (4 / (15 / 100)) powr (5 / 3))
                        * (\<Sum>k<50. von_karman_gap euler_gamma ((pi * 4 / 25)\<^sup>2) k)"
    using von_karman_value_gap[OF r0 L0, of 4 euler_gamma] by auto
  have "0 < (\<Sum>k<Suc 49. von_karman_gap euler_gamma ((pi * 4 / 25)\<^sup>2) k)"
    using outer_scale_small by (rule von_karman_gap_sum)
  then have gap: "0 < (\<Sum>k<50. von_karman_gap euler_gamma ((pi * 4 / 25)\<^sup>2) k)" by simp
  have t1: "0 < sqrt 8 * pi powr (8 / 3) * 1.16 * (4 / (15 / 100)) powr (5 / 3)"
    by (simp add: mult_pos_pos)
  have "a - b < 0" unfolding d using gap t1 by (simp add: mult_pos_pos)
  then have "a \<noteq> b" by simp
  then have ne: "cov ! 0 ! 6 \<noteq> cov ! 6 ! 0"
    using c06 c60 v06 v60 a b by simp
  have "generateTurbulentZernikesVonKarman noll_standard euler_gamma diagonal_draw ?s (15 / 100) 25
      = Inr (store_original ?s cov (transpose_mat (nZernike ?s) (diagonal_draw cov (nHeight ?s))))"
    using cov by (simp add: generateTurbulentZernikesVonKarman_def)
  then show ?thesis using ne store_original_covariance by blast
qed

section \<open>Further properties\<close>

text \<open>
  The Kolmogorov covariance matrix is symmetric: for a valid configuration the generator
  returns a matrix with \<open>cov[i][j] = cov[j][i]\<close> for all modes, whatever function stands
  for \<open>scipy.special.gamma\<close>.
\<close>

theorem kolmogorov_covariance_symmetric:
  assumes "0 < r0" "0 < DTel s" "noll_parity nollIndices"
  shows "\<exists>s' cov. generateTurbulentZernikesKolmogorov nollIndices sp_gamma multivariate_normal
                     s r0 keepOnly = Inr s'
            \<and> covariance s' = Some cov
            \<and> (\<forall>i < nZernike s. \<forall>j < nZernike s. cov ! i ! j = cov ! j ! i)"
proof -
  let ?n = "nZernike s"
  obtain cov where cov: "kolmogorov_covariance nollIndices sp_gamma s r0 = Inr cov"
    unfolding kolmogorov_covariance_def
    using cells_total[of "kolmogorov_cell nollIndices sp_gamma s r0" ?n]
      kolmogorov_cell_total[OF assms] by blast
  note e = cells_entry(2)[OF cov[unfolded kolmogorov_covariance_def]]
  have sym: "cov ! i ! j = cov ! j ! i" if "i < ?n" "j < ?n" for i j
    using e[OF that] e[OF that(2,1)] kolmogorov_cell_commute[of nollIndices sp_gamma s r0 i j]
    by simp
  have "generateTurbulentZernikesKolmogorov nollIndices sp_gamma multivariate_normal s r0 keepOnly
      = Inr (store_original s cov
               (case keepOnly of None \<Rightarrow> transpose_mat ?n (multivariate_normal cov (nHeight s))
                | Some ks \<Rightarrow> keep_layers s ks
                              (transpose_mat ?n (multivariate_normal cov (nHeight s)))))"
    using cov by (simp add: generateTurbulentZernikesKolmogorov_def Let_def)
  then show ?thesis using sym store_original_covariance by blast
qed

theorem kolmogorov_covariance_symmetric_witness:
  "(0::real) < 15 / 100 \<and> 0 < DTel (demo_session\<lparr>nZernike := 7\<rparr>) \<and> noll_parity noll_standard
   \<and> (\<exists>s' cov. generateTurbulentZernikesKolmogorov noll_standard euler_gamma diagonal_draw
                   (demo_session\<lparr>nZernike := 7\<rparr>) (15 / 100) None = Inr s'
          \<and> covariance s' = Some cov \<and> cov ! 0 ! 6 = cov ! 6 ! 0)"
proof -
  let ?s = "demo_session\<lparr>nZernike := 7\<rparr>"
  have r0: "(0::real) < 15 / 100" by simp
  have D: "0 < DTel ?s" by (simp add: demo_session_def)
  have nZ: "nZernike ?s = 7" by (simp add: demo_session_def)
  obtain s' cov where run: "generateTurbulentZernikesKolmogorov noll_standard euler_gamma
        diagonal_draw ?s (15 / 100) None = Inr s'" "covariance s' = Some cov"
    and sym: "\<forall>i<7. \<forall>j<7. cov ! i ! j = cov ! j ! i"
    using kolmogorov_covariance_symmetric[OF r0 D noll_parity_standard,
        of euler_gamma diagonal_draw None] unfolding nZ by blast
  have "cov ! 0 ! 6 = cov ! 6 ! 0" using sym by simp
  then have "\<exists>s' cov. generateTurbulentZernikesKolmogorov noll_standard euler_gamma diagonal_draw
                   ?s (15 / 100) None = Inr s'
          \<and> covariance s' = Some cov \<and> cov ! 0 ! 6 = cov ! 6 ! 0"
    using run by blast
  then show ?thesis using r0 D noll_parity_standard by (intro conjI)
qed

text \<open>
  Constructing a session twice with \<open>verbose=True\<close>: when the first call had to compute
  the tensor, it saved it as a new file, and the second call with the same arguments
  takes that file, leaves the files as they are, and ends with the same \<open>M\<close> and the
  same stacked matrix. The two sessions differ in \<open>MComputed\<close> only, which the lookup
  sets and the computation does not.
\<close>

theorem second_init_reuses_tensor:
  assumes first: "init pm files nS nZ fv hs D True np ap = Inr (s1, files1)"
    and computed: "\<not> MComputed s1"
  shows "\<exists>saved. files1 = files @ [saved]
           \<and> self_M s1 = Some (arr_0 saved)
           \<and> MStack s1 = Some (stack_blocks nZ (length hs) nS (arr_0 saved))
           \<and> init pm files1 nS nZ fv hs D True np ap = Inr (s1\<lparr>MComputed := True\<rparr>, files1)"
proof -
  define s0 where "s0 = new_session nS nZ fv hs D True np ap"
  define saved where "saved = \<lparr>arr_0 = projection_tensor pm s0, arr_1 = heights s0,
      arr_2 = nStars s0, arr_3 = nZernike s0, arr_4 = fov s0, arr_5 = DTel s0\<rparr>"
  have f: "nHeight s0 = length (heights s0)" "verbose s0" "\<not> MComputed s0"
    "aStack s0 = Map.empty" "self_a s0 = Map.empty"
    unfolding s0_def by (simp_all add: new_session_fields)
  have dims: "nZernike s0 = nZ" "nHeight s0 = length hs" "nStars s0 = nS"
    unfolding s0_def by (simp_all add: new_session_def Let_def)
  have miss: "projectionExists s0 files = Inr (False, s0)"
  proof (cases "projectionExists s0 files")
    case (Inl e)
    then show ?thesis using first by (simp add: init_def s0_def)
  next
    case (Inr r)
    obtain found s' where r: "r = (found, s')" by (cases r)
    show ?thesis
    proof (cases found)
      case True
      then have "projectionExists s0 files = Inr (True, s')" using Inr r by simp
      then have "MComputed s'" using f(2) by (rule projectionExists_hit_verbose)
      moreover have "s1 = s'\<lparr>aStack := Map.empty, self_a := Map.empty\<rparr>"
        using first Inr r True by (simp add: init_def s0_def)
      ultimately show ?thesis using computed by simp
    next
      case False
      then have "projectionExists s0 files = Inr (False, s')" using Inr r by simp
      then show ?thesis using projectionExists_miss_same by blast
    qed
  qed
  let ?A = "stack_blocks (nZernike s0) (nHeight s0) (nStars s0) (projection_tensor pm s0)"
  have one: "init pm files nS nZ fv hs D True np ap
      = Inr (s0\<lparr>self_M := Some (projection_tensor pm s0), MStack := Some ?A\<rparr>, files @ [saved])"
    using miss computeProjection_fresh[OF f(3), of pm files] f(4,5)
    by (simp add: init_def s0_def[symmetric] saved_def)
  then have s1: "s1 = s0\<lparr>self_M := Some (projection_tensor pm s0), MStack := Some ?A\<rparr>"
    and files1: "files1 = files @ [saved]"
    using first by simp_all
  have "projectionExists s0 files1 = projectionExists s0 [saved]"
    unfolding files1 using miss by (rule projectionExists_append)
  also have "\<dots> = Inr (True, s0\<lparr>self_M := Some (projection_tensor pm s0), MComputed := True,
            MStack := Some ?A\<rparr>)"
    unfolding saved_def using f(2,1) by (rule projectionExists_own_file)
  finally have two: "init pm files1 nS nZ fv hs D True np ap = Inr (s1\<lparr>MComputed := True\<rparr>, files1)"
    using f(4,5) by (simp add: init_def s0_def[symmetric] s1)
  have "self_M s1 = Some (arr_0 saved)" "MStack s1 = Some (stack_blocks nZ (length hs) nS (arr_0 saved))"
    unfolding s1 saved_def using dims by simp_all
  then show ?thesis using files1 two by blast
qed

theorem second_init_reuses_tensor_witness:
  "\<exists>s1 files1. init identity_projection [] 2 1 60 [0, 4] 4 True True False = Inr (s1, files1)
      \<and> \<not> MComputed s1
      \<and> (\<exists>saved. files1 = [] @ [saved]
            \<and> self_M s1 = Some (arr_0 saved)
            \<and> MStack s1 = Some (stack_blocks 1 (length [0, 4 :: real]) 2 (arr_0 saved))
            \<and> init identity_projection files1 2 1 60 [0, 4] 4 True True False
                 = Inr (s1\<lparr>MComputed := True\<rparr>, files1))"
proof -
  let ?s0 = "new_session 2 1 60 [0, 4] 4 True True False"
  have "\<not> MComputed ?s0" by (simp add: new_session_fields)
  then obtain s1 files1 where
    first: "init identity_projection [] 2 1 60 [0, 4] 4 True True False = Inr (s1, files1)"
    and nc: "\<not> MComputed s1"
    using computeProjection_fresh[of ?s0 identity_projection "[]"]
    by (simp add: init_def)
  show ?thesis
    using first nc second_init_reuses_tensor[OF first nc] by blast
qed


end
